(* ===== verification/Prelude.thy ===== *)
theory Prelude
  imports Main "HOL-Library.Word"
begin

text \<open>
  Shared vocabulary of the CTP raw-decoder development: the machine types of the
  C++ source as HOL words, the collections of rewrite rules the component theories
  extend, and the generic lemmas on bit strings read as natural numbers that the
  payload unpacker and the byte reassembler both rely on.
\<close>

unbundle bit_operations_syntax

named_theorems ctp_consts \<open>unfolding rules of the CTP data-format constants\<close>
named_theorems reass_simps \<open>rewrite rules of the payload reassembly\<close>

type_synonym gbtword80 = "80 word"
type_synonym u8 = "8 word"
type_synonym u16 = "16 word"
type_synonym u32 = "32 word"
type_synonym u64 = "64 word"

section \<open>Bit strings as natural numbers\<close>

text \<open>
  A bit stream whose first \<open>s\<close> bits are \<open>r\<close> and whose following bits are \<open>w\<close>
  is the number \<open>r + 2 ^ s * w\<close> (with \<open>r < 2 ^ s\<close>). Cutting it at a position
  \<open>n \<ge> s\<close> only looks at \<open>w\<close>.
\<close>

lemma drop_bit_stream_nat:
  fixes r w :: nat
  assumes "r < 2 ^ s" "s \<le> n"
  shows "drop_bit n (r + 2 ^ s * w) = drop_bit (n - s) w"
proof -
  have "drop_bit s (r + 2 ^ s * w) = w"
    using assms(1) by (simp add: drop_bit_eq_div)
  then show ?thesis using assms(2)
    by (metis drop_bit_drop_bit le_add_diff_inverse2)
qed

lemma take_bit_stream_nat:
  fixes r w :: nat
  assumes "r < 2 ^ s" "s \<le> n"
  shows "take_bit n (r + 2 ^ s * w) = r + 2 ^ s * take_bit (n - s) w"
proof -
  have "take_bit n (r + 2 ^ s * w) = (r + 2 ^ s * w) mod 2 ^ n"
    by (simp add: take_bit_eq_mod)
  also have "2 ^ n = 2 ^ s * (2 ^ (n - s) :: nat)"
    using assms(2) by (simp flip: power_add)
  also have "(r + 2 ^ s * w) mod (2 ^ s * 2 ^ (n - s)) = r + 2 ^ s * (w mod 2 ^ (n - s))"
    using assms(1) by (simp add: mod_mult2_eq add.commute mult.commute)
  finally show ?thesis by (simp add: take_bit_eq_mod)
qed

text \<open>Cutting a stream inside its first part leaves the second part in place.\<close>

lemma drop_bit_stream_low_nat:
  fixes a b :: nat
  assumes "k \<le> m"
  shows "drop_bit k (a + 2 ^ m * b) = drop_bit k a + 2 ^ (m - k) * b"
proof -
  have "2 ^ m = 2 ^ k * (2 ^ (m - k) :: nat)"
    using assms by (simp flip: power_add)
  then have "a + 2 ^ m * b = a + (2 ^ (m - k) * b) * 2 ^ k"
    by simp
  then show ?thesis
    by (simp only: drop_bit_eq_div div_mult_self1 power_not_zero zero_neq_numeral
        not_False_eq_True add.commute)
qed

lemma take_bit_stream_low_nat:
  fixes a b :: nat
  assumes "n \<le> m"
  shows "take_bit n (a + 2 ^ m * b) = take_bit n a"
proof -
  have "2 ^ m = 2 ^ n * (2 ^ (m - n) :: nat)"
    using assms by (simp flip: power_add)
  then have "a + 2 ^ m * b = a + (2 ^ (m - n) * b) * 2 ^ n"
    by simp
  then show ?thesis
    by (simp only: take_bit_eq_mod mod_mult_self1)
qed

text \<open>A disjoint \<open>OR\<close> of a low part and a shifted high part is their sum.\<close>

lemma or_push_bit_nat:
  fixes r x :: nat
  assumes "r < 2 ^ s"
  shows "r OR push_bit s x = r + 2 ^ s * x"
proof -
  have r: "r = take_bit s r"
    using assms by (simp add: take_bit_nat_eq_self)
  have "\<And>n. \<not> bit r n \<or> \<not> bit (push_bit s x) n"
    by (subst r) (auto simp: bit_take_bit_iff bit_push_bit_iff)
  then show ?thesis
    by (simp add: disjunctive_add push_bit_eq_mult mult.commute)
qed

section \<open>Lists\<close>

lemma drop_drop_append:
  assumes "j \<le> length xs"
  shows "drop k (drop j xs @ ys) = drop (k + j) (xs @ ys)"
  using assms by simp

section \<open>Words\<close>

lemma unat_word_of_nat_small:
  assumes "x < 2 ^ LENGTH('a::len)"
  shows "unat (word_of_nat x :: 'a word) = x"
  using assms by (simp add: unat_of_nat)

lemma unat_take_bit_drop_bit:
  fixes w :: "'a::len word"
  shows "unat (take_bit n (drop_bit i w)) = take_bit n (drop_bit i (unat w))"
  by (simp add: unsigned_take_bit_eq unat_drop_bit_eq)

end
