(* ===== verification/CTPFormat.thy ===== *)
theory CTPFormat
  imports Prelude
begin

text \<open>
  The constants of the CTP raw data format that \<open>RawDecoderSpec.cxx\<close> uses but
  that are declared in headers outside the modelled sources (the data-format
  header of the CTP digits): the GBT word width, the payload widths of the two
  CTP links, and the link identifiers. The link identifiers 0 and 1 are the ones
  the source names in its comment at the \<open>getFEEID\<close> call (line 88).
\<close>

definition NGBT :: nat where
  [ctp_consts]: "NGBT = 80"

definition NIntRecPayload :: nat where
  [ctp_consts]: "NIntRecPayload = 48 + 12"

definition NClassPayload :: nat where
  [ctp_consts]: "NClassPayload = 64 + 12"

definition GBTLinkIDIntRec :: nat where
  [ctp_consts]: "GBTLinkIDIntRec = 0"

definition GBTLinkIDClassRec :: nat where
  [ctp_consts]: "GBTLinkIDClassRec = 1"

lemma payload_widths_fit [simp]:
  "0 < NIntRecPayload" "NIntRecPayload < NGBT"
  "0 < NClassPayload" "NClassPayload < NGBT"
  by (simp_all add: ctp_consts)

end
