(* ===== verification/Unpacker.thy ===== *)
theory Unpacker
  imports CTPFormat
begin

text \<open>
  The payload unpacker: \<open>RawDecoderSpec::makeGBTWordInverse\<close>
  (\<open>RawDecoderSpec.cxx\<close>, lines 234--252), which cuts the stream of 80-bit GBT words
  into the \<open>Npld\<close>-bit payloads (diglets) that the CTP firmware packed into it
  back to back, carrying the bits of an unfinished payload from one word to the
  next in \<open>remnant\<close> and \<open>size_gbt\<close>.
  The \<open>while\<close> loop is a \<^theory_text>\<open>partial_function (option)\<close>: with \<open>Npld = 0\<close>
  it never ends, and the model says so by \<open>None\<close>. The theory proves that it ends
  for every payload width \<open>0 < Npld < NGBT\<close>, and that it refines an abstract
  chunker of the bit stream: the diglets are exactly the consecutive \<open>Npld\<close>-bit
  slices of the concatenated words, and the remnant is the unsliced tail.
\<close>

unbundle bit_operations_syntax

section \<open>The unpacker as in the source\<close>

text \<open>The inner \<open>for\<close> loop that builds \<open>masksize\<close> bit by bit (lines 239--242).\<close>

definition masksize :: "nat \<Rightarrow> gbtword80" where
  "masksize n = fold (\<lambda>j m. set_bit j m) [0..<n] 0"

text \<open>
  The \<open>while\<close> loop (lines 238--249), with its local variables \<open>GBTWord\<close>,
  \<open>diglet\<close>, \<open>size_gbt\<close>, \<open>i\<close> and the output vector \<open>diglets\<close> as parameters.
  It returns the output vector, the shifted word and the number of bits consumed.
\<close>

partial_function (option) gbt_loop ::
  "nat \<Rightarrow> gbtword80 \<Rightarrow> gbtword80 \<Rightarrow> nat \<Rightarrow> nat \<Rightarrow> gbtword80 list \<Rightarrow>
   (gbtword80 list \<times> gbtword80 \<times> nat) option"
where
  "gbt_loop Npld GBTWord diglet size_gbt i diglets =
    (if i < NGBT - Npld then
       gbt_loop Npld (drop_bit (Npld - size_gbt) GBTWord) 0 0 (i + (Npld - size_gbt))
         (diglets @ [diglet OR push_bit size_gbt (GBTWord AND masksize (Npld - size_gbt))])
     else Some (diglets, GBTWord, i))"

declare gbt_loop.simps [code]

text \<open>
  The whole function. Its reference parameters \<open>diglets\<close>, \<open>GBTWord\<close>,
  \<open>remnant\<close> and \<open>size_gbt\<close> are returned in that order. When
  \<open>size_gbt > Npld\<close> and the loop runs (\<open>Npld < NGBT\<close>), the \<open>uint32_t\<close> difference
  \<open>Npld - size_gbt\<close> wraps and the masksize loop of the first pass writes
  \<open>masksize[j]\<close> far past bit 79; when
  \<open>Npld > NGBT\<close>, \<open>NGBT - Npld\<close> wraps and the loop's second pass does the same.
  Both are undefined behaviour, and are the value \<open>None\<close>, as a loop that never ends
  (\<open>Npld = 0\<close>) is.
\<close>

definition makeGBTWordInverse ::
  "gbtword80 list \<Rightarrow> gbtword80 \<Rightarrow> gbtword80 \<Rightarrow> nat \<Rightarrow> nat \<Rightarrow>
   (gbtword80 list \<times> gbtword80 \<times> gbtword80 \<times> nat) option"
where
  "makeGBTWordInverse diglets GBTWord remnant size_gbt Npld =
    (if (Npld < size_gbt \<and> Npld < NGBT) \<or> NGBT < Npld then None
     else case gbt_loop Npld GBTWord remnant size_gbt 0 diglets of
       None \<Rightarrow> None
     | Some (diglets', GBTWord', i) \<Rightarrow> Some (diglets', GBTWord', GBTWord', NGBT - i))"

text \<open>
  The reassembly state that \<open>RawDecoderSpec::run\<close> keeps across the words of an
  orbit (its locals \<open>remnant\<close> and \<open>size_gbt\<close>, lines 78--79), and one call as the
  decoder makes it (lines 131--133: the vector is cleared first).
\<close>

record reass_state =
  remnant :: gbtword80
  size_gbt :: nat

definition reass_empty :: reass_state where
  "reass_empty = \<lparr>remnant = 0, size_gbt = 0\<rparr>"

definition unpack_word :: "nat \<Rightarrow> reass_state \<Rightarrow> gbtword80 \<Rightarrow> (gbtword80 list \<times> reass_state) option" where
  "unpack_word Npld st w =
    (case makeGBTWordInverse [] w (remnant st) (size_gbt st) Npld of
       None \<Rightarrow> None
     | Some (ds, _, r, s) \<Rightarrow> Some (ds, \<lparr>remnant = r, size_gbt = s\<rparr>))"

text \<open>Successive words of one orbit, their diglets concatenated.\<close>

fun unpack_words :: "nat \<Rightarrow> reass_state \<Rightarrow> gbtword80 list \<Rightarrow> (gbtword80 list \<times> reass_state) option" where
  "unpack_words Npld st [] = Some ([], st)"
| "unpack_words Npld st (w # ws) =
    (case unpack_word Npld st w of
       None \<Rightarrow> None
     | Some (ds, st') \<Rightarrow>
         (case unpack_words Npld st' ws of
            None \<Rightarrow> None
          | Some (ds', st'') \<Rightarrow> Some (ds @ ds', st'')))"

section \<open>The abstract chunker\<close>

text \<open>
  The specification: a state \<open>(r, s)\<close> is a stream prefix of \<open>s\<close> bits with value
  \<open>r\<close>; a word appends \<open>NGBT\<close> bits; every slice of \<open>Npld\<close> bits that ends strictly
  before the end of the stream is emitted, the rest is kept.
\<close>

definition chunk :: "nat \<Rightarrow> nat \<Rightarrow> nat \<Rightarrow> nat" where
  "chunk Npld S j = take_bit Npld (drop_bit (j * Npld) S)"

definition unpack_abs :: "nat \<Rightarrow> nat \<times> nat \<Rightarrow> nat \<Rightarrow> nat list \<times> nat \<times> nat" where
  "unpack_abs Npld rs w =
    (let S = fst rs + 2 ^ snd rs * w; K = (snd rs + NGBT - 1) div Npld
     in (map (chunk Npld S) [0..<K], drop_bit (K * Npld) S, snd rs + NGBT - K * Npld))"

definition reass_abs :: "reass_state \<Rightarrow> nat \<times> nat" where
  "reass_abs st = (unat (remnant st), size_gbt st)"

definition reass_inv :: "nat \<Rightarrow> reass_state \<Rightarrow> bool" where
  "reass_inv Npld st \<longleftrightarrow> size_gbt st \<le> Npld \<and> unat (remnant st) < 2 ^ size_gbt st"

text \<open>The value of a sequence of GBT words as one stream, first word lowest.\<close>

primrec words_val :: "gbtword80 list \<Rightarrow> nat" where
  "words_val [] = 0"
| "words_val (w # ws) = unat w + 2 ^ NGBT * words_val ws"

text \<open>
  The packing the firmware performs (the spec's round-trip property, section 8):
  payloads of \<open>Npld\<close> bits laid edge to edge, first payload lowest, and the stream
  cut into \<open>n\<close> GBT words, padded with zero bits.
\<close>

primrec pack_payloads :: "nat \<Rightarrow> nat list \<Rightarrow> nat" where
  "pack_payloads Npld [] = 0"
| "pack_payloads Npld (v # vs) = v + 2 ^ Npld * pack_payloads Npld vs"

primrec gbt_words :: "nat \<Rightarrow> nat \<Rightarrow> gbtword80 list" where
  "gbt_words 0 P = []"
| "gbt_words (Suc n) P = word_of_nat (take_bit NGBT P) # gbt_words n (drop_bit NGBT P)"

section \<open>Properties of the loop\<close>

lemma masksize_eq_mask [reass_simps]: "masksize n = mask n"
proof (induction n)
  case 0
  then show ?case by (simp add: masksize_def)
next
  case (Suc n)
  have "masksize (Suc n) = set_bit n (masksize n)"
    by (simp add: masksize_def)
  also have "\<dots> = mask (Suc n)"
    using Suc.IH by (simp add: set_bit_eq_or mask_Suc_exp or.commute)
  finally show ?case .
qed

text \<open>
  After the first pass the loop runs with an empty \<open>diglet\<close> and \<open>size_gbt = 0\<close>
  and cuts a full payload from the word per pass; it passes \<open>(79 - i) div Npld\<close>
  more times.
\<close>

lemma gbt_loop_steady:
  assumes "0 < Npld"
  shows "gbt_loop Npld (drop_bit i w) 0 0 i acc =
    Some (acc @ map (\<lambda>j. take_bit Npld (drop_bit (i + j * Npld) w)) [0..<(79 - i) div Npld],
          drop_bit (i + (79 - i) div Npld * Npld) w, i + (79 - i) div Npld * Npld)"
proof (induction "(79 - i) div Npld" arbitrary: i acc)
  case 0
  then have "\<not> i < NGBT - Npld"
    using assms by (auto simp: NGBT_def div_eq_0_iff)
  then show ?case
    using 0 by (simp add: gbt_loop.simps)
next
  case (Suc m)
  then have le: "Npld \<le> 79 - i"
    using assms by (metis div_greater_zero_iff zero_less_Suc)
  then have lt: "i < NGBT - Npld"
    using assms by (simp add: NGBT_def)
  have "79 - i = (79 - (i + Npld)) + Npld"
    using le by simp
  then have m: "m = (79 - (i + Npld)) div Npld"
    using Suc.hyps(2) assms by (metis div_add_self2 less_not_refl2 nat.inject Suc_eq_plus1)
  have step: "gbt_loop Npld (drop_bit i w) 0 0 i acc =
      gbt_loop Npld (drop_bit (i + Npld) w) 0 0 (i + Npld) (acc @ [take_bit Npld (drop_bit i w)])"
    by (subst gbt_loop.simps) (simp add: lt masksize_eq_mask take_bit_eq_mask add.commute)
  have ms: "map (\<lambda>j. take_bit Npld (drop_bit (i + j * Npld) w)) [0..<Suc m] =
      take_bit Npld (drop_bit i w) # map (\<lambda>j. take_bit Npld (drop_bit (i + Npld + j * Npld) w)) [0..<m]"
    by (simp add: map_upt_Suc algebra_simps del: upt_Suc)
  show ?case
    unfolding step Suc.hyps(1)[OF m] m[symmetric] Suc.hyps(2)[symmetric] ms
    by (simp add: algebra_simps)
qed

text \<open>The first pass completes the remnant with the low \<open>Npld - size_gbt\<close> bits of the word.\<close>

lemma gbt_loop_first:
  assumes "0 < Npld" "Npld < NGBT" "s \<le> Npld"
  shows "gbt_loop Npld w r s 0 acc =
    Some (acc @ (r OR push_bit s (w AND mask (Npld - s))) #
            map (\<lambda>j. take_bit Npld (drop_bit (Npld - s + j * Npld) w)) [0..<(79 - (Npld - s)) div Npld],
          drop_bit (Npld - s + (79 - (Npld - s)) div Npld * Npld) w,
          Npld - s + (79 - (Npld - s)) div Npld * Npld)"
proof -
  have "gbt_loop Npld w r s 0 acc =
      gbt_loop Npld (drop_bit (Npld - s) w) 0 0 (Npld - s) (acc @ [r OR push_bit s (w AND mask (Npld - s))])"
    using assms by (subst gbt_loop.simps) (simp add: masksize_eq_mask)
  then show ?thesis
    using gbt_loop_steady [OF assms(1), of "Npld - s" w] by simp
qed

text \<open>The payloads of one call, in stream terms.\<close>

lemma unpack_word_eq:
  assumes "0 < Npld" "Npld < NGBT" "size_gbt st \<le> Npld"
  defines "m \<equiv> (79 - (Npld - size_gbt st)) div Npld"
  shows "unpack_word Npld st w =
    Some ((remnant st OR push_bit (size_gbt st) (w AND mask (Npld - size_gbt st))) #
            map (\<lambda>j. take_bit Npld (drop_bit (Npld - size_gbt st + j * Npld) w)) [0..<m],
          \<lparr>remnant = drop_bit (Npld - size_gbt st + m * Npld) w,
           size_gbt = NGBT - (Npld - size_gbt st + m * Npld)\<rparr>)"
  using gbt_loop_first [OF assms(1-3), of w "remnant st" "[]"] assms(2,3)
  by (simp add: unpack_word_def makeGBTWordInverse_def m_def not_less [symmetric])

lemma unpack_count:
  assumes "0 < Npld" "Npld < NGBT" "s \<le> Npld"
  shows "(s + NGBT - 1) div Npld = Suc ((79 - (Npld - s)) div Npld)"
proof -
  have "s + NGBT - 1 = (79 - (Npld - s)) + Npld"
    using assms by (simp add: NGBT_def)
  then show ?thesis
    using assms(1) by (simp add: div_add_self2)
qed

theorem unpack_word_refines:
  assumes inv: "reass_inv Npld st" and pos: "0 < Npld" and lt: "Npld < NGBT"
  shows "\<exists>ds st'. unpack_word Npld st w = Some (ds, st') \<and>
           (map unat ds, reass_abs st') = unpack_abs Npld (reass_abs st) (unat w)"
proof -
  define r s where "r = remnant st" and "s = size_gbt st"
  define m where "m = (79 - (Npld - s)) div Npld"
  define S where "S = unat r + 2 ^ s * unat w"
  from inv have s_le: "s \<le> Npld" and r_lt: "unat r < 2 ^ s"
    by (simp_all add: reass_inv_def r_def s_def)
  have K: "(s + NGBT - 1) div Npld = Suc m"
    using unpack_count [OF pos lt s_le] by (simp add: m_def)
  have first: "unat (r OR push_bit s (w AND mask (Npld - s))) = chunk Npld S 0"
  proof -
    have "unat (r OR push_bit s (w AND mask (Npld - s))) = unat r + 2 ^ s * take_bit (Npld - s) (unat w)"
    proof -
      have "push_bit s (take_bit (Npld - s) (unat w)) < (2::nat) ^ (s + (Npld - s))"
        by (simp add: push_bit_eq_mult power_add mult.commute)
      also have "\<dots> \<le> 2 ^ LENGTH(80)"
        using s_le lt by (intro power_increasing) (simp_all add: NGBT_def)
      finally have "unat (push_bit s (w AND mask (Npld - s))) = push_bit s (take_bit (Npld - s) (unat w))"
        by (simp add: unsigned_push_bit_eq unsigned_take_bit_eq take_bit_nat_eq_self flip: take_bit_eq_mask)
      then show ?thesis
        using r_lt by (simp only: unsigned_or_eq or_push_bit_nat)
    qed
    also have "\<dots> = chunk Npld S 0"
      using r_lt s_le by (simp add: chunk_def S_def take_bit_stream_nat)
    finally show ?thesis .
  qed
  have rest: "unat (take_bit Npld (drop_bit (Npld - s + j * Npld) w)) = chunk Npld S (Suc j)" for j
  proof -
    have "Suc j * Npld - s = Npld - s + j * Npld"
      using s_le by simp
    then show ?thesis
      using r_lt s_le by (simp add: chunk_def S_def drop_bit_stream_nat unat_take_bit_drop_bit)
  qed
  have tail: "unat (drop_bit (Npld - s + m * Npld) w) = drop_bit (Suc m * Npld) S"
  proof -
    have "Suc m * Npld - s = Npld - s + m * Npld"
      using s_le by simp
    then show ?thesis
      using r_lt s_le by (simp add: S_def drop_bit_stream_nat unat_drop_bit_eq)
  qed
  have size: "NGBT - (Npld - s + m * Npld) = s + NGBT - Suc m * Npld"
    using s_le by simp
  have diglets: "map unat ((r OR push_bit s (w AND mask (Npld - s))) #
      map (\<lambda>j. take_bit Npld (drop_bit (Npld - s + j * Npld) w)) [0..<m]) = map (chunk Npld S) [0..<Suc m]"
    using first rest by (simp add: map_upt_Suc del: upt_Suc)
  show ?thesis
    using unpack_word_eq [OF pos lt, of st w] s_le diglets tail size K
    by (simp add: unpack_abs_def reass_abs_def Let_def r_def s_def m_def S_def)
qed

text \<open>
  The abstract step keeps the remnant a proper prefix: after a word at least one and
  at most \<open>Npld\<close> bits are left over, and the remnant fits in them.
\<close>

lemma unpack_abs_inv:
  assumes "r < 2 ^ s" "s \<le> Npld" "w < 2 ^ NGBT" "0 < Npld"
    and "unpack_abs Npld (r, s) w = (cs, r', s')"
  shows "0 < s' \<and> s' \<le> Npld \<and> r' < 2 ^ s'"
proof -
  define K where "K = (s + NGBT - 1) div Npld"
  define S where "S = r + 2 ^ s * w"
  have out: "r' = drop_bit (K * Npld) S" "s' = s + NGBT - K * Npld"
    using assms(5) by (simp_all add: unpack_abs_def Let_def K_def S_def)
  have lo: "K * Npld \<le> s + NGBT - 1"
    by (simp add: K_def)
  have hi: "s + NGBT - 1 < K * Npld + Npld"
    using assms(4) by (simp add: K_def) (metis div_mult_mod_eq mod_less_divisor add_less_cancel_left)
  have "S < 2 ^ s * 2 ^ NGBT"
  proof -
    have "S < 2 ^ s + 2 ^ s * w" using assms(1) by (simp add: S_def)
    also have "\<dots> = 2 ^ s * (w + 1)" by (simp add: algebra_simps)
    also have "\<dots> \<le> 2 ^ s * 2 ^ NGBT"
      using assms(3) by (intro mult_le_mono2) simp
    finally show ?thesis .
  qed
  moreover have "2 ^ s * 2 ^ NGBT = 2 ^ (K * Npld) * (2 ^ s' :: nat)"
    using lo by (simp add: out(2) flip: power_add)
  ultimately have "S < 2 ^ (K * Npld) * 2 ^ s'"
    by simp
  then have "r' < 2 ^ s'"
    by (simp add: out(1) drop_bit_eq_div less_mult_imp_div_less mult.commute)
  moreover have "0 < s'" "s' \<le> Npld"
    using lo hi by (simp_all add: out(2) NGBT_def)
  ultimately show ?thesis by simp
qed

lemma unpack_word_inv:
  assumes "reass_inv Npld st" "0 < Npld" "Npld < NGBT"
    and "unpack_word Npld st w = Some (ds, st')"
  shows "reass_inv Npld st' \<and> 0 < size_gbt st'"
proof -
  from unpack_word_refines [OF assms(1-3), of w] assms(4)
  have abs: "unpack_abs Npld (reass_abs st) (unat w) = (map unat ds, reass_abs st')"
    by auto
  have "unat w < 2 ^ NGBT"
    using unsigned_less [of w] by (simp add: NGBT_def)
  with assms(1,2) abs show ?thesis
    using unpack_abs_inv [of "unat (remnant st)" "size_gbt st" Npld "unat w"]
    by (simp add: reass_abs_def reass_inv_def)
qed

text \<open>Dividing what is left after \<open>k\<close> whole slices.\<close>

lemma div_sub_slices:
  fixes x k n :: nat
  assumes "0 < n" "k * n \<le> x"
  shows "(x - k * n) div n = x div n - k"
proof -
  have "x div n = ((x - k * n) + k * n) div n"
    using assms(2) by simp
  also have "\<dots> = k + (x - k * n) div n"
    using assms(1) by simp
  finally show ?thesis by simp
qed

text \<open>
  Over a sequence of words of one orbit the unpacker returns, and its diglets are the
  consecutive slices of the whole stream that end strictly before its end.
\<close>

lemma unpack_words_stream:
  assumes "reass_inv Npld st" "0 < Npld" "Npld < NGBT"
  shows "\<exists>ds st'. unpack_words Npld st ws = Some (ds, st') \<and> reass_inv Npld st' \<and>
    (let S = unat (remnant st) + 2 ^ size_gbt st * words_val ws;
         K = (size_gbt st + NGBT * length ws - 1) div Npld
     in map unat ds = map (chunk Npld S) [0..<K] \<and> unat (remnant st') = drop_bit (K * Npld) S \<and>
        size_gbt st' = size_gbt st + NGBT * length ws - K * Npld)"
  using assms(1)
proof (induction ws arbitrary: st)
  case Nil
  then have "(size_gbt st - 1) div Npld = 0"
    using assms(2) by (auto simp: reass_inv_def div_eq_0_iff)
  then show ?case
    using Nil by simp
next
  case (Cons w ws)
  define r s where "r = unat (remnant st)" and "s = size_gbt st"
  define A where "A = r + 2 ^ s * unat w"
  define K1 where "K1 = (s + NGBT - 1) div Npld"
  obtain ds1 st1 where step: "unpack_word Npld st w = Some (ds1, st1)"
      and abs1: "(map unat ds1, reass_abs st1) = unpack_abs Npld (r, s) (unat w)"
    using unpack_word_refines [OF Cons.prems assms(2,3), of w] by (auto simp: reass_abs_def r_def s_def)
  have inv1: "reass_inv Npld st1"
    using unpack_word_inv [OF Cons.prems assms(2,3) step] by simp
  have d1: "map unat ds1 = map (chunk Npld A) [0..<K1]"
    and r1: "unat (remnant st1) = drop_bit (K1 * Npld) A"
    and s1: "size_gbt st1 = s + NGBT - K1 * Npld"
    using abs1 by (simp_all add: unpack_abs_def reass_abs_def Let_def A_def K1_def)
  obtain ds2 st2 where rest: "unpack_words Npld st1 ws = Some (ds2, st2)" and inv2: "reass_inv Npld st2"
    and IH: "let S = unat (remnant st1) + 2 ^ size_gbt st1 * words_val ws;
         K = (size_gbt st1 + NGBT * length ws - 1) div Npld
     in map unat ds2 = map (chunk Npld S) [0..<K] \<and> unat (remnant st2) = drop_bit (K * Npld) S \<and>
        size_gbt st2 = size_gbt st1 + NGBT * length ws - K * Npld"
    using Cons.IH [OF inv1] by blast
  define V where "V = words_val ws"
  define S where "S = r + 2 ^ s * words_val (w # ws)"
  define K2 where "K2 = (size_gbt st1 + NGBT * length ws - 1) div Npld"
  define K where "K = (s + NGBT * length (w # ws) - 1) div Npld"
  have lo1: "K1 * Npld \<le> s + NGBT - 1"
    by (simp add: K1_def)
  have S_split: "S = A + 2 ^ (s + NGBT) * V"
    by (simp add: S_def A_def V_def algebra_simps power_add)
  have S1: "drop_bit (K1 * Npld) S = unat (remnant st1) + 2 ^ size_gbt st1 * V"
    using lo1 by (simp add: S_split r1 s1 drop_bit_stream_low_nat NGBT_def)
  have KK: "K = K1 + K2"
  proof -
    define X where "X = s + NGBT * length (w # ws) - 1"
    have lo: "K1 * Npld \<le> X"
      using lo1 by (simp add: X_def NGBT_def)
    have "size_gbt st1 + NGBT * length ws - 1 = X - K1 * Npld"
      using lo1 by (simp add: s1 X_def NGBT_def)
    then have "K2 = X div Npld - K1"
      by (simp add: K2_def div_sub_slices [OF assms(2) lo])
    moreover have "K1 \<le> X div Npld"
      by (simp add: K1_def X_def NGBT_def div_le_mono)
    ultimately show ?thesis
      by (simp add: K_def X_def)
  qed
  have low: "chunk Npld S j = chunk Npld A j" if "j < K1" for j
  proof -
    have "Suc j * Npld \<le> K1 * Npld" using that by (simp only: mult_le_mono1 Suc_leI)
    then have fit: "Npld \<le> s + NGBT - j * Npld" and jle: "j * Npld \<le> s + NGBT"
      using lo1 by simp_all
    have "drop_bit (j * Npld) S = drop_bit (j * Npld) A + 2 ^ (s + NGBT - j * Npld) * V"
      unfolding S_split by (rule drop_bit_stream_low_nat [OF jle])
    then show ?thesis
      by (simp add: chunk_def take_bit_stream_low_nat [OF fit])
  qed
  have high: "chunk Npld S (K1 + j) = chunk Npld (drop_bit (K1 * Npld) S) j" for j
    by (simp add: chunk_def algebra_simps)
  have IH': "map unat ds2 = map (chunk Npld (drop_bit (K1 * Npld) S)) [0..<K2]"
      "unat (remnant st2) = drop_bit (K2 * Npld) (drop_bit (K1 * Npld) S)"
      "size_gbt st2 = size_gbt st1 + NGBT * length ws - K2 * Npld"
    using IH unfolding Let_def V_def[symmetric] K2_def[symmetric] S1[symmetric] by simp_all
  have shifted: "map (chunk Npld S) [K1..<K1 + k] = map (chunk Npld (drop_bit (K1 * Npld) S)) [0..<k]" for k
    by (induction k) (simp_all add: high)
  have "map (chunk Npld S) [0..<K] = map (chunk Npld S) [0..<K1] @ map (chunk Npld S) [K1..<K1 + K2]"
    by (simp only: KK upt_add_eq_append [OF le0] map_append)
  also have "\<dots> = map unat (ds1 @ ds2)"
    using low by (simp only: d1 IH'(1) shifted map_append) simp
  finally have chunks: "map unat (ds1 @ ds2) = map (chunk Npld S) [0..<K]" ..
  have K2_le: "K2 * Npld \<le> size_gbt st1 + NGBT * length ws - 1"
    by (simp add: K2_def)
  have size: "size_gbt st2 = s + NGBT * length (w # ws) - K * Npld"
    using lo1 K2_le unfolding IH'(3) s1 KK add_mult_distrib by (simp add: NGBT_def)
  have tail: "unat (remnant st2) = drop_bit (K * Npld) S"
    unfolding IH'(2) KK add_mult_distrib by (simp add: add.commute)
  have run: "unpack_words Npld st (w # ws) = Some (ds1 @ ds2, st2)"
    using step rest by simp
  show ?case
    unfolding Let_def r_def [symmetric] s_def [symmetric] S_def [symmetric] K_def [symmetric]
    using run inv2 chunks size tail by blast
qed

section \<open>Packing and unpacking\<close>

lemma take_bit_add_split_nat:
  fixes P :: nat
  shows "take_bit (m + n) P = take_bit m P + 2 ^ m * take_bit n (drop_bit m P)"
  by (simp add: take_bit_eq_mod drop_bit_eq_div power_add mod_mult2_eq)

lemma words_val_gbt_words: "words_val (gbt_words n P) = take_bit (NGBT * n) P"
proof (induction n arbitrary: P)
  case 0
  then show ?case by simp
next
  case (Suc n)
  have "unat (word_of_nat (take_bit NGBT P) :: gbtword80) = take_bit NGBT P"
    by (simp add: NGBT_def unsigned_of_nat)
  then show ?case
    using take_bit_add_split_nat [of NGBT "NGBT * n" P] by (simp add: Suc.IH)
qed

lemma length_gbt_words [simp]: "length (gbt_words n P) = n"
  by (induction n arbitrary: P) simp_all

lemma chunk_pack_payloads:
  assumes "\<forall>v\<in>set vs. v < 2 ^ Npld"
  shows "chunk Npld (pack_payloads Npld vs) j = (if j < length vs then vs ! j else 0)"
  using assms
proof (induction vs arbitrary: j)
  case Nil
  then show ?case by (simp add: chunk_def)
next
  case (Cons v vs)
  show ?case
  proof (cases j)
    case 0
    then show ?thesis
      using Cons.prems take_bit_stream_nat [of v Npld Npld] by (simp add: chunk_def)
  next
    case (Suc k)
    have "chunk Npld (pack_payloads Npld (v # vs)) j = chunk Npld (pack_payloads Npld vs) k"
      using Cons.prems drop_bit_stream_nat [of v Npld "Npld + k * Npld"] by (simp add: chunk_def Suc)
    then show ?thesis
      using Cons by (simp add: Suc)
  qed
qed

lemma chunk_take_bit:
  assumes "Suc j * Npld \<le> T"
  shows "chunk Npld (take_bit T P) j = chunk Npld P j"
proof -
  have "Npld \<le> T - j * Npld" using assms by simp
  then show ?thesis by (simp add: chunk_def drop_bit_take_bit min_def)
qed

text \<open>The packed stream of \<open>n\<close> words, unpacked from an empty state.\<close>

lemma unpack_packed:
  fixes n :: nat
  assumes "0 < Npld" "Npld < NGBT" "\<forall>v\<in>set vs. v < 2 ^ Npld"
  defines "K \<equiv> (NGBT * n - 1) div Npld"
  shows "\<exists>ds st'. unpack_words Npld reass_empty (gbt_words n (pack_payloads Npld vs)) = Some (ds, st') \<and>
    map unat ds = map (\<lambda>j. if j < length vs then vs ! j else 0) [0..<K] \<and>
    unat (remnant st') = drop_bit (K * Npld) (take_bit (NGBT * n) (pack_payloads Npld vs)) \<and>
    size_gbt st' = NGBT * n - K * Npld"
proof -
  have inv0: "reass_inv Npld reass_empty"
    by (simp add: reass_inv_def reass_empty_def)
  obtain ds st' where run: "unpack_words Npld reass_empty (gbt_words n (pack_payloads Npld vs)) = Some (ds, st')"
    and out: "map unat ds = map (chunk Npld (take_bit (NGBT * n) (pack_payloads Npld vs))) [0..<K]"
      "unat (remnant st') = drop_bit (K * Npld) (take_bit (NGBT * n) (pack_payloads Npld vs))"
      "size_gbt st' = NGBT * n - K * Npld"
    using unpack_words_stream [OF inv0 assms(1,2), of "gbt_words n (pack_payloads Npld vs)"]
    by (auto simp: reass_empty_def words_val_gbt_words K_def Let_def)
  have "chunk Npld (take_bit (NGBT * n) (pack_payloads Npld vs)) j = (if j < length vs then vs ! j else 0)"
    if "j < K" for j
  proof -
    have "Suc j * Npld \<le> K * Npld" using that by (simp only: mult_le_mono1 Suc_leI)
    also have "\<dots> \<le> NGBT * n - 1" by (simp add: K_def)
    also have "\<dots> \<le> NGBT * n" by simp
    finally show ?thesis
      by (simp add: chunk_take_bit chunk_pack_payloads [OF assms(3)])
  qed
  then have "map unat ds = map (\<lambda>j. if j < length vs then vs ! j else 0) [0..<K]"
    by (simp add: out(1))
  with run out(2,3) show ?thesis by blast
qed

text \<open>The rules that evaluate the unpacker on concrete words.\<close>

lemmas unpack_eval = gbt_loop.simps unpack_word_def makeGBTWordInverse_def reass_empty_def
  NGBT_def masksize_eq_mask mask_eq_exp_minus_1

lemma pad_payloads:
  assumes "length vs \<le> K"
  shows "map (\<lambda>j. if j < length vs then vs ! j else (0::nat)) [0..<K] = vs @ replicate (K - length vs) 0"
  using assms by (intro nth_equalityI) (auto simp: nth_append)

lemma payloads_fit:
  fixes N n :: nat
  assumes "0 < Npld" "N * Npld < NGBT * n"
  shows "N \<le> (NGBT * n - 1) div Npld"
proof -
  have "N = N * Npld div Npld"
    using assms(1) by simp
  also have "\<dots> \<le> (NGBT * n - 1) div Npld"
    using assms(2) by (intro div_le_mono) simp
  finally show ?thesis .
qed

lemma last_slice_count:
  fixes N Npld :: nat
  assumes "0 < Npld" "0 < N"
  shows "(N * Npld - 1) div Npld = N - 1"
proof -
  obtain k where k: "N = Suc k" using assms(2) by (cases N) simp_all
  have "N * Npld - 1 = (Npld - 1) + k * Npld"
    using assms(1) by (simp add: k)
  moreover have "((Npld - 1) + k * Npld) div Npld = k + (Npld - 1) div Npld"
    using assms(1) by (metis div_mult_self1 less_not_refl2)
  ultimately show ?thesis
    using assms(1) by (simp add: k)
qed

section \<open>Claims on the unpacker\<close>

text \<open>
  C1 (round trip). Payloads of \<open>Npld\<close> bits packed edge to edge into \<open>n\<close> GBT words
  come back out of the unpacker in order, followed only by zero payloads cut from the
  padding, whenever the packed payloads end strictly before the end of the last word.
\<close>

theorem unpack_roundtrip:
  fixes n :: nat
  assumes "0 < Npld" "Npld < NGBT" "\<forall>v\<in>set vs. v < 2 ^ Npld"
    and "length vs * Npld < NGBT * n"
  shows "\<exists>ds st'. unpack_words Npld reass_empty (gbt_words n (pack_payloads Npld vs)) = Some (ds, st') \<and>
           map unat ds = vs @ replicate ((NGBT * n - 1) div Npld - length vs) 0"
  using unpack_packed [OF assms(1-3), of n] payloads_fit [OF assms(1,4)] by (auto simp: pad_payloads)

text \<open>The spec's scenario: the 12-bit values 1 to 6 in one word come back as they were.\<close>

theorem unpack_roundtrip_witness:
  "\<exists>ds st'. unpack_words 12 reass_empty (gbt_words 1 (pack_payloads 12 [1, 2, 3, 4, 5, 6])) = Some (ds, st') \<and>
     map unat ds = [1, 2, 3, 4, 5, 6]"
  using unpack_roundtrip [of 12 "[1, 2, 3, 4, 5, 6]" 1] by (simp add: NGBT_def)

text \<open>
  C2 (refinement). One call of \<open>makeGBTWordInverse\<close> on a remnant of \<open>size_gbt \<le> Npld\<close>
  bits returns, and its diglets, remnant and new \<open>size_gbt\<close> are those of the abstract
  chunker on the stream formed by the remnant followed by the word.
\<close>

theorem makeGBTWordInverse_refines:
  assumes "s \<le> Npld" "unat r < 2 ^ s" "0 < Npld" "Npld < NGBT"
  shows "\<exists>ds w' r' s'. makeGBTWordInverse [] GBTWord r s Npld = Some (ds, w', r', s') \<and>
           (map unat ds, unat r', s') = unpack_abs Npld (unat r, s) (unat GBTWord)"
proof -
  have "reass_inv Npld \<lparr>remnant = r, size_gbt = s\<rparr>"
    using assms(1,2) by (simp add: reass_inv_def)
  from unpack_word_refines [OF this assms(3,4), of GBTWord]
  show ?thesis
    by (auto simp: unpack_word_def reass_abs_def split: option.splits)
qed

theorem makeGBTWordInverse_refines_witness:
  "\<exists>ds w' r' s'. makeGBTWordInverse [] 1 5 4 12 = Some (ds, w', r', s') \<and>
     (map unat ds, unat r', s') = unpack_abs 12 (5, 4) 1"
  using makeGBTWordInverse_refines [of 4 12 5 1] by (simp add: NGBT_def)

text \<open>
  C3 (invariant). Over any sequence of words of one orbit the unpacker returns, and its
  reassembly state stays well formed: \<open>size_gbt \<le> Npld\<close> and the remnant fits in
  \<open>size_gbt\<close> bits.
\<close>

theorem unpack_words_reass_inv:
  assumes "reass_inv Npld st" "0 < Npld" "Npld < NGBT"
  shows "\<exists>ds st'. unpack_words Npld st ws = Some (ds, st') \<and> reass_inv Npld st'"
  using unpack_words_stream [OF assms, of ws] by blast

theorem unpack_words_reass_inv_witness:
  "\<exists>ds st'. unpack_words NIntRecPayload reass_empty [1, 2, 3] = Some (ds, st') \<and>
     reass_inv NIntRecPayload st'"
  using unpack_words_reass_inv [of NIntRecPayload reass_empty "[1, 2, 3]"]
  by (simp add: reass_inv_def reass_empty_def)

text \<open>
  C4 (functional). When the packed payloads end exactly at the end of a word, the last
  payload is not emitted: it stays in the remnant, which then holds a complete payload
  (\<open>size_gbt = Npld\<close>, against the spec's \<open>size_gbt < Npld\<close>), and is only emitted if
  another word of the same orbit follows.
\<close>

theorem unpack_last_payload_withheld:
  fixes n :: nat
  assumes "0 < Npld" "Npld < NGBT" "\<forall>v\<in>set vs. v < 2 ^ Npld" "vs \<noteq> []"
    and "length vs * Npld = NGBT * n"
  shows "\<exists>ds st'. unpack_words Npld reass_empty (gbt_words n (pack_payloads Npld vs)) = Some (ds, st') \<and>
           map unat ds = butlast vs \<and> unat (remnant st') = last vs \<and> size_gbt st' = Npld"
proof -
  define N where "N = length vs"
  have N: "0 < N" using assms(4) by (simp add: N_def)
  have K: "(NGBT * n - 1) div Npld = N - 1"
    using last_slice_count [OF assms(1) N] assms(5) by (simp add: N_def)
  obtain ds st' where run: "unpack_words Npld reass_empty (gbt_words n (pack_payloads Npld vs)) = Some (ds, st')"
    and d: "map unat ds = map (\<lambda>j. if j < N then vs ! j else 0) [0..<N - 1]"
    and r: "unat (remnant st') = drop_bit ((N - 1) * Npld) (take_bit (N * Npld) (pack_payloads Npld vs))"
    and sz: "size_gbt st' = N * Npld - (N - 1) * Npld"
    using unpack_packed [OF assms(1-3), of n] K assms(5) by (auto simp: N_def)
  have "map (\<lambda>j. if j < N then vs ! j else 0) [0..<N - 1] = butlast vs"
    by (intro nth_equalityI) (auto simp: N_def nth_butlast)
  moreover have "N * Npld - (N - 1) * Npld = Npld"
    using N by (cases N) simp_all
  moreover have "drop_bit ((N - 1) * Npld) (take_bit (N * Npld) (pack_payloads Npld vs)) = last vs"
  proof -
    have "drop_bit ((N - 1) * Npld) (take_bit (N * Npld) (pack_payloads Npld vs)) =
        chunk Npld (pack_payloads Npld vs) (N - 1)"
      using N by (cases N) (simp_all add: chunk_def drop_bit_take_bit)
    also have "\<dots> = last vs"
      using N assms(4) by (simp add: chunk_pack_payloads [OF assms(3)] N_def last_conv_nth)
    finally show ?thesis .
  qed
  ultimately show ?thesis
    using run d r sz by auto
qed

text \<open>Four 60-bit interaction-record payloads fill three words exactly; only three come out.\<close>

theorem unpack_last_payload_withheld_witness:
  "\<exists>ds st'. unpack_words NIntRecPayload reass_empty (gbt_words 3 (pack_payloads NIntRecPayload [1, 2, 3, 4])) =
       Some (ds, st') \<and> map unat ds = [1, 2, 3] \<and> unat (remnant st') = 4 \<and> size_gbt st' = NIntRecPayload"
  using unpack_last_payload_withheld [of NIntRecPayload "[1, 2, 3, 4]" 3]
  by (simp add: ctp_consts)

text \<open>
  C5 (termination). \<open>makeGBTWordInverse\<close> returns for every payload width
  \<open>0 < Npld < NGBT\<close> and every \<open>size_gbt \<le> Npld\<close>, whatever the word and the remnant.
\<close>

theorem makeGBTWordInverse_terminates:
  assumes "0 < Npld" "Npld < NGBT" "s \<le> Npld"
  shows "\<exists>res. makeGBTWordInverse ds w r s Npld = Some res"
  using gbt_loop_first [OF assms, of w r ds] assms(2,3) by (simp add: makeGBTWordInverse_def)

theorem makeGBTWordInverse_terminates_witness:
  "\<exists>res. makeGBTWordInverse [] 7 3 NClassPayload NClassPayload = Some res"
  using makeGBTWordInverse_terminates [of NClassPayload NClassPayload "[]" 7 3] by simp

end
