(* ===== verification/Lumi.thy ===== *)
theory Lumi
  imports CTPFormat
begin

text \<open>
  The luminosity integrator of \<open>RawDecoderSpec::run\<close> (lines 207--230): the frame's
  per-orbit points are summed into \<open>tfCounts\<close>, which is pushed into the sliding
  window \<open>mHistory\<close> of the last \<open>mNTFToIntegrate\<close> frames, with the running sum
  \<open>mCounts\<close> and the number of integrated orbits \<open>mNHBIntegrated\<close>; the output record
  \<open>mOutputLumiInfo\<close> is then refreshed. The process-lifetime members are a record,
  returned updated. \<open>mNTFToIntegrate\<close> is the \<open>int\<close> read by \<open>init\<close> (line 28); the
  test \<open>mHistory.size() <= mNTFToIntegrate\<close> compares as \<open>size_t\<close>, so a negative
  value reads as a huge one.
\<close>

section \<open>Records\<close>

text \<open>\<open>LumiInfo\<close> (CTP data format): orbit, number of orbits counted, counts.\<close>

record lumi_info =
  orbit :: u32
  nHBFCounted :: u32
  counts :: u64

definition lumi_info_default :: lumi_info where
  "lumi_info_default = \<lparr>orbit = 0, nHBFCounted = 0, counts = 0\<rparr>"

text \<open>The members of \<open>RawDecoderSpec\<close> the integrator keeps across frames.\<close>

record lumi_state =
  mHistory :: "u32 list"
  mCounts :: u64
  mNHBIntegrated :: u32
  mOutputLumiInfo :: lumi_info

definition lumi_state_init :: lumi_state where
  "lumi_state_init = \<lparr>mHistory = [], mCounts = 0, mNHBIntegrated = 0, mOutputLumiInfo = lumi_info_default\<rparr>"

section \<open>Operations\<close>

text \<open>The sum of the frame's points into the 32-bit \<open>tfCounts\<close> (lines 209--212).\<close>

definition tf_counts :: "lumi_info list \<Rightarrow> u32" where
  "tf_counts pts = foldl (\<lambda>acc lp. acc + ucast (counts lp)) 0 pts"

text \<open>The window update (lines 213--220); \<open>npts\<close> is \<open>lumiPointsHBF1.size()\<close>.\<close>

definition window_push :: "int \<Rightarrow> u32 \<Rightarrow> nat \<Rightarrow> lumi_state \<Rightarrow> lumi_state" where
  "window_push NTF tfCounts npts st =
    (let h = mHistory st @ [tfCounts]; c = mCounts st + ucast tfCounts
     in if (word_of_nat (length h) :: u64) \<le> word_of_int NTF
        then st\<lparr>mHistory := h, mCounts := c, mNHBIntegrated := mNHBIntegrated st + word_of_nat npts\<rparr>
        else st\<lparr>mHistory := tl h, mCounts := c - ucast (hd h)\<rparr>)"

text \<open>
  The whole end-of-frame step (lines 207--229, the verbose log aside): the last
  point of the frame is appended, the window pushed, and the output refreshed; its
  orbit only while \<open>mNHBIntegrated \<noteq> 0\<close>.
\<close>

definition lumi_finish :: "int \<Rightarrow> lumi_info list \<Rightarrow> u32 \<Rightarrow> u64 \<Rightarrow> lumi_state \<Rightarrow> lumi_state" where
  "lumi_finish NTF points orbit0 countsMB st =
    (let pts = points @ [\<lparr>orbit = orbit0, nHBFCounted = 0, counts = countsMB\<rparr>];
         st' = window_push NTF (tf_counts pts) (length pts) st;
         out = mOutputLumiInfo st';
         out' = (if mNHBIntegrated st' \<noteq> 0 then out\<lparr>orbit := orbit (hd pts)\<rparr> else out)
     in st'\<lparr>mOutputLumiInfo := out'\<lparr>counts := mCounts st', nHBFCounted := mNHBIntegrated st'\<rparr>\<rparr>)"

text \<open>Successive frames, each contributing its \<open>tfCounts\<close> and number of points.\<close>

fun window_run :: "int \<Rightarrow> (u32 \<times> nat) list \<Rightarrow> lumi_state \<Rightarrow> lumi_state" where
  "window_run NTF [] st = st"
| "window_run NTF ((x, n) # xs) st = window_run NTF xs (window_push NTF x n st)"

section \<open>Window invariants\<close>

definition window_inv :: "nat \<Rightarrow> lumi_state \<Rightarrow> bool" where
  "window_inv N st \<longleftrightarrow> length (mHistory st) \<le> N \<and>
     mCounts st = sum_list (map ucast (mHistory st))"

text \<open>For a window size below \<open>2 ^ 31\<close> (an \<open>int\<close>), the \<open>size_t\<close> comparison is the natural one.\<close>

lemma window_cmp:
  assumes "0 \<le> NTF" "NTF < 2 ^ 31" "n \<le> nat NTF + 1"
  shows "((word_of_nat n :: u64) \<le> word_of_int NTF) \<longleftrightarrow> n \<le> nat NTF"
proof -
  have n: "n < 2 ^ 64" using assms by simp
  have "word_of_int NTF = (word_of_nat (nat NTF) :: u64)"
    using assms(1) by simp
  moreover have "nat NTF < 2 ^ 64" using assms(2) by simp
  ultimately show ?thesis
    using n by (simp add: word_le_nat_alt unat_of_nat take_bit_nat_eq_self)
qed

text \<open>One push, in terms of the list: the new count is appended and, past the size, the oldest dropped.\<close>

lemma window_push_history:
  assumes "0 \<le> NTF" "NTF < 2 ^ 31" "length (mHistory st) \<le> nat NTF"
  shows "mHistory (window_push NTF x n st) = drop (length (mHistory st) + 1 - nat NTF) (mHistory st @ [x])"
proof (cases "length (mHistory st) + 1 \<le> nat NTF")
  case True
  then show ?thesis
    using window_cmp [OF assms(1,2), of "length (mHistory st) + 1"] by (simp add: window_push_def)
next
  case False
  then have "length (mHistory st) + 1 - nat NTF = 1" using assms(3) by simp
  then show ?thesis
    using False window_cmp [OF assms(1,2), of "length (mHistory st) + 1"] assms(3)
    by (cases "mHistory st") (simp_all add: window_push_def)
qed

lemma window_push_counts:
  assumes "0 \<le> NTF" "NTF < 2 ^ 31" "window_inv (nat NTF) st"
  shows "mCounts (window_push NTF x n st) = sum_list (map ucast (mHistory (window_push NTF x n st)))"
proof (cases "length (mHistory st) + 1 \<le> nat NTF")
  case True
  then show ?thesis
    using assms window_cmp [OF assms(1,2), of "length (mHistory st) + 1"]
    by (simp add: window_push_def window_inv_def)
next
  case False
  then show ?thesis
    using assms window_cmp [OF assms(1,2), of "length (mHistory st) + 1"]
    by (cases "mHistory st") (simp_all add: window_push_def window_inv_def)
qed

lemma window_push_preserves:
  assumes "0 \<le> NTF" "NTF < 2 ^ 31" "window_inv (nat NTF) st"
  shows "window_inv (nat NTF) (window_push NTF x n st)"
proof -
  have "length (mHistory st) \<le> nat NTF" using assms(3) by (simp add: window_inv_def)
  then have "length (mHistory (window_push NTF x n st)) \<le> nat NTF"
    by (simp add: window_push_history [OF assms(1,2)])
  then show ?thesis
    using window_push_counts [OF assms] by (simp add: window_inv_def)
qed

lemma window_run_history:
  assumes "0 \<le> NTF" "NTF < 2 ^ 31" "window_inv (nat NTF) st"
  shows "mHistory (window_run NTF xs st) =
    drop (length (mHistory st) + length xs - nat NTF) (mHistory st @ map fst xs) \<and>
    window_inv (nat NTF) (window_run NTF xs st)"
  using assms(3)
proof (induction xs arbitrary: st)
  case Nil
  then show ?case by (simp add: window_inv_def)
next
  case (Cons p xs)
  obtain x n where p: "p = (x, n)" by (cases p)
  define st1 where "st1 = window_push NTF x n st"
  have len: "length (mHistory st) \<le> nat NTF" using Cons.prems by (simp add: window_inv_def)
  have inv1: "window_inv (nat NTF) st1"
    using window_push_preserves [OF assms(1,2) Cons.prems] by (simp add: st1_def)
  have h1: "mHistory st1 = drop (length (mHistory st) + 1 - nat NTF) (mHistory st @ [x])"
    using window_push_history [OF assms(1,2) len] by (simp add: st1_def)
  have j: "length (mHistory st) + 1 - nat NTF \<le> length (mHistory st @ [x])"
    by simp
  have "length (mHistory st1) + length xs - nat NTF + (length (mHistory st) + 1 - nat NTF) =
      length (mHistory st) + length (p # xs) - nat NTF"
  proof -
    have "length (mHistory st1) = min (length (mHistory st) + 1) (nat NTF)"
      using len by (simp add: h1)
    then show ?thesis
      using len by (simp add: min_def add.commute)
  qed
  then have "drop (length (mHistory st1) + length xs - nat NTF) (mHistory st1 @ map fst xs) =
      drop (length (mHistory st) + length (p # xs) - nat NTF) (mHistory st @ map fst (p # xs))"
    by (simp only: h1 drop_drop_append [OF j]) (simp add: p)
  then show ?case
    using Cons.IH [OF inv1] by (simp add: p st1_def)
qed

lemma window_run_nhb:
  assumes "0 \<le> NTF" "NTF < 2 ^ 31" "length (mHistory st) \<le> nat NTF"
  shows "mNHBIntegrated (window_run NTF xs st) =
    mNHBIntegrated st + word_of_nat (sum_list (map snd (take (nat NTF - length (mHistory st)) xs)))"
  using assms(3)
proof (induction xs arbitrary: st)
  case Nil
  then show ?case by simp
next
  case (Cons p xs)
  obtain x n where p: "p = (x, n)" by (cases p)
  define st1 where "st1 = window_push NTF x n st"
  have h1: "mHistory st1 = drop (length (mHistory st) + 1 - nat NTF) (mHistory st @ [x])"
    using window_push_history [OF assms(1,2) Cons.prems] by (simp add: st1_def)
  then have len1: "length (mHistory st1) \<le> nat NTF"
    using Cons.prems by simp
  show ?case
  proof (cases "length (mHistory st) + 1 \<le> nat NTF")
    case True
    then have "mNHBIntegrated st1 = mNHBIntegrated st + word_of_nat n"
      and "length (mHistory st1) = length (mHistory st) + 1"
      using window_cmp [OF assms(1,2), of "length (mHistory st) + 1"] h1
      by (simp_all add: st1_def window_push_def)
    moreover have "nat NTF - length (mHistory st) = Suc (nat NTF - (length (mHistory st) + 1))"
      using True by simp
    ultimately show ?thesis
      using Cons.IH [OF len1] by (simp add: p st1_def)
  next
    case False
    then have "mNHBIntegrated st1 = mNHBIntegrated st" and "length (mHistory st1) = nat NTF"
      using window_cmp [OF assms(1,2), of "length (mHistory st) + 1"] h1 Cons.prems
      by (simp_all add: st1_def window_push_def Let_def)
    moreover have "nat NTF - length (mHistory st) = 0"
      using False Cons.prems by simp
    ultimately show ?thesis
      using Cons.IH [OF len1] by (simp add: p st1_def)
  qed
qed

lemma lumi_finish_fields:
  "mHistory (lumi_finish NTF points orbit0 countsMB st) =
     mHistory (window_push NTF (tf_counts (points @ [\<lparr>orbit = orbit0, nHBFCounted = 0, counts = countsMB\<rparr>]))
       (Suc (length points)) st)"
  "mCounts (lumi_finish NTF points orbit0 countsMB st) =
     mCounts (window_push NTF (tf_counts (points @ [\<lparr>orbit = orbit0, nHBFCounted = 0, counts = countsMB\<rparr>]))
       (Suc (length points)) st)"
  "counts (mOutputLumiInfo (lumi_finish NTF points orbit0 countsMB st)) = mCounts (lumi_finish NTF points orbit0 countsMB st)"
  by (simp_all add: lumi_finish_def Let_def)

section \<open>Claims on the luminosity integrator\<close>

text \<open>
  C6 (invariant). For a window size \<open>0 \<le> N < 2 ^ 31\<close>, the end-of-frame step keeps
  the window at most \<open>N\<close> frames long with \<open>mCounts\<close> the (64-bit) sum of its
  entries, and the emitted \<open>LumiInfo\<close> carries that sum.
\<close>

theorem lumi_finish_window_inv:
  assumes "0 \<le> NTF" "NTF < 2 ^ 31" "window_inv (nat NTF) st"
  shows "window_inv (nat NTF) (lumi_finish NTF points orbit0 countsMB st) \<and>
    counts (mOutputLumiInfo (lumi_finish NTF points orbit0 countsMB st)) =
      sum_list (map ucast (mHistory (lumi_finish NTF points orbit0 countsMB st)))"
  using window_push_preserves [OF assms] by (simp add: window_inv_def lumi_finish_fields)

theorem lumi_finish_window_inv_witness:
  "window_inv 90 (lumi_finish 90 [] 7 5 lumi_state_init) \<and>
    counts (mOutputLumiInfo (lumi_finish 90 [] 7 5 lumi_state_init)) =
      sum_list (map ucast (mHistory (lumi_finish 90 [] 7 5 lumi_state_init)))"
  using lumi_finish_window_inv [of 90 lumi_state_init "[]" 7 5]
  by (simp add: window_inv_def lumi_state_init_def)

text \<open>
  C7 (functional). From the initial state, after any sequence of frames the window holds
  exactly the counts of the last \<open>N\<close> frames, oldest first, and \<open>mCounts\<close> is their sum.
\<close>

theorem window_run_last:
  assumes "0 \<le> NTF" "NTF < 2 ^ 31"
  shows "mHistory (window_run NTF xs lumi_state_init) = drop (length xs - nat NTF) (map fst xs) \<and>
    mCounts (window_run NTF xs lumi_state_init) = sum_list (map ucast (drop (length xs - nat NTF) (map fst xs)))"
proof -
  have "window_inv (nat NTF) lumi_state_init"
    by (simp add: window_inv_def lumi_state_init_def)
  from window_run_history [OF assms this, of xs] show ?thesis
    by (simp add: window_inv_def lumi_state_init_def)
qed

text \<open>The spec's scenario: window size 3, frame counts 10, 20, 30, 40.\<close>

theorem window_run_last_witness:
  "mHistory (window_run 3 [(10, 1), (20, 1), (30, 1), (40, 1)] lumi_state_init) = [20, 30, 40] \<and>
    mCounts (window_run 3 [(10, 1), (20, 1), (30, 1), (40, 1)] lumi_state_init) = 90"
  using window_run_last [of 3 "[(10, 1), (20, 1), (30, 1), (40, 1)]"] by simp

text \<open>
  C8 (functional). \<open>mNHBIntegrated\<close> counts the orbits of the first \<open>N\<close> frames only:
  once the window is full it is never updated, though frames keep leaving the window.
\<close>

theorem window_run_nhb_first_frames:
  assumes "0 \<le> NTF" "NTF < 2 ^ 31"
  shows "mNHBIntegrated (window_run NTF xs lumi_state_init) = word_of_nat (sum_list (map snd (take (nat NTF) xs)))"
  using window_run_nhb [OF assms, of lumi_state_init xs] by (simp add: lumi_state_init_def)

theorem window_run_nhb_first_frames_witness:
  "mNHBIntegrated (window_run 2 [(10, 128), (20, 128), (30, 32)] lumi_state_init) = 256"
  using window_run_nhb_first_frames [of 2 "[(10, 128), (20, 128), (30, 32)]"] by simp

text \<open>
  C9 (safety). A negative window size (\<open>ntf-to-average\<close> is read as an \<open>int\<close> and
  compared as \<open>size_t\<close>) makes the window unbounded: no frame is ever evicted.
\<close>

theorem window_negative_unbounded:
  assumes "- (2 ^ 31) \<le> NTF" "NTF < 0" "length (mHistory st) < 2 ^ 32"
  shows "mHistory (window_push NTF x n st) = mHistory st @ [x]"
proof -
  have "unat (word_of_nat (length (mHistory st) + 1) :: u64) = length (mHistory st) + 1"
    by (rule unat_word_of_nat_small) (use assms(3) in simp)
  moreover have "unat (word_of_int NTF :: u64) = nat (NTF + 2 ^ 64)"
  proof -
    have "(NTF + 2 ^ 64) mod 2 ^ 64 = NTF + 2 ^ 64"
      using assms(1,2) by (intro mod_pos_pos_trivial) simp_all
    then have "NTF mod 2 ^ 64 = NTF + 2 ^ 64"
      by simp
    then show ?thesis
      by (simp add: unat_eq_nat_uint uint_word_of_int_eq take_bit_eq_mod)
  qed
  moreover have "length (mHistory st) + 1 \<le> nat (NTF + 2 ^ 64)"
    using assms by simp
  ultimately have "(word_of_nat (length (mHistory st) + 1) :: u64) \<le> word_of_int NTF"
    by (simp add: word_le_nat_alt)
  then show ?thesis
    by (simp add: window_push_def)
qed

theorem window_negative_unbounded_witness:
  "mHistory (window_push (- 1) 7 1 lumi_state_init) = [7]"
  using window_negative_unbounded [of "- 1" lumi_state_init 7 1] by (simp add: lumi_state_init_def)

text \<open>
  C10 (functional). With a window size of 0 every frame is evicted at once: the emitted
  \<open>LumiInfo\<close> always counts 0 in 0 orbits and keeps its old orbit (the quirk of the spec's
  section 4.5, which the spec flags as suspect).
\<close>

theorem lumi_finish_zero_window:
  assumes "mHistory st = []" "mCounts st = 0" "mNHBIntegrated st = 0"
  shows "orbit (mOutputLumiInfo (lumi_finish 0 points orbit0 countsMB st)) = orbit (mOutputLumiInfo st) \<and>
    counts (mOutputLumiInfo (lumi_finish 0 points orbit0 countsMB st)) = 0 \<and>
    nHBFCounted (mOutputLumiInfo (lumi_finish 0 points orbit0 countsMB st)) = 0 \<and>
    mHistory (lumi_finish 0 points orbit0 countsMB st) = []"
  using assms by (simp add: lumi_finish_def window_push_def Let_def)

theorem lumi_finish_zero_window_witness:
  "orbit (mOutputLumiInfo (lumi_finish 0 [] 9 4 lumi_state_init)) = 0 \<and>
    counts (mOutputLumiInfo (lumi_finish 0 [] 9 4 lumi_state_init)) = 0 \<and>
    nHBFCounted (mOutputLumiInfo (lumi_finish 0 [] 9 4 lumi_state_init)) = 0 \<and>
    mHistory (lumi_finish 0 [] 9 4 lumi_state_init) = []"
  using lumi_finish_zero_window [of lumi_state_init "[]" 9 4]
  by (simp add: lumi_state_init_def lumi_info_default_def)

end
