(* ===== verification/Digits.thy ===== *)
theory Digits
  imports CTPFormat
begin

text \<open>
  The digit aggregator of \<open>RawDecoderSpec::run\<close>: the payload mask \<open>pldmask\<close> built
  per page (lines 101--104) and the body of the loop over the diglets of a GBT word
  (lines 135--190), which counts minimum-bias triggers for the luminosity and merges
  each non-empty payload into the map \<open>digits\<close> from interaction record to CTP digit,
  first writer wins. The map is \<open>std::map\<close>; its keys are ordered by orbit, then
  bunch crossing. \<open>LOG(error)\<close> diagnostics are kept as a list of values, and the
  \<open>LOG(debug)\<close> of line 158, whose argument \<open>digits[ir]\<close> inserts a default digit
  when debug logging is enabled, is modelled with the flag \<open>log_debug\<close>.
\<close>

unbundle bit_operations_syntax

section \<open>Data\<close>

text \<open>\<open>o2::InteractionRecord\<close>: orbit and bunch crossing; its default value is the dummy record.\<close>

datatype interaction_record = IR (ir_orbit: u32) (ir_bc: u16)

instantiation interaction_record :: linorder
begin

definition less_eq_interaction_record :: "interaction_record \<Rightarrow> interaction_record \<Rightarrow> bool" where
  "less_eq_interaction_record a b \<longleftrightarrow>
     ir_orbit a < ir_orbit b \<or> (ir_orbit a = ir_orbit b \<and> ir_bc a \<le> ir_bc b)"

definition less_interaction_record :: "interaction_record \<Rightarrow> interaction_record \<Rightarrow> bool" where
  "less_interaction_record a b \<longleftrightarrow>
     ir_orbit a < ir_orbit b \<or> (ir_orbit a = ir_orbit b \<and> ir_bc a < ir_bc b)"

instance
proof
  fix a b c :: interaction_record
  show "a < b \<longleftrightarrow> a \<le> b \<and> \<not> b \<le> a"
    by (auto simp: less_eq_interaction_record_def less_interaction_record_def)
  show "a \<le> a"
    by (simp add: less_eq_interaction_record_def)
  show "a \<le> b \<Longrightarrow> b \<le> c \<Longrightarrow> a \<le> c"
    by (auto simp: less_eq_interaction_record_def)
  show "a \<le> b \<Longrightarrow> b \<le> a \<Longrightarrow> a = b"
    by (cases a, cases b) (auto simp: less_eq_interaction_record_def)
  show "a \<le> b \<or> b \<le> a"
    by (auto simp: less_eq_interaction_record_def)
qed

end

definition ir_default :: interaction_record where
  "ir_default = IR 0xFFFFFFFF 0xFFFF"

text \<open>\<open>o2::ctp::CTPDigit\<close>: 48 inputs and 64 classes.\<close>

record ctp_digit =
  intRecord :: interaction_record
  CTPInputMask :: "48 word"
  CTPClassMask :: "64 word"

definition ctp_digit_default :: ctp_digit where
  "ctp_digit_default = \<lparr>intRecord = ir_default, CTPInputMask = 0, CTPClassMask = 0\<rparr>"

text \<open>\<open>CTPDigit::setInputMask\<close> and \<open>setClassMask\<close> copy the low bits of the payload.\<close>

definition setInputMask :: "ctp_digit \<Rightarrow> gbtword80 \<Rightarrow> ctp_digit" where
  "setInputMask d pld = d\<lparr>CTPInputMask := ucast pld\<rparr>"

definition setClassMask :: "ctp_digit \<Rightarrow> gbtword80 \<Rightarrow> ctp_digit" where
  "setClassMask d pld = d\<lparr>CTPClassMask := ucast pld\<rparr>"

text \<open>The configuration of the decoder (members set by the constructor and \<open>init\<close>).\<close>

record decoder_cfg =
  mDoDigits :: bool
  mDoLumi :: bool
  mNTFToIntegrate :: int
  mVerbose :: bool
  mTVXMask :: gbtword80
  log_debug :: bool

text \<open>The \<open>LOG(error)\<close> diagnostics of the decoder.\<close>

datatype diag =
    UnexpectedLink nat
  | DupInputMask interaction_record
  | DupClassMask interaction_record

section \<open>Operations\<close>

text \<open>
  \<open>pldmask\<close>: bits \<open>12 .. 12 + payloadCTP - 1\<close> set one by one (lines 101--104). For
  class records (\<open>payloadCTP = 76\<close>) the loop also writes bits 80--87, past the end of
  the \<open>std::bitset<80>\<close>; \<open>operator[]\<close> out of range is undefined behaviour. Unlike
  the wrapped subtraction of \<open>makeGBTWordInverse\<close>, which corrupts the loop's
  arithmetic, these writes affect no value the decoder reads: the only use of
  \<open>pldmask\<close> is \<open>diglet & pldmask\<close>, and a diglet has no bit at or above 80. The
  model therefore drops them (\<open>set_bit\<close> past the word length is the identity) instead
  of making every class page undefined; the finding on line 103 records the overrun.
\<close>

definition mk_pldmask :: "nat \<Rightarrow> gbtword80" where
  "mk_pldmask payloadCTP = fold (\<lambda>i m. set_bit (12 + i) m) [0..<payloadCTP] 0"

record agg_state =
  countsMB :: u64
  digits :: "interaction_record \<Rightarrow> ctp_digit option"
  diags :: "diag list"

text \<open>Lines 136--141: a minimum-bias trigger of an interaction-record payload.\<close>

definition count_mb :: "decoder_cfg \<Rightarrow> nat \<Rightarrow> agg_state \<Rightarrow> gbtword80 \<Rightarrow> agg_state" where
  "count_mb cfg payloadCTP st diglet =
    (if mDoLumi cfg \<and> payloadCTP = NIntRecPayload \<and> (diglet AND mTVXMask cfg) \<noteq> 0
     then st\<lparr>countsMB := countsMB st + 1\<rparr> else st)"

text \<open>Lines 157--172: an interaction-record payload; line 158 first, then first writer wins.\<close>

definition merge_input :: "decoder_cfg \<Rightarrow> interaction_record \<Rightarrow> gbtword80 \<Rightarrow> agg_state \<Rightarrow> agg_state" where
  "merge_input cfg ir pld st =
    (let ds = (if log_debug cfg \<and> digits st ir = None then (digits st)(ir \<mapsto> ctp_digit_default) else digits st)
     in case ds ir of
          None \<Rightarrow> st\<lparr>digits := ds(ir \<mapsto> setInputMask (ctp_digit_default\<lparr>intRecord := ir\<rparr>) pld)\<rparr>
        | Some d \<Rightarrow>
            if CTPInputMask d = 0 then st\<lparr>digits := ds(ir \<mapsto> setInputMask d pld)\<rparr>
            else st\<lparr>digits := ds, diags := diags st @ [DupInputMask ir]\<rparr>)"

text \<open>Lines 173--186: a trigger-class payload.\<close>

definition merge_class :: "interaction_record \<Rightarrow> gbtword80 \<Rightarrow> agg_state \<Rightarrow> agg_state" where
  "merge_class ir pld st =
    (case digits st ir of
       None \<Rightarrow> st\<lparr>digits := (digits st)(ir \<mapsto> setClassMask (ctp_digit_default\<lparr>intRecord := ir\<rparr>) pld)\<rparr>
     | Some d \<Rightarrow>
         if CTPClassMask d = 0 then st\<lparr>digits := (digits st)(ir \<mapsto> setClassMask d pld)\<rparr>
         else st\<lparr>diags := diags st @ [DupClassMask ir]\<rparr>)"

text \<open>The interaction record of a diglet: the page's orbit and the low 12 bits (lines 152--155).\<close>

definition diglet_ir :: "u32 \<Rightarrow> gbtword80 \<Rightarrow> interaction_record" where
  "diglet_ir triggerOrbit diglet = IR triggerOrbit (ucast (diglet AND 0xFFF))"

text \<open>The loop body over one diglet (lines 135--190).\<close>

definition process_diglet ::
  "decoder_cfg \<Rightarrow> nat \<Rightarrow> nat \<Rightarrow> gbtword80 \<Rightarrow> u32 \<Rightarrow> agg_state \<Rightarrow> gbtword80 \<Rightarrow> agg_state" where
  "process_diglet cfg linkCRU payloadCTP pldmask triggerOrbit st diglet =
    (let st1 = count_mb cfg payloadCTP st diglet; pld = diglet AND pldmask
     in if \<not> mDoDigits cfg \<or> pld = 0 then st1
        else
          (let ir = diglet_ir triggerOrbit diglet; pld' = drop_bit 12 pld
           in if linkCRU = GBTLinkIDIntRec then merge_input cfg ir pld' st1
              else if linkCRU = GBTLinkIDClassRec then merge_class ir pld' st1
              else st1\<lparr>diags := diags st1 @ [UnexpectedLink linkCRU]\<rparr>))"

text \<open>All diglets of one word, in order.\<close>

definition process_diglets ::
  "decoder_cfg \<Rightarrow> nat \<Rightarrow> nat \<Rightarrow> gbtword80 \<Rightarrow> u32 \<Rightarrow> agg_state \<Rightarrow> gbtword80 list \<Rightarrow> agg_state" where
  "process_diglets cfg linkCRU payloadCTP pldmask triggerOrbit st ds =
    foldl (process_diglet cfg linkCRU payloadCTP pldmask triggerOrbit) st ds"

text \<open>The digit output (lines 200--203): the map's values in key order.\<close>

definition digits_out :: "(interaction_record \<Rightarrow> ctp_digit option) \<Rightarrow> ctp_digit list" where
  "digits_out m = map (\<lambda>k. the (m k)) (sorted_list_of_set (dom m))"

section \<open>Lemmas\<close>

definition digits_keyed :: "(interaction_record \<Rightarrow> ctp_digit option) \<Rightarrow> bool" where
  "digits_keyed m \<longleftrightarrow> (\<forall>ir d. m ir = Some d \<longrightarrow> intRecord d = ir)"

lemma mk_pldmask_eq: "mk_pldmask n = push_bit 12 (mask n)"
proof (induction n)
  case 0
  then show ?case by (simp add: mk_pldmask_def)
next
  case (Suc n)
  have "mk_pldmask (Suc n) = set_bit (12 + n) (mk_pldmask n)"
    by (simp add: mk_pldmask_def)
  also have "\<dots> = push_bit 12 (mask (Suc n))"
    unfolding Suc.IH by (rule bit_word_eqI) (auto simp: bit_simps)
  finally show ?case .
qed

lemma count_mb_fields [simp]:
  "digits (count_mb cfg p st d) = digits st"
  "diags (count_mb cfg p st d) = diags st"
  by (simp_all add: count_mb_def)

lemma merge_input_keyed:
  assumes "\<not> log_debug cfg" "digits_keyed (digits st)"
  shows "digits_keyed (digits (merge_input cfg ir pld st))"
proof (cases "digits st ir")
  case None
  then show ?thesis
    using assms by (simp add: merge_input_def digits_keyed_def setInputMask_def)
next
  case (Some d)
  then show ?thesis
    using assms by (auto simp: merge_input_def digits_keyed_def setInputMask_def Let_def)
qed

lemma merge_class_keyed:
  assumes "digits_keyed (digits st)"
  shows "digits_keyed (digits (merge_class ir pld st))"
  using assms by (auto simp: merge_class_def digits_keyed_def setClassMask_def split: option.splits)

lemma process_diglet_cases:
  "process_diglet cfg linkCRU payloadCTP pldmask triggerOrbit st diglet =
    (if \<not> mDoDigits cfg \<or> (diglet AND pldmask) = 0 then count_mb cfg payloadCTP st diglet
     else if linkCRU = GBTLinkIDIntRec
       then merge_input cfg (diglet_ir triggerOrbit diglet) (drop_bit 12 (diglet AND pldmask)) (count_mb cfg payloadCTP st diglet)
     else if linkCRU = GBTLinkIDClassRec
       then merge_class (diglet_ir triggerOrbit diglet) (drop_bit 12 (diglet AND pldmask)) (count_mb cfg payloadCTP st diglet)
     else (count_mb cfg payloadCTP st diglet)\<lparr>diags := diags st @ [UnexpectedLink linkCRU]\<rparr>)"
  by (simp add: process_diglet_def Let_def)

lemma process_diglet_dom:
  "dom (digits (process_diglet cfg linkCRU payloadCTP pldmask orb st diglet)) \<subseteq>
     insert (diglet_ir orb diglet) (dom (digits st))"
  by (auto simp: process_diglet_cases merge_input_def merge_class_def Let_def split: option.splits if_splits)

text \<open>The map is well formed: finite, and every digit stored under its own record.\<close>

definition digits_ok :: "(interaction_record \<Rightarrow> ctp_digit option) \<Rightarrow> bool" where
  "digits_ok m \<longleftrightarrow> finite (dom m) \<and> digits_keyed m"

lemma process_diglets_ok:
  assumes "\<not> log_debug cfg" "digits_ok (digits st)"
  shows "digits_ok (digits (process_diglets cfg linkCRU payloadCTP pldmask orb st ds))"
  using assms(2) unfolding process_diglets_def
proof (induction ds arbitrary: st)
  case Nil
  then show ?case by simp
next
  case (Cons x ds)
  have "digits_keyed (digits (process_diglet cfg linkCRU payloadCTP pldmask orb st x))"
    using Cons.prems merge_input_keyed [OF assms(1)] merge_class_keyed
    by (simp add: digits_ok_def process_diglet_cases)
  moreover have "finite (dom (digits (process_diglet cfg linkCRU payloadCTP pldmask orb st x)))"
    using Cons.prems finite_subset [OF process_diglet_dom] by (simp add: digits_ok_def)
  ultimately show ?case
    using Cons.IH by (simp add: digits_ok_def)
qed

lemma digits_out_keys:
  assumes "digits_ok m"
  shows "map intRecord (digits_out m) = sorted_list_of_set (dom m)"
  using assms by (auto simp: digits_out_def digits_ok_def digits_keyed_def intro!: map_idI)

section \<open>Claims on the digit aggregator\<close>

text \<open>
  C11 (invariant). With debug logging off, every digit of the map is stored under its
  own interaction record, whatever diglet is processed.
\<close>

theorem process_diglet_keyed:
  assumes "\<not> log_debug cfg" "digits_keyed (digits st)"
  shows "digits_keyed (digits (process_diglet cfg linkCRU payloadCTP pldmask triggerOrbit st diglet))"
  using assms merge_input_keyed [OF assms(1)] merge_class_keyed
  by (simp add: process_diglet_cases)

theorem process_diglet_keyed_witness:
  "digits_keyed (digits (process_diglet \<lparr>mDoDigits = True, mDoLumi = True, mNTFToIntegrate = 90,
       mVerbose = False, mTVXMask = 4, log_debug = False\<rparr> 0 NIntRecPayload (mk_pldmask NIntRecPayload) 7
     \<lparr>countsMB = 0, digits = Map.empty, diags = []\<rparr> 0x1005))"
  using process_diglet_keyed [of "\<lparr>mDoDigits = True, mDoLumi = True, mNTFToIntegrate = 90,
       mVerbose = False, mTVXMask = 4, log_debug = False\<rparr>" "\<lparr>countsMB = 0, digits = Map.empty, diags = []\<rparr>"
       0 NIntRecPayload "mk_pldmask NIntRecPayload" 7 "0x1005"]
  by (simp add: digits_keyed_def)

text \<open>
  C12 (functional). Two interaction-record payloads with the same timestamp: the first
  creates the digit, the second is dropped with a diagnostic and leaves the first value
  (first writer wins); no other timestamp is touched.
\<close>

theorem first_writer_wins:
  fixes payloadCTP :: nat
  assumes "\<not> log_debug cfg" "mDoDigits cfg" "linkCRU = GBTLinkIDIntRec"
    and "digits st (diglet_ir orb d1) = None" "diglet_ir orb d2 = diglet_ir orb d1"
    and "(d1 AND pldmask) \<noteq> 0" "(d2 AND pldmask) \<noteq> 0"
    and "(ucast (drop_bit 12 (d1 AND pldmask)) :: 48 word) \<noteq> 0"
  defines "ir \<equiv> diglet_ir orb d1"
  defines "st' \<equiv> process_diglets cfg linkCRU payloadCTP pldmask orb st [d1, d2]"
  shows "digits st' ir = Some (setInputMask (ctp_digit_default\<lparr>intRecord := ir\<rparr>) (drop_bit 12 (d1 AND pldmask))) \<and>
    diags st' = diags st @ [DupInputMask ir] \<and> (\<forall>k. k \<noteq> ir \<longrightarrow> digits st' k = digits st k)"
  using assms(1-8)
  by (auto simp: st'_def ir_def process_diglets_def process_diglet_cases merge_input_def
      setInputMask_def Let_def)

theorem first_writer_wins_witness:
  "digits (process_diglets \<lparr>mDoDigits = True, mDoLumi = False, mNTFToIntegrate = 90,
       mVerbose = False, mTVXMask = 4, log_debug = False\<rparr> 0 NIntRecPayload (mk_pldmask NIntRecPayload) 7
       \<lparr>countsMB = 0, digits = Map.empty, diags = []\<rparr> [0x1005, 0x2005]) (IR 7 5) =
     Some \<lparr>intRecord = IR 7 5, CTPInputMask = 1, CTPClassMask = 0\<rparr> \<and>
   diags (process_diglets \<lparr>mDoDigits = True, mDoLumi = False, mNTFToIntegrate = 90,
       mVerbose = False, mTVXMask = 4, log_debug = False\<rparr> 0 NIntRecPayload (mk_pldmask NIntRecPayload) 7
       \<lparr>countsMB = 0, digits = Map.empty, diags = []\<rparr> [0x1005, 0x2005]) = [DupInputMask (IR 7 5)]"
  using first_writer_wins [of "\<lparr>mDoDigits = True, mDoLumi = False, mNTFToIntegrate = 90,
       mVerbose = False, mTVXMask = 4, log_debug = False\<rparr>" 0 "\<lparr>countsMB = 0, digits = Map.empty, diags = []\<rparr>"
       7 "0x1005" "0x2005" "mk_pldmask NIntRecPayload" NIntRecPayload]
  by (simp add: diglet_ir_def mk_pldmask_eq mask_eq_exp_minus_1 ctp_consts setInputMask_def ctp_digit_default_def)

text \<open>C13 (functional). A diglet whose payload bits are all zero neither creates nor changes a digit, and reports nothing.\<close>

theorem zero_payload_no_change:
  assumes "(diglet AND pldmask) = 0"
  shows "digits (process_diglet cfg linkCRU payloadCTP pldmask orb st diglet) = digits st \<and>
    diags (process_diglet cfg linkCRU payloadCTP pldmask orb st diglet) = diags st"
  using assms by (simp add: process_diglet_cases)

theorem zero_payload_no_change_witness:
  "digits (process_diglet \<lparr>mDoDigits = True, mDoLumi = True, mNTFToIntegrate = 90,
       mVerbose = False, mTVXMask = 4, log_debug = False\<rparr> 0 NIntRecPayload (mk_pldmask NIntRecPayload) 7
       \<lparr>countsMB = 0, digits = Map.empty, diags = []\<rparr> 0x5) = Map.empty \<and>
   diags (process_diglet \<lparr>mDoDigits = True, mDoLumi = True, mNTFToIntegrate = 90,
       mVerbose = False, mTVXMask = 4, log_debug = False\<rparr> 0 NIntRecPayload (mk_pldmask NIntRecPayload) 7
       \<lparr>countsMB = 0, digits = Map.empty, diags = []\<rparr> 0x5) = []"
  using zero_payload_no_change [of "0x5" "mk_pldmask NIntRecPayload"] by (simp add: mk_pldmask_eq mask_eq_exp_minus_1 ctp_consts)

text \<open>
  C14 (functional). With debug logging on, the first interaction-record payload of a
  timestamp is stored in the digit that the \<open>LOG(debug)\<close> argument \<open>digits[ir]\<close>
  default-constructed, so the digit carries the dummy interaction record, not its own.
\<close>

theorem debug_log_default_ir:
  assumes "log_debug cfg" "mDoDigits cfg" "linkCRU = GBTLinkIDIntRec"
    and "digits st (diglet_ir orb diglet) = None" "(diglet AND pldmask) \<noteq> 0"
  shows "\<exists>d. digits (process_diglet cfg linkCRU payloadCTP pldmask orb st diglet) (diglet_ir orb diglet) = Some d \<and>
    intRecord d = ir_default"
  using assms by (simp add: process_diglet_cases merge_input_def setInputMask_def ctp_digit_default_def)

theorem debug_log_default_ir_witness:
  "\<exists>d. digits (process_diglet \<lparr>mDoDigits = True, mDoLumi = True, mNTFToIntegrate = 90,
       mVerbose = False, mTVXMask = 4, log_debug = True\<rparr> 0 NIntRecPayload (mk_pldmask NIntRecPayload) 7
       \<lparr>countsMB = 0, digits = Map.empty, diags = []\<rparr> 0x1005) (IR 7 5) = Some d \<and> intRecord d = ir_default"
  using debug_log_default_ir [of "\<lparr>mDoDigits = True, mDoLumi = True, mNTFToIntegrate = 90,
       mVerbose = False, mTVXMask = 4, log_debug = True\<rparr>" 0 "\<lparr>countsMB = 0, digits = Map.empty, diags = []\<rparr>"
       7 "0x1005" "mk_pldmask NIntRecPayload" NIntRecPayload]
  by (simp add: diglet_ir_def mk_pldmask_eq mask_eq_exp_minus_1 ctp_consts)

text \<open>
  C15 (equivalence). The bit-by-bit construction of \<open>pldmask\<close> followed by the shift
  \<open>pld >>= 12\<close> extracts exactly the \<open>payloadCTP\<close> bits above the bunch-crossing field
  (truncated at bit 80 of the bitset).
\<close>

theorem pldmask_extracts: "drop_bit 12 (diglet AND mk_pldmask n) = take_bit n (drop_bit 12 diglet)"
  by (rule bit_word_eqI) (auto simp: mk_pldmask_eq bit_simps dest: bit_imp_le_length)

text \<open>
  C16 (functional). With debug logging off, an interaction-record payload and a
  trigger-class payload with the same timestamp end in one digit carrying both masks,
  whichever of the two pages is decoded first, and neither order reports a duplicate.
\<close>

theorem input_class_merge_order:
  assumes "\<not> log_debug cfg" "mDoDigits cfg" "digits st (diglet_ir orb d1) = None"
    and "diglet_ir orb d2 = diglet_ir orb d1" "(d1 AND m1) \<noteq> 0" "(d2 AND m2) \<noteq> 0"
  defines "ir \<equiv> diglet_ir orb d1"
  defines "dig \<equiv> \<lparr>intRecord = ir, CTPInputMask = ucast (drop_bit 12 (d1 AND m1)),
                   CTPClassMask = ucast (drop_bit 12 (d2 AND m2))\<rparr>"
  shows "digits (process_diglet cfg GBTLinkIDClassRec p2 m2 orb (process_diglet cfg GBTLinkIDIntRec p1 m1 orb st d1) d2) ir = Some dig \<and>
    digits (process_diglet cfg GBTLinkIDIntRec p1 m1 orb (process_diglet cfg GBTLinkIDClassRec p2 m2 orb st d2) d1) ir = Some dig \<and>
    diags (process_diglet cfg GBTLinkIDClassRec p2 m2 orb (process_diglet cfg GBTLinkIDIntRec p1 m1 orb st d1) d2) = diags st \<and>
    diags (process_diglet cfg GBTLinkIDIntRec p1 m1 orb (process_diglet cfg GBTLinkIDClassRec p2 m2 orb st d2) d1) = diags st"
  using assms(1-6) unfolding ir_def dig_def
  by (simp add: process_diglet_cases merge_input_def merge_class_def setInputMask_def setClassMask_def
      ctp_digit_default_def ctp_consts)

theorem input_class_merge_order_witness:
  "digits (process_diglet \<lparr>mDoDigits = True, mDoLumi = False, mNTFToIntegrate = 90, mVerbose = False,
       mTVXMask = 4, log_debug = False\<rparr> GBTLinkIDClassRec NClassPayload (mk_pldmask NClassPayload) 7
     (process_diglet \<lparr>mDoDigits = True, mDoLumi = False, mNTFToIntegrate = 90, mVerbose = False,
       mTVXMask = 4, log_debug = False\<rparr> GBTLinkIDIntRec NIntRecPayload (mk_pldmask NIntRecPayload) 7
       \<lparr>countsMB = 0, digits = Map.empty, diags = []\<rparr> 0x1005) 0x3005) (IR 7 5) =
     Some \<lparr>intRecord = IR 7 5, CTPInputMask = 1, CTPClassMask = 3\<rparr> \<and>
   digits (process_diglet \<lparr>mDoDigits = True, mDoLumi = False, mNTFToIntegrate = 90, mVerbose = False,
       mTVXMask = 4, log_debug = False\<rparr> GBTLinkIDIntRec NIntRecPayload (mk_pldmask NIntRecPayload) 7
     (process_diglet \<lparr>mDoDigits = True, mDoLumi = False, mNTFToIntegrate = 90, mVerbose = False,
       mTVXMask = 4, log_debug = False\<rparr> GBTLinkIDClassRec NClassPayload (mk_pldmask NClassPayload) 7
       \<lparr>countsMB = 0, digits = Map.empty, diags = []\<rparr> 0x3005) 0x1005) (IR 7 5) =
     Some \<lparr>intRecord = IR 7 5, CTPInputMask = 1, CTPClassMask = 3\<rparr>"
  using input_class_merge_order [of "\<lparr>mDoDigits = True, mDoLumi = False, mNTFToIntegrate = 90, mVerbose = False,
       mTVXMask = 4, log_debug = False\<rparr>" "\<lparr>countsMB = 0, digits = Map.empty, diags = []\<rparr>" 7 "0x1005" "0x3005"
      "mk_pldmask NIntRecPayload" "mk_pldmask NClassPayload" NClassPayload NIntRecPayload]
  by (simp add: diglet_ir_def mk_pldmask_eq mask_eq_exp_minus_1 ctp_consts)

end
