(* ===== verification/Reassembler.thy ===== *)
theory Reassembler
  imports CTPFormat
begin

text \<open>
  The byte reassembler of \<open>RawDecoderSpec::run\<close> (lines 107--130 and 191--197): the
  bytes of a page are read with a counter \<open>wordCount\<close> that runs through a period of
  16; bytes 0--9 of each period are written, bit by bit, into the 80-bit \<open>gbtWord\<close>,
  the tenth completes the word, and bytes 10--15 are padding. Here the word handed to
  the unpacker is an output; \<open>Decoder\<close> runs the same loop with the unpacker and the
  aggregator called at the tenth byte, and shows that it agrees with this one.
\<close>

unbundle bit_operations_syntax

section \<open>Operations\<close>

text \<open>
  One byte written into the word (lines 127--129 and 193--195):
  \<open>gbtWord[wordCount * 8 + i] = bool(int(payloadWord) & (1 << i))\<close> for \<open>i < 8\<close>.
\<close>

definition assign_bit :: "gbtword80 \<Rightarrow> nat \<Rightarrow> bool \<Rightarrow> gbtword80" where
  "assign_bit w n v = (if v then set_bit n w else unset_bit n w)"

definition put_byte :: "gbtword80 \<Rightarrow> nat \<Rightarrow> u8 \<Rightarrow> gbtword80" where
  "put_byte w k b = fold (\<lambda>i acc. assign_bit acc (k * 8 + i) (bit b i)) [0..<8] w"

text \<open>
  The counter step of one byte (lines 122--197) and the words a page yields: the
  state is \<open>(wordCount, gbtWord)\<close>, reset to \<open>(0, 0)\<close> at the start of each page.
\<close>

fun assemble :: "nat \<Rightarrow> gbtword80 \<Rightarrow> u8 list \<Rightarrow> gbtword80 list" where
  "assemble wc w [] = []"
| "assemble wc w (b # bs) =
    (if wc = 15 then assemble 0 w bs
     else if 9 < wc then assemble (wc + 1) w bs
     else if wc = 9 then put_byte w 9 b # assemble 10 0 bs
     else assemble (wc + 1) (put_byte w wc b) bs)"

text \<open>The layout the firmware sends: the ten bytes of a word, low byte first, then six padding bytes.\<close>

definition word_bytes :: "gbtword80 \<Rightarrow> u8 list" where
  "word_bytes w = map (\<lambda>k. ucast (drop_bit (k * 8) w)) [0..<10]"

definition envelope :: "gbtword80 \<Rightarrow> u8 list \<Rightarrow> u8 list" where
  "envelope w pad = word_bytes w @ pad"

section \<open>Lemmas\<close>

lemma bit_assign_bit:
  "bit (assign_bit w m v) n \<longleftrightarrow> (if n = m then v \<and> n < 80 else bit w n)"
  by (auto simp: assign_bit_def bit_simps dest: bit_imp_le_length)

lemma bit_fold_assign:
  "bit (fold (\<lambda>i acc. assign_bit acc (k * 8 + i) (bit b i)) [0..<j] w) n \<longleftrightarrow>
    (if k * 8 \<le> n \<and> n < k * 8 + j then bit b (n - k * 8) \<and> n < 80 else bit w n)"
  by (induction j arbitrary: w) (auto simp: bit_assign_bit)

lemma bit_put_byte:
  "bit (put_byte w k b) n \<longleftrightarrow>
    (if k * 8 \<le> n \<and> n < k * 8 + 8 then bit b (n - k * 8) \<and> n < 80 else bit w n)"
  by (simp add: put_byte_def bit_fold_assign)


text \<open>The word after its first \<open>j\<close> bytes have been written into a cleared word.\<close>

definition fill :: "gbtword80 \<Rightarrow> nat \<Rightarrow> gbtword80" where
  "fill w j = fold (\<lambda>k acc. put_byte acc k (ucast (drop_bit (k * 8) w))) [0..<j] 0"

lemma bit_fill: "bit (fill w j) n \<longleftrightarrow> n < j * 8 \<and> bit w n"
proof (induction j)
  case 0
  then show ?case by (simp add: fill_def)
next
  case (Suc j)
  have "fill w (Suc j) = put_byte (fill w j) j (ucast (drop_bit (j * 8) w))"
    by (simp add: fill_def)
  then show ?case
    using Suc.IH by (auto simp: bit_put_byte bit_simps dest: bit_imp_le_length)
qed

lemma fill_10: "fill w 10 = w"
  by (rule bit_word_eqI) (simp add: bit_fill)

lemma assemble_envelope:
  assumes "length pad = 6"
  shows "assemble 0 0 (envelope w pad @ rest) = w # assemble 0 0 rest"
proof -
  obtain p0 p1 p2 p3 p4 p5 where pad: "pad = [p0, p1, p2, p3, p4, p5]"
    using assms by (auto simp: length_Suc_conv numeral_eq_Suc)
  have u: "[0..<10] = [0::nat, 1, 2, 3, 4, 5, 6, 7, 8, 9]"
    by (simp add: upt_rec)
  have "assemble 0 0 (envelope w pad @ rest) = fill w 10 # assemble 0 0 rest"
    by (simp add: pad envelope_def word_bytes_def fill_def u) (simp add: numeral_eq_Suc)
  then show ?thesis by (simp add: fill_10)
qed

lemma assemble_length:
  assumes "wc \<le> 15"
  shows "length (assemble wc w bs) = (length bs + (wc + 6) mod 16) div 16"
  using assms
proof (induction bs arbitrary: wc w)
  case Nil
  then show ?case by simp
next
  case (Cons b bs)
  consider "wc = 15" | "9 < wc" "wc < 15" | "wc = 9" | "wc < 9"
    using Cons.prems by linarith
  then show ?case
  proof cases
    case 1
    then show ?thesis using Cons.IH [of 0] by simp
  next
    case 2
    then have "(wc + 1 + 6) mod 16 = (wc + 6) mod 16 + 1" by (simp add: mod_if) arith
    then show ?thesis using 2 Cons.IH [of "wc + 1"] by simp
  next
    case 3
    then show ?thesis using Cons.IH [of 10] by simp
  next
    case 4
    then show ?thesis using Cons.IH [of "wc + 1"] by simp
  qed
qed

lemma assemble_envelopes:
  assumes "length pad = 6"
  shows "assemble 0 0 (concat (map (\<lambda>w. envelope w pad) ws)) = ws"
  using assms by (induction ws) (simp_all add: assemble_envelope)

lemma assemble_nonempty:
  assumes "wc \<le> 9" "10 - wc \<le> length bs"
  shows "assemble wc w bs \<noteq> []"
  using assms
proof (induction bs arbitrary: wc w)
  case Nil
  then show ?case by simp
next
  case (Cons b bs)
  then show ?case
    by (cases "wc = 9") (simp_all add: Cons.IH)
qed

section \<open>Claims on the byte reassembler\<close>

text \<open>
  C17 (round trip). A page made of GBT words, each sent as its ten bytes, low byte
  first, followed by six padding bytes of any value, is reassembled into exactly those
  words, in order.
\<close>

theorem assemble_roundtrip:
  assumes "\<forall>(w, pad) \<in> set wps. length pad = 6"
  shows "assemble 0 0 (concat (map (\<lambda>(w, pad). envelope w pad) wps)) = map fst wps"
  using assms by (induction wps) (auto simp: assemble_envelope)

theorem assemble_roundtrip_witness:
  "assemble 0 0 (concat (map (\<lambda>(w, pad). envelope w pad) [(0x0102030405060708090A, [0, 0, 0, 0, 0, 0]),
       (7, [255, 255, 255, 255, 255, 255])])) = [0x0102030405060708090A, 7]"
  using assemble_roundtrip [of "[(0x0102030405060708090A, [0, 0, 0, 0, 0, 0]), (7, [255, 255, 255, 255, 255, 255])]"]
  by simp

text \<open>
  C18 (bounds). From any counter value \<open>wordCount \<le> 15\<close>, a run of \<open>L\<close> bytes
  completes \<open>(L + (wordCount + 6) mod 16) div 16\<close> words: one per byte that meets
  the counter at 9. A page starts at \<open>wordCount = 0\<close> (line 109) and so yields
  \<open>(L + 6) div 16\<close> words, the last one as soon as its ten live bytes are there.
\<close>

theorem assemble_count:
  assumes "wc \<le> 15"
  shows "length (assemble wc w bs) = (length bs + (wc + 6) mod 16) div 16"
  using assemble_length [OF assms] .

theorem assemble_count_witness:
  "length (assemble 0 0 (replicate 32 0)) = 2 \<and> length (assemble 0 0 (replicate 26 0)) = 2 \<and>
   length (assemble 12 0 (replicate 14 0)) = 1"
  using assemble_count [of 0 0 "replicate 32 0"] assemble_count [of 0 0 "replicate 26 0"]
    assemble_count [of 12 0 "replicate 14 0"]
  by simp

text \<open>
  C19 (equivalence). Writing a byte bit by bit at \<open>wordCount \<le> 9\<close> replaces exactly byte
  \<open>wordCount\<close> of the word: it is a masked \<open>OR\<close> of the byte shifted into place.
\<close>

theorem put_byte_eq:
  assumes "k \<le> 9"
  shows "put_byte w k b = (w AND NOT (push_bit (k * 8) (mask 8))) OR push_bit (k * 8) (ucast b)"
proof (rule bit_word_eqI)
  fix n
  assume "n < LENGTH(80)"
  then show "bit (put_byte w k b) n =
      bit ((w AND NOT (push_bit (k * 8) (mask 8))) OR push_bit (k * 8) (ucast b)) n"
    using assms by (auto simp: bit_put_byte bit_simps dest: bit_imp_le_length)
qed

theorem put_byte_eq_witness:
  "put_byte 0x1234 0 0xAB = 0x12AB"
  using put_byte_eq [of 0 "0x1234" "0xAB"] by (simp add: mask_eq_exp_minus_1)

end
