(* ===== verification/Guard.thy ===== *)
theory Guard
  imports Prelude
begin

text \<open>
  The dead-input guard of \<open>RawDecoderSpec::run\<close> (lines 43--69): when the framework
  substitutes a 0xDEADBEEF placeholder with an empty payload for missing data, the
  decoder counts the streak in the function-static \<open>contDeadBeef\<close> (a \<open>size_t\<close>),
  raises an alarm while the streak is at most \<open>maxWarnDeadBeef\<close> (with a closing
  remark exactly at the cap), sends empty outputs and returns; any frame with data
  resets the streak. The cap is an \<open>int\<close> of the verbosity configuration, compared
  as \<open>size_t\<close>.
\<close>

datatype alarm = DeadBeefAlarm nat bool

text \<open>
  One frame: the payload sizes of the placeholder inputs found, the streak counter
  and the cap give whether the frame is dead, the new counter and the alarms raised.
\<close>

definition deadbeef_guard :: "int \<Rightarrow> u64 \<Rightarrow> nat list \<Rightarrow> bool \<times> u64 \<times> alarm list" where
  "deadbeef_guard maxWarn contDeadBeef sizes =
    (if 0 \<in> set sizes then
       (let c = contDeadBeef + 1
        in (True, c, if c \<le> word_of_int maxWarn then [DeadBeefAlarm (unat c) (c = word_of_int maxWarn)] else []))
     else (False, 0, []))"

text \<open>Successive frames, each given by the payload sizes of its placeholder inputs.\<close>

fun guard_run :: "int \<Rightarrow> u64 \<Rightarrow> nat list list \<Rightarrow> u64 \<times> alarm list" where
  "guard_run maxWarn c [] = (c, [])"
| "guard_run maxWarn c (sizes # rest) =
    (case deadbeef_guard maxWarn c sizes of
       (_, c', as) \<Rightarrow> (case guard_run maxWarn c' rest of (c'', bs) \<Rightarrow> (c'', as @ bs)))"

definition is_notice :: "alarm \<Rightarrow> bool" where
  "is_notice a = (case a of DeadBeefAlarm _ b \<Rightarrow> b)"

section \<open>Lemmas\<close>

lemma guard_cmp:
  assumes "0 \<le> maxWarn" "maxWarn < 2 ^ 31" "k < 2 ^ 63"
  shows "((word_of_nat k :: u64) \<le> word_of_int maxWarn \<longleftrightarrow> k \<le> nat maxWarn) \<and>
         ((word_of_nat k :: u64) = word_of_int maxWarn \<longleftrightarrow> k = nat maxWarn)"
proof -
  have m: "(word_of_int maxWarn :: u64) = word_of_nat (nat maxWarn)"
    using assms(1) by simp
  have k: "unat (word_of_nat k :: u64) = k"
    by (rule unat_word_of_nat_small) (use assms(3) in simp)
  have n: "unat (word_of_nat (nat maxWarn) :: u64) = nat maxWarn"
    by (rule unat_word_of_nat_small) (use assms(2) in simp)
  show ?thesis
    unfolding m by (simp add: word_le_nat_alt word_unat_eq_iff k n)
qed

lemma guard_run_dead:
  assumes "0 \<le> maxWarn" "maxWarn < 2 ^ 31" "c + length xss < 2 ^ 63" "\<forall>s \<in> set xss. 0 \<in> set s"
  shows "guard_run maxWarn (word_of_nat c) xss =
    (word_of_nat (c + length xss),
     map (\<lambda>j. DeadBeefAlarm j (j = nat maxWarn)) [Suc c..<Suc (min (c + length xss) (nat maxWarn))])"
  using assms(3,4)
proof (induction xss arbitrary: c)
  case Nil
  then show ?case by simp
next
  case (Cons s xss)
  have cmp: "((word_of_nat (Suc c) :: u64) \<le> word_of_int maxWarn \<longleftrightarrow> Suc c \<le> nat maxWarn) \<and>
      ((word_of_nat (Suc c) :: u64) = word_of_int maxWarn \<longleftrightarrow> Suc c = nat maxWarn)"
    using guard_cmp [OF assms(1,2), of "Suc c"] Cons.prems(1) by simp
  have u: "unat (word_of_nat (Suc c) :: u64) = Suc c"
    by (rule unat_word_of_nat_small) (use Cons.prems(1) in simp)
  have IH: "guard_run maxWarn (word_of_nat (Suc c)) xss =
      (word_of_nat (Suc c + length xss),
       map (\<lambda>j. DeadBeefAlarm j (j = nat maxWarn)) [Suc (Suc c)..<Suc (min (Suc c + length xss) (nat maxWarn))])"
    using Cons.IH [of "Suc c"] Cons.prems by simp
  show ?case
  proof (cases "Suc c \<le> nat maxWarn")
    case True
    then have lt: "Suc c < Suc (min (c + length (s # xss)) (nat maxWarn))"
      by simp
    have "c + length (s # xss) = Suc c + length xss"
      by simp
    then have "[Suc c..<Suc (min (c + length (s # xss)) (nat maxWarn))] =
        Suc c # [Suc (Suc c)..<Suc (min (Suc c + length xss) (nat maxWarn))]"
      using upt_conv_Cons [OF lt] by simp
    then show ?thesis
      using True cmp u IH Cons.prems by (simp add: deadbeef_guard_def Let_def add.commute)
  next
    case False
    then show ?thesis
      using cmp IH Cons.prems by (simp add: deadbeef_guard_def Let_def add.commute min_def)
  qed
qed


lemma length_filter_eq_upt:
  "length (filter (\<lambda>j. j = N) [a..<b]) = (if a \<le> N \<and> N < b then 1 else 0)"
  by (induction b) auto

section \<open>Claims on the dead-input guard\<close>

text \<open>
  C20 (bounds). Over a streak of \<open>k\<close> dead frames from a reset counter, the counter
  reaches \<open>k\<close>, exactly \<open>min k maxWarnDeadBeef\<close> alarms are raised, and the closing
  remark appears once if the streak reaches the cap, never otherwise.
\<close>

theorem dead_streak_alarms:
  assumes "0 \<le> maxWarn" "maxWarn < 2 ^ 31" "length xss < 2 ^ 63" "\<forall>s \<in> set xss. 0 \<in> set s"
  shows "fst (guard_run maxWarn 0 xss) = word_of_nat (length xss) \<and>
    length (snd (guard_run maxWarn 0 xss)) = min (length xss) (nat maxWarn) \<and>
    length (filter is_notice (snd (guard_run maxWarn 0 xss))) =
      (if 0 < nat maxWarn \<and> nat maxWarn \<le> length xss then 1 else 0)"
proof -
  have run: "guard_run maxWarn 0 xss = (word_of_nat (length xss),
      map (\<lambda>j. DeadBeefAlarm j (j = nat maxWarn)) [Suc 0..<Suc (min (length xss) (nat maxWarn))])"
    using guard_run_dead [OF assms(1,2), of 0 xss] assms(3,4) by simp
  have "filter is_notice (map (\<lambda>j. DeadBeefAlarm j (j = nat maxWarn)) [Suc 0..<Suc (min (length xss) (nat maxWarn))]) =
      map (\<lambda>j. DeadBeefAlarm j (j = nat maxWarn)) (filter (\<lambda>j. j = nat maxWarn) [Suc 0..<Suc (min (length xss) (nat maxWarn))])"
    by (simp add: filter_map comp_def is_notice_def)
  moreover have "(Suc 0 \<le> nat maxWarn \<and> nat maxWarn < Suc (min (length xss) (nat maxWarn))) =
      (0 < nat maxWarn \<and> nat maxWarn \<le> length xss)"
    by auto
  ultimately show ?thesis
    by (simp only: run fst_conv snd_conv length_map length_upt length_filter_eq_upt) simp
qed

theorem dead_streak_alarms_witness:
  "fst (guard_run 2 0 [[0], [0], [0]]) = 3 \<and> length (snd (guard_run 2 0 [[0], [0], [0]])) = 2 \<and>
    length (filter is_notice (snd (guard_run 2 0 [[0], [0], [0]]))) = 1"
  using dead_streak_alarms [of 2 "[[0], [0], [0]]"] by simp

text \<open>C21 (functional). A frame without an empty placeholder input resets the streak and raises no alarm.\<close>

theorem data_resets_streak:
  assumes "0 \<notin> set sizes"
  shows "deadbeef_guard maxWarn c sizes = (False, 0, [])"
  using assms by (simp add: deadbeef_guard_def)

theorem data_resets_streak_witness:
  "deadbeef_guard 10 5 [] = (False, 0, []) \<and> deadbeef_guard 10 5 [16] = (False, 0, [])"
  using data_resets_streak [of "[]" 10 5] data_resets_streak [of "[16]" 10 5] by simp

end
