(* ===== verification/Decoder.thy ===== *)
theory Decoder
  imports Unpacker Lumi Digits Reassembler Guard
begin

text \<open>
  The decoder as \<open>RawDecoderSpec::run\<close> composes it (lines 32--231): the dead-input
  guard, then the loop over the raw-data pages of the time frame (lines 80--199) with
  the classification of each page by its CRU link, the reset of the reassembly state
  at an orbit change with the per-orbit luminosity point, the byte loop that hands
  each completed GBT word to \<open>makeGBTWordInverse\<close> and its diglets to the aggregator,
  and at the end the digit and luminosity outputs. \<open>init\<close> and \<open>getRawDecoderSpec\<close>
  (lines 26--30, 253--279) give the configuration. A page the unpacker cannot finish
  (the \<open>while\<close> loop of \<open>makeGBTWordInverse\<close> not ending, or the \<open>uint32_t\<close>
  subtraction \<open>Npld - size_gbt\<close> wrapping, which the C++ follows with out-of-range
  bitset writes) makes the whole run \<open>None\<close>.
\<close>

unbundle bit_operations_syntax

section \<open>Data\<close>

text \<open>A raw-data page: the trigger orbit and FEE id of its RDH and its payload bytes.\<close>

record frame =
  rdhTriggerOrbit :: u32
  rdhFeeID :: u16
  fpayload :: "u8 list"

text \<open>The local variables of \<open>run\<close> that live across pages (lines 73--79).\<close>

record run_state =
  lumiPointsHBF1 :: "lumi_info list"
  payloadCTP :: nat
  orbit0 :: u32
  first :: bool
  reass :: reass_state
  agg :: agg_state

text \<open>
  The state at line 80; \<open>payloadCTP\<close> is declared without an initial value (line 75),
  so its value before the first classified page is a parameter.
\<close>

definition run_init :: "nat \<Rightarrow> run_state" where
  "run_init payload0 =
    \<lparr>lumiPointsHBF1 = [], payloadCTP = payload0, orbit0 = 0, first = True, reass = reass_empty,
     agg = \<lparr>countsMB = 0, digits = Map.empty, diags = []\<rparr>\<rparr>"

section \<open>The page loop\<close>

text \<open>\<open>linkCRU = (feeID & 0xf00) >> 8\<close> (line 89).\<close>

definition link_of :: "u16 \<Rightarrow> nat" where
  "link_of feeID = unat (drop_bit 8 (feeID AND 0xF00))"

text \<open>
  The byte loop of one page (lines 120--198): at the tenth byte of a period the word
  is completed, cut into diglets by \<open>makeGBTWordInverse\<close> (line 133), the diglets are
  fed to the aggregator (lines 135--190) and \<open>gbtWord\<close> is cleared (line 191).
\<close>

fun bytes_loop ::
  "decoder_cfg \<Rightarrow> nat \<Rightarrow> nat \<Rightarrow> gbtword80 \<Rightarrow> u32 \<Rightarrow> nat \<Rightarrow> gbtword80 \<Rightarrow> reass_state \<Rightarrow> agg_state \<Rightarrow>
   u8 list \<Rightarrow> (reass_state \<times> agg_state) option" where
  "bytes_loop cfg linkCRU pCTP pldmask orb wc w rs ag [] = Some (rs, ag)"
| "bytes_loop cfg linkCRU pCTP pldmask orb wc w rs ag (b # bs) =
    (if wc = 15 then bytes_loop cfg linkCRU pCTP pldmask orb 0 w rs ag bs
     else if 9 < wc then bytes_loop cfg linkCRU pCTP pldmask orb (wc + 1) w rs ag bs
     else if wc = 9 then
       (case unpack_word pCTP rs (put_byte w 9 b) of
          None \<Rightarrow> None
        | Some (ds, rs') \<Rightarrow>
            bytes_loop cfg linkCRU pCTP pldmask orb 10 0 rs'
              (process_diglets cfg linkCRU pCTP pldmask orb ag ds) bs)
     else bytes_loop cfg linkCRU pCTP pldmask orb (wc + 1) (put_byte w wc b) rs ag bs)"

text \<open>
  The orbit change (lines 111--119): with luminosity on and an interaction-record
  page, the count so far becomes a point labelled with the new \<open>triggerOrbit\<close> and is
  reset; the reassembly state is cleared and \<open>orbit0\<close> follows the page.
\<close>

definition orbit_change :: "decoder_cfg \<Rightarrow> u32 \<Rightarrow> run_state \<Rightarrow> run_state" where
  "orbit_change cfg orb st =
    (if orbit0 st \<noteq> orb then
       (let st' = (if mDoLumi cfg \<and> payloadCTP st = NIntRecPayload
                   then st\<lparr>lumiPointsHBF1 := lumiPointsHBF1 st @
                              [\<lparr>orbit = orb, nHBFCounted = 0, counts = countsMB (agg st)\<rparr>],
                           agg := (agg st)\<lparr>countsMB := 0\<rparr>\<rparr>
                   else st)
        in st'\<lparr>reass := reass_empty, orbit0 := orb\<rparr>)
     else st)"

text \<open>
  One page (lines 81--198). The first page sets \<open>orbit0\<close>; a class page with digits off
  is skipped after setting \<open>payloadCTP\<close> (the \<open>continue\<close> of line 95); a page of another
  link logs an error and is decoded with the \<open>payloadCTP\<close> left by the pages before.
\<close>

definition frame_step :: "decoder_cfg \<Rightarrow> run_state \<Rightarrow> frame \<Rightarrow> run_state option" where
  "frame_step cfg st fr =
    (let orb = rdhTriggerOrbit fr;
         st1 = (if first st then st\<lparr>orbit0 := orb, first := False\<rparr> else st);
         linkCRU = link_of (rdhFeeID fr)
     in if linkCRU = GBTLinkIDClassRec \<and> \<not> mDoDigits cfg then Some (st1\<lparr>payloadCTP := NClassPayload\<rparr>)
        else
          (let st2 = (if linkCRU = GBTLinkIDIntRec then st1\<lparr>payloadCTP := NIntRecPayload\<rparr>
                      else if linkCRU = GBTLinkIDClassRec then st1\<lparr>payloadCTP := NClassPayload\<rparr>
                      else st1\<lparr>agg := (agg st1)\<lparr>diags := diags (agg st1) @ [UnexpectedLink linkCRU]\<rparr>\<rparr>);
               pldmask = mk_pldmask (payloadCTP st2);
               st3 = orbit_change cfg orb st2
           in case bytes_loop cfg linkCRU (payloadCTP st3) pldmask orb 0 0 (reass st3) (agg st3) (fpayload fr) of
                None \<Rightarrow> None
              | Some (rs, ag) \<Rightarrow> Some (st3\<lparr>reass := rs, agg := ag\<rparr>)))"

text \<open>The loop over the pages of the time frame (line 80), in the order the parser gives them.\<close>

fun frames_loop :: "decoder_cfg \<Rightarrow> run_state \<Rightarrow> frame list \<Rightarrow> run_state option" where
  "frames_loop cfg st [] = Some st"
| "frames_loop cfg st (fr # frs) =
    (case frame_step cfg st fr of None \<Rightarrow> None | Some st' \<Rightarrow> frames_loop cfg st' frs)"

section \<open>The task\<close>

text \<open>
  The task object: its configuration, the luminosity members, and the function-static
  \<open>contDeadBeef\<close> with the cap \<open>maxWarnDeadBeef\<close> of the verbosity configuration.
\<close>

record decoder =
  dcfg :: decoder_cfg
  dlumi :: lumi_state
  contDeadBeef :: u64
  maxWarnDeadBeef :: int

datatype task_output = DigitsOut "ctp_digit list" | LumiOut lumi_info

text \<open>A time frame: the payload sizes of its 0xDEADBEEF inputs and its raw-data pages.\<close>

record tf_input =
  dummySizes :: "nat list"
  frames :: "frame list"

definition dead_outputs :: "decoder \<Rightarrow> task_output list" where
  "dead_outputs d =
    (if mDoDigits (dcfg d) then [DigitsOut []] else []) @
    (if mDoLumi (dcfg d) then [LumiOut (mOutputLumiInfo (dlumi d))] else [])"

text \<open>\<open>run\<close> (lines 32--231): the outputs are the snapshots in the order they are made.\<close>

definition run :: "decoder \<Rightarrow> nat \<Rightarrow> tf_input \<Rightarrow> (decoder \<times> task_output list \<times> alarm list) option" where
  "run d payload0 tf =
    (case deadbeef_guard (maxWarnDeadBeef d) (contDeadBeef d) (dummySizes tf) of
       (True, c, as) \<Rightarrow> Some (d\<lparr>contDeadBeef := c\<rparr>, dead_outputs d, as)
     | (False, c, _) \<Rightarrow>
         (case frames_loop (dcfg d) (run_init payload0) (frames tf) of
            None \<Rightarrow> None
          | Some st \<Rightarrow>
              (let cfg = dcfg d;
                   lum = (if mDoLumi cfg
                          then lumi_finish (mNTFToIntegrate cfg) (lumiPointsHBF1 st) (orbit0 st)
                                 (countsMB (agg st)) (dlumi d)
                          else dlumi d)
               in Some (d\<lparr>contDeadBeef := c, dlumi := lum\<rparr>,
                        (if mDoDigits cfg then [DigitsOut (digits_out (digits (agg st)))] else []) @
                        (if mDoLumi cfg then [LumiOut (mOutputLumiInfo lum)] else []),
                        []))))"

section \<open>Configuration\<close>

text \<open>The options of the task and their defaults (lines 276--278).\<close>

record task_options =
  ntf_to_average :: int
  use_verbose_mode :: bool

definition default_options :: task_options where
  "default_options = \<lparr>ntf_to_average = 90, use_verbose_mode = False\<rparr>"

text \<open>\<open>init\<close> (lines 26--30).\<close>

definition init :: "task_options \<Rightarrow> decoder \<Rightarrow> decoder" where
  "init opts d =
    d\<lparr>dcfg := (dcfg d)\<lparr>mNTFToIntegrate := ntf_to_average opts, mVerbose := use_verbose_mode opts\<rparr>\<rparr>"

datatype lifetime = Optional | Timeframe

datatype spec_error = AllOutputsDisabled

text \<open>A data processor specification: its name, inputs, outputs and the task's output flags.\<close>

record processor_spec =
  ps_name :: string
  ps_inputs :: "(string \<times> string \<times> string \<times> lifetime) list"
  ps_outputs :: "(string \<times> string \<times> lifetime) list"
  ps_task :: "bool \<times> bool"
  ps_options :: task_options

text \<open>\<open>getRawDecoderSpec\<close> (lines 253--279); the \<open>throw\<close> is the \<open>Inl\<close> branch.\<close>

definition getRawDecoderSpec :: "bool \<Rightarrow> bool \<Rightarrow> bool \<Rightarrow> spec_error + processor_spec" where
  "getRawDecoderSpec askDISTSTF dgts lumi =
    (if \<not> dgts \<and> \<not> lumi then Inl AllOutputsDisabled
     else Inr \<lparr>ps_name = ''ctp-raw-decoder'',
               ps_inputs = [(''TF'', ''CTP'', ''RAWDATA'', Optional)] @
                           (if askDISTSTF then [(''stdDist'', ''FLP'', ''DISTSUBTIMEFRAME'', Timeframe)] else []),
               ps_outputs = (if dgts then [(''CTP'', ''DIGITS'', Timeframe)] else []) @
                            (if lumi then [(''CTP'', ''LUMI'', Timeframe)] else []),
               ps_task = (dgts, lumi),
               ps_options = default_options\<rparr>)"


section \<open>Well-formed page sequences\<close>

text \<open>
  The remnant and \<open>size_gbt\<close> are shared by the two links and only cleared at an orbit
  change, so a class page (76-bit payloads) followed by an interaction-record page
  (60-bit payloads) of the same orbit can leave \<open>size_gbt > Npld\<close>. A page sequence
  is well formed when every page comes from one of the two links and no class page is
  directly followed by an interaction-record page of the same orbit.
\<close>

definition page_ok :: "frame option \<Rightarrow> frame \<Rightarrow> bool" where
  "page_ok prev fr \<longleftrightarrow>
    (link_of (rdhFeeID fr) = GBTLinkIDIntRec \<or> link_of (rdhFeeID fr) = GBTLinkIDClassRec) \<and>
    (case prev of
       None \<Rightarrow> True
     | Some f \<Rightarrow> link_of (rdhFeeID f) = GBTLinkIDClassRec \<and> link_of (rdhFeeID fr) = GBTLinkIDIntRec \<longrightarrow>
                 rdhTriggerOrbit f \<noteq> rdhTriggerOrbit fr)"

fun frames_ok :: "frame option \<Rightarrow> frame list \<Rightarrow> bool" where
  "frames_ok prev [] = True"
| "frames_ok prev (fr # frs) = (page_ok prev fr \<and> frames_ok (Some fr) frs)"

text \<open>
  The invariant of the page loop: the reassembly state fits the wider payload, is empty
  before the first page, and holds more than 60 bits only after a decoded class page
  of the current orbit.
\<close>

definition loop_inv :: "decoder_cfg \<Rightarrow> frame option \<Rightarrow> run_state \<Rightarrow> bool" where
  "loop_inv cfg prev st \<longleftrightarrow>
    reass_inv NClassPayload (reass st) \<and> (first st \<longrightarrow> reass st = reass_empty) \<and>
    (NIntRecPayload < size_gbt (reass st) \<longrightarrow>
       mDoDigits cfg \<and>
       (case prev of
          None \<Rightarrow> False
        | Some f \<Rightarrow> link_of (rdhFeeID f) = GBTLinkIDClassRec \<and> orbit0 st = rdhTriggerOrbit f))"

section \<open>Lemmas\<close>

lemma reass_inv_mono:
  "reass_inv p st \<Longrightarrow> p \<le> q \<Longrightarrow> reass_inv q st"
  by (simp add: reass_inv_def)

lemma orbit_change_fields [simp]:
  "reass (orbit_change cfg orb st) = (if orbit0 st \<noteq> orb then reass_empty else reass st)"
  "orbit0 (orbit_change cfg orb st) = orb"
  "first (orbit_change cfg orb st) = first st"
  "payloadCTP (orbit_change cfg orb st) = payloadCTP st"
  by (simp_all add: orbit_change_def Let_def)

lemma process_diglets_append:
  "process_diglets cfg l p m orb ag (ds @ ds') = process_diglets cfg l p m orb (process_diglets cfg l p m orb ag ds) ds'"
  by (simp add: process_diglets_def)

text \<open>The byte loop is the reassembler, then the unpacker, then the aggregator.\<close>

lemma bytes_loop_compose:
  "bytes_loop cfg l p m orb wc w rs ag bs =
    map_option (\<lambda>(ds, rs'). (rs', process_diglets cfg l p m orb ag ds)) (unpack_words p rs (assemble wc w bs))"
proof (induction cfg l p m orb wc w rs ag bs rule: bytes_loop.induct)
  case (1 cfg l p m orb wc w rs ag)
  then show ?case by (simp add: process_diglets_def)
next
  case (2 cfg l p m orb wc w rs ag b bs)
  show ?case
  proof (cases "wc = 15 \<or> 9 < wc \<or> wc \<noteq> 9")
    case True
    then show ?thesis using 2 by auto
  next
    case False
    then show ?thesis
      using 2(3) by (auto simp: process_diglets_append split: option.splits)
  qed
qed


text \<open>A decoded page: the state after the orbit change, then the byte loop.\<close>

lemma frame_step_decoded:
  fixes cfg :: decoder_cfg and st :: run_state and fr :: frame
  assumes "link_of (rdhFeeID fr) = l" "l = GBTLinkIDIntRec \<or> (l = GBTLinkIDClassRec \<and> mDoDigits cfg)"
  defines "p \<equiv> (if l = GBTLinkIDIntRec then NIntRecPayload else NClassPayload)"
  defines "st3 \<equiv> orbit_change cfg (rdhTriggerOrbit fr)
             ((if first st then st\<lparr>orbit0 := rdhTriggerOrbit fr, first := False\<rparr> else st)\<lparr>payloadCTP := p\<rparr>)"
  shows "frame_step cfg st fr =
    (case bytes_loop cfg l p (mk_pldmask p) (rdhTriggerOrbit fr) 0 0 (reass st3) (agg st3) (fpayload fr) of
       None \<Rightarrow> None
     | Some (rs, ag) \<Rightarrow> Some (st3\<lparr>reass := rs, agg := ag\<rparr>))"
proof -
  have "\<not> (l = GBTLinkIDClassRec \<and> \<not> mDoDigits cfg)"
    using assms(2) by (auto simp: ctp_consts)
  then show ?thesis
    using assms(1,2) unfolding p_def st3_def frame_step_def Let_def
    by (simp only: if_False if_True refl) (auto simp: ctp_consts)
qed

lemma frame_step_inv:
  assumes inv: "loop_inv cfg prev st" and ok: "page_ok prev fr"
  shows "\<exists>st'. frame_step cfg st fr = Some st' \<and> loop_inv cfg (Some fr) st'"
proof -
  define orb where "orb = rdhTriggerOrbit fr"
  define l where "l = link_of (rdhFeeID fr)"
  define st1 where "st1 = (if first st then st\<lparr>orbit0 := orb, first := False\<rparr> else st)"
  have l01: "l = GBTLinkIDIntRec \<or> l = GBTLinkIDClassRec"
    using ok by (simp add: page_ok_def l_def)
  show ?thesis
  proof (cases "l = GBTLinkIDClassRec \<and> \<not> mDoDigits cfg")
    case True
    then have "frame_step cfg st fr = Some (st1\<lparr>payloadCTP := NClassPayload\<rparr>)"
      by (simp add: frame_step_def Let_def st1_def orb_def l_def)
    moreover have "loop_inv cfg (Some fr) (st1\<lparr>payloadCTP := NClassPayload\<rparr>)"
      using inv True by (auto simp: loop_inv_def st1_def)
    ultimately show ?thesis by blast
  next
    case False
    define p where "p = (if l = GBTLinkIDIntRec then NIntRecPayload else NClassPayload)"
    define st3 where "st3 = orbit_change cfg orb (st1\<lparr>payloadCTP := p\<rparr>)"
    have fs: "frame_step cfg st fr =
        (case bytes_loop cfg l p (mk_pldmask p) orb 0 0 (reass st3) (agg st3) (fpayload fr) of
           None \<Rightarrow> None
         | Some (rs, ag) \<Rightarrow> Some (st3\<lparr>reass := rs, agg := ag\<rparr>))"
      using frame_step_decoded [where cfg = cfg and st = st and fr = fr and l = l] False l01
      unfolding p_def st3_def st1_def orb_def l_def by blast
    have pb: "0 < p" "p < NGBT" "p \<le> NClassPayload"
      by (simp_all add: p_def ctp_consts)
    have ri: "reass_inv p (reass st3)"
    proof (cases "orbit0 st1 \<noteq> orb \<or> first st")
      case True
      then have "reass st3 = reass_empty"
        using inv by (auto simp: st3_def st1_def loop_inv_def)
      then show ?thesis by (simp add: reass_inv_def reass_empty_def)
    next
      case False
      then have same: "orbit0 st = orb" "reass st3 = reass st"
        by (simp_all add: st3_def st1_def split: if_splits)
      have "size_gbt (reass st) \<le> p"
      proof (cases "l = GBTLinkIDIntRec")
        case True
        show ?thesis
        proof (rule ccontr)
          assume "\<not> size_gbt (reass st) \<le> p"
          then obtain f where "prev = Some f" "link_of (rdhFeeID f) = GBTLinkIDClassRec" "orbit0 st = rdhTriggerOrbit f"
            using inv True by (auto simp: loop_inv_def p_def split: option.splits)
          then show False
            using ok True same(1) by (simp add: page_ok_def l_def orb_def)
        qed
      next
        case False
        then show ?thesis
          using inv by (simp add: loop_inv_def reass_inv_def p_def)
      qed
      then show ?thesis
        using inv same(2) by (simp add: loop_inv_def reass_inv_def)
    qed
    obtain ds rs' where uw: "unpack_words p (reass st3) (assemble 0 0 (fpayload fr)) = Some (ds, rs')"
      and ri': "reass_inv p rs'"
      using unpack_words_stream [OF ri pb(1,2), of "assemble 0 0 (fpayload fr)"] by auto
    have step: "frame_step cfg st fr =
        Some (st3\<lparr>reass := rs', agg := process_diglets cfg l p (mk_pldmask p) orb (agg st3) ds\<rparr>)"
      using fs uw by (simp add: bytes_loop_compose)
    have "loop_inv cfg (Some fr) (st3\<lparr>reass := rs', agg := process_diglets cfg l p (mk_pldmask p) orb (agg st3) ds\<rparr>)"
    proof -
      have "reass_inv NClassPayload rs'"
        using reass_inv_mono [OF ri' pb(3)] .
      moreover have "\<not> first st3" "orbit0 st3 = orb"
        by (simp_all add: st3_def st1_def)
      moreover have "NIntRecPayload < size_gbt rs' \<Longrightarrow> l = GBTLinkIDClassRec \<and> mDoDigits cfg"
        using ri' False l01 by (auto simp: reass_inv_def p_def)
      ultimately show ?thesis
        by (auto simp: loop_inv_def l_def orb_def)
    qed
    with step show ?thesis by blast
  qed
qed


lemma loop_inv_init: "loop_inv cfg None (run_init payload0)"
  by (simp add: loop_inv_def run_init_def reass_inv_def reass_empty_def)

lemma frames_loop_inv:
  assumes "loop_inv cfg prev st" "frames_ok prev frs"
  shows "\<exists>st'. frames_loop cfg st frs = Some st'"
  using assms
proof (induction frs arbitrary: prev st)
  case Nil
  then show ?case by simp
next
  case (Cons fr frs)
  obtain st' where "frame_step cfg st fr = Some st'" "loop_inv cfg (Some fr) st'"
    using frame_step_inv [OF Cons.prems(1)] Cons.prems(2) by auto
  then show ?case
    using Cons.IH [of "Some fr" st'] Cons.prems(2) by simp
qed

lemma unpack_word_ub:
  "Npld < size_gbt st \<Longrightarrow> Npld < NGBT \<Longrightarrow> unpack_word Npld st w = None"
  by (simp add: unpack_word_def makeGBTWordInverse_def)

text \<open>A class page of sixteen words, decoded from an empty state, leaves 64 bits behind.\<close>

lemma class_page_64:
  assumes "link_of (rdhFeeID fr) = GBTLinkIDClassRec" "mDoDigits cfg" "length (fpayload fr) = 256"
  shows "\<exists>st'. frame_step cfg (run_init payload0) fr = Some st' \<and> size_gbt (reass st') = 64 \<and>
           orbit0 st' = rdhTriggerOrbit fr \<and> \<not> first st'"
proof -
  have ri: "reass_inv NClassPayload reass_empty"
    by (simp add: reass_inv_def reass_empty_def)
  have len: "length (assemble 0 0 (fpayload fr)) = 16"
    using assemble_length [of 0 0 "fpayload fr"] assms(3) by simp
  obtain ds rs' where uw: "unpack_words NClassPayload reass_empty (assemble 0 0 (fpayload fr)) = Some (ds, rs')"
    and sz: "size_gbt rs' = 64"
    using unpack_words_stream [OF ri, of "assemble 0 0 (fpayload fr)"] len
    by (auto simp: ctp_consts Let_def reass_empty_def)
  show ?thesis
    using frame_step_decoded [where cfg = cfg and st = "run_init payload0" and fr = fr and l = GBTLinkIDClassRec]
      assms(1,2) uw sz
    by (simp add: bytes_loop_compose run_init_def ctp_consts)
qed

lemma orbit_change_digits [simp]:
  "digits (agg (orbit_change cfg orb st)) = digits (agg st)"
  by (simp add: orbit_change_def Let_def)

lemma frame_step_digits_ok:
  assumes "\<not> log_debug cfg" "digits_ok (digits (agg st))" "frame_step cfg st fr = Some st'"
  shows "digits_ok (digits (agg st'))"
proof -
  have key: "\<And>ag l p m orb ds. digits ag = digits (agg st) \<Longrightarrow>
      digits_ok (digits (process_diglets cfg l p m orb ag ds))"
    using process_diglets_ok [OF assms(1)] assms(2) by simp
  show ?thesis
    using assms(2,3)
    by (auto simp: frame_step_def Let_def bytes_loop_compose key split: if_splits option.splits)
qed

lemma frames_loop_digits_ok:
  assumes "\<not> log_debug cfg" "digits_ok (digits (agg st))" "frames_loop cfg st frs = Some st'"
  shows "digits_ok (digits (agg st'))"
  using assms(2,3)
proof (induction frs arbitrary: st)
  case Nil
  then show ?case by simp
next
  case (Cons fr frs)
  then obtain st1 where "frame_step cfg st fr = Some st1" "frames_loop cfg st1 frs = Some st'"
    by (auto split: option.splits)
  then show ?case
    using Cons.IH frame_step_digits_ok [OF assms(1) Cons.prems(1)] by blast
qed

text \<open>The minimum-bias count of a diglet depends on the count before it, not on the link or the digits.\<close>

lemma process_diglet_countsMB:
  "countsMB (process_diglet cfg l p m orb ag d) = countsMB (count_mb cfg p ag d)"
  by (simp add: process_diglet_cases merge_input_def merge_class_def Let_def split: option.split)

lemma count_mb_countsMB:
  "countsMB ag = countsMB ag' \<Longrightarrow> countsMB (count_mb cfg p ag d) = countsMB (count_mb cfg p ag' d)"
  by (simp add: count_mb_def)

lemma process_diglets_countsMB:
  assumes "countsMB ag = countsMB ag'"
  shows "countsMB (process_diglets cfg l p m orb ag ds) = countsMB (process_diglets cfg l' p m' orb' ag' ds)"
  using assms unfolding process_diglets_def
proof (induction ds arbitrary: ag ag')
  case Nil
  then show ?case by simp
next
  case (Cons d ds)
  have "countsMB (process_diglet cfg l p m orb ag d) = countsMB (process_diglet cfg l' p m' orb' ag' d)"
    using Cons.prems by (simp add: process_diglet_countsMB count_mb_def)
  then show ?case
    by (simp only: foldl_Cons) (rule Cons.IH)
qed

lemma process_diglets_unknown_digits:
  assumes "l \<noteq> GBTLinkIDIntRec" "l \<noteq> GBTLinkIDClassRec"
  shows "digits (process_diglets cfg l p m orb ag ds) = digits ag"
  unfolding process_diglets_def
  by (induction ds arbitrary: ag) (simp_all add: process_diglet_cases assms)

lemma orbit_change_lumi:
  "lumiPointsHBF1 (orbit_change cfg orb st) =
     (if orbit0 st \<noteq> orb \<and> mDoLumi cfg \<and> payloadCTP st = NIntRecPayload
      then lumiPointsHBF1 st @ [\<lparr>orbit = orb, nHBFCounted = 0, counts = countsMB (agg st)\<rparr>] else lumiPointsHBF1 st)"
  "countsMB (agg (orbit_change cfg orb st)) =
     (if orbit0 st \<noteq> orb \<and> mDoLumi cfg \<and> payloadCTP st = NIntRecPayload then 0 else countsMB (agg st))"
  by (simp_all add: orbit_change_def Let_def)

section \<open>Claims on the page loop\<close>

text \<open>
  C22 (termination). On a time frame whose pages all come from the two CTP links, with
  no class page directly followed by an interaction-record page of the same orbit,
  \<open>run\<close> returns, whatever the configuration, the state of the task and the initial
  value of \<open>payloadCTP\<close>.
\<close>

theorem run_returns:
  assumes "frames_ok None (frames tf)"
  shows "\<exists>r. run d payload0 tf = Some r"
proof -
  obtain st where "frames_loop (dcfg d) (run_init payload0) (frames tf) = Some st"
    using frames_loop_inv [OF loop_inv_init assms] by blast
  then show ?thesis
    by (auto simp: run_def Let_def split: prod.split bool.split)
qed


theorem run_returns_witness:
  "frames_ok None [\<lparr>rdhTriggerOrbit = 5, rdhFeeID = 0x100, fpayload = replicate 32 0\<rparr>,
                   \<lparr>rdhTriggerOrbit = 6, rdhFeeID = 0, fpayload = replicate 32 0\<rparr>] \<and>
   (\<exists>r. run \<lparr>dcfg = \<lparr>mDoDigits = True, mDoLumi = True, mNTFToIntegrate = 90, mVerbose = False,
                     mTVXMask = 0x1000, log_debug = False\<rparr>,
             dlumi = lumi_state_init, contDeadBeef = 0, maxWarnDeadBeef = 10\<rparr> 0
          \<lparr>dummySizes = [], frames = [\<lparr>rdhTriggerOrbit = 5, rdhFeeID = 0x100, fpayload = replicate 32 0\<rparr>,
                                     \<lparr>rdhTriggerOrbit = 6, rdhFeeID = 0, fpayload = replicate 32 0\<rparr>]\<rparr> = Some r)"
proof -
  have ok: "frames_ok None [\<lparr>rdhTriggerOrbit = 5, rdhFeeID = 0x100, fpayload = replicate 32 0\<rparr>,
                   \<lparr>rdhTriggerOrbit = 6, rdhFeeID = 0, fpayload = replicate 32 0\<rparr>]"
    by (simp add: page_ok_def link_of_def ctp_consts)
  show ?thesis
    using ok run_returns [of "\<lparr>dummySizes = [], frames = [\<lparr>rdhTriggerOrbit = 5, rdhFeeID = 0x100, fpayload = replicate 32 0\<rparr>,
                                     \<lparr>rdhTriggerOrbit = 6, rdhFeeID = 0, fpayload = replicate 32 0\<rparr>]\<rparr>"
      "\<lparr>dcfg = \<lparr>mDoDigits = True, mDoLumi = True, mNTFToIntegrate = 90, mVerbose = False,
                     mTVXMask = 0x1000, log_debug = False\<rparr>,
             dlumi = lumi_state_init, contDeadBeef = 0, maxWarnDeadBeef = 10\<rparr>" 0]
    by simp
qed

text \<open>
  C23 (error). The remnant is shared by the two links: when a class page of sixteen
  words (256 bytes) leaves 64 bits behind and an interaction-record page of the same
  orbit follows, \<open>makeGBTWordInverse\<close> is called with \<open>size_gbt = 64 > Npld = 60\<close>,
  whose \<open>uint32_t\<close> difference wraps: the run has no defined result.
\<close>

theorem class_then_intrec_same_orbit_fails:
  assumes "link_of (rdhFeeID f1) = GBTLinkIDClassRec" "link_of (rdhFeeID f2) = GBTLinkIDIntRec"
    and "rdhTriggerOrbit f1 = rdhTriggerOrbit f2" "mDoDigits (dcfg d)"
    and "length (fpayload f1) = 256" "10 \<le> length (fpayload f2)"
    and "0 \<notin> set (dummySizes tf)" "frames tf = f1 # f2 # rest"
  shows "run d payload0 tf = None"
proof -
  obtain st where st: "frame_step (dcfg d) (run_init payload0) f1 = Some st" "size_gbt (reass st) = 64"
      "orbit0 st = rdhTriggerOrbit f1" "\<not> first st"
    using class_page_64 [OF assms(1,4,5)] by blast
  obtain w ws where asm: "assemble 0 0 (fpayload f2) = w # ws"
    using assemble_nonempty [of 0 "fpayload f2" 0] assms(6) by (cases "assemble 0 0 (fpayload f2)") auto
  have "frame_step (dcfg d) st f2 = None"
    using frame_step_decoded [where cfg = "dcfg d" and st = st and fr = f2 and l = GBTLinkIDIntRec]
      assms(2,3) st(2-4) asm
    by (simp add: bytes_loop_compose unpack_word_ub ctp_consts)
  then show ?thesis
    using st(1) assms(7,8) by (simp add: run_def deadbeef_guard_def)
qed


text \<open>
  A sixteen-word class page and a ten-byte interaction-record page of orbit 5: the run
  of a task with digits on has no defined result.
\<close>

theorem class_then_intrec_same_orbit_fails_witness:
  "run \<lparr>dcfg = \<lparr>mDoDigits = True, mDoLumi = False, mNTFToIntegrate = 90, mVerbose = False,
                  mTVXMask = 0, log_debug = False\<rparr>,
          dlumi = lumi_state_init, contDeadBeef = 0, maxWarnDeadBeef = 10\<rparr> 0
     \<lparr>dummySizes = [], frames = [\<lparr>rdhTriggerOrbit = 5, rdhFeeID = 0x100, fpayload = replicate 256 0\<rparr>,
                                \<lparr>rdhTriggerOrbit = 5, rdhFeeID = 0, fpayload = replicate 10 0\<rparr>]\<rparr> = None"
  using class_then_intrec_same_orbit_fails [of "\<lparr>rdhTriggerOrbit = 5, rdhFeeID = 0x100, fpayload = replicate 256 0\<rparr>"
      "\<lparr>rdhTriggerOrbit = 5, rdhFeeID = 0, fpayload = replicate 10 0\<rparr>"
      "\<lparr>dcfg = \<lparr>mDoDigits = True, mDoLumi = False, mNTFToIntegrate = 90, mVerbose = False,
                  mTVXMask = 0, log_debug = False\<rparr>,
          dlumi = lumi_state_init, contDeadBeef = 0, maxWarnDeadBeef = 10\<rparr>"
      "\<lparr>dummySizes = [], frames = [\<lparr>rdhTriggerOrbit = 5, rdhFeeID = 0x100, fpayload = replicate 256 0\<rparr>,
                                \<lparr>rdhTriggerOrbit = 5, rdhFeeID = 0, fpayload = replicate 10 0\<rparr>]\<rparr>" "[]" 0]
  by (simp add: link_of_def ctp_consts)

text \<open>
  C24 (functional). A page that carries payloads of \<open>Npld\<close> bits packed edge to edge
  into \<open>n\<close> GBT words, each sent as its ten bytes and six padding bytes, delivers to the
  aggregator, from an empty reassembly state, exactly those payloads in order,
  followed only by zero payloads cut from the padding of the last word.
\<close>

theorem page_payloads_delivered:
  fixes n :: nat
  assumes "0 < Npld" "Npld < NGBT" "\<forall>v\<in>set vs. v < 2 ^ Npld"
    and "length vs * Npld < NGBT * n" "length pad = 6"
  shows "\<exists>rs'. bytes_loop cfg l Npld m orb 0 0 reass_empty ag
             (concat (map (\<lambda>w. envelope w pad) (gbt_words n (pack_payloads Npld vs)))) =
           Some (rs', process_diglets cfg l Npld m orb ag
                        (map word_of_nat (vs @ replicate ((NGBT * n - 1) div Npld - length vs) 0)))"
proof -
  obtain ds st' where run: "unpack_words Npld reass_empty (gbt_words n (pack_payloads Npld vs)) = Some (ds, st')"
    and out: "map unat ds = map (\<lambda>j. if j < length vs then vs ! j else 0) [0..<(NGBT * n - 1) div Npld]"
    using unpack_packed [OF assms(1-3), of n] by blast
  have "ds = map word_of_nat (map unat ds)"
    by (simp add: comp_def)
  also have "\<dots> = map word_of_nat (vs @ replicate ((NGBT * n - 1) div Npld - length vs) 0)"
    using out pad_payloads [OF payloads_fit [OF assms(1,4)]] by simp
  finally show ?thesis
    using run by (simp add: bytes_loop_compose assemble_envelopes [OF assms(5)])
qed


theorem page_payloads_delivered_witness:
  "\<exists>rs'. bytes_loop \<lparr>mDoDigits = True, mDoLumi = True, mNTFToIntegrate = 90, mVerbose = False, mTVXMask = 0x1000, log_debug = False\<rparr> GBTLinkIDIntRec NIntRecPayload (mk_pldmask NIntRecPayload) 5 0 0 reass_empty
          \<lparr>countsMB = 0, digits = Map.empty, diags = []\<rparr>
          (concat (map (\<lambda>w. envelope w [0, 0, 0, 0, 0, 0]) (gbt_words 2 (pack_payloads NIntRecPayload [1, 2])))) =
        Some (rs', process_diglets \<lparr>mDoDigits = True, mDoLumi = True, mNTFToIntegrate = 90, mVerbose = False, mTVXMask = 0x1000, log_debug = False\<rparr> GBTLinkIDIntRec NIntRecPayload (mk_pldmask NIntRecPayload) 5
          \<lparr>countsMB = 0, digits = Map.empty, diags = []\<rparr> [1, 2])"
  using page_payloads_delivered [of NIntRecPayload "[1, 2]" 2 "[0, 0, 0, 0, 0, 0]" "\<lparr>mDoDigits = True, mDoLumi = True, mNTFToIntegrate = 90, mVerbose = False, mTVXMask = 0x1000, log_debug = False\<rparr>" GBTLinkIDIntRec
      "mk_pldmask NIntRecPayload" 5 "\<lparr>countsMB = 0, digits = Map.empty, diags = []\<rparr>"]
  by (simp add: ctp_consts)

text \<open>
  C25 (functional). At an orbit change on an interaction-record page with luminosity on,
  the minimum-bias count of the orbit that ends is flushed into a point labelled with
  the orbit that begins, the count restarts at 0 and the reassembly state is cleared;
  the spec labels the point with the previous orbit.
\<close>

theorem orbit_flush_labels_new_orbit:
  assumes "orbit0 st \<noteq> orb" "mDoLumi cfg" "payloadCTP st = NIntRecPayload"
  shows "lumiPointsHBF1 (orbit_change cfg orb st) =
           lumiPointsHBF1 st @ [\<lparr>orbit = orb, nHBFCounted = 0, counts = countsMB (agg st)\<rparr>] \<and>
         countsMB (agg (orbit_change cfg orb st)) = 0 \<and> reass (orbit_change cfg orb st) = reass_empty \<and>
         orbit0 (orbit_change cfg orb st) = orb"
  using assms by (simp add: orbit_change_def Let_def)

theorem orbit_flush_labels_new_orbit_witness:
  "lumiPointsHBF1 (orbit_change \<lparr>mDoDigits = True, mDoLumi = True, mNTFToIntegrate = 90, mVerbose = False,
                                  mTVXMask = 0x1000, log_debug = False\<rparr> 6 (run_init NIntRecPayload\<lparr>orbit0 := 5\<rparr>)) =
     [\<lparr>orbit = 6, nHBFCounted = 0, counts = 0\<rparr>]"
  using orbit_flush_labels_new_orbit [of "run_init NIntRecPayload\<lparr>orbit0 := 5\<rparr>" 6
      "\<lparr>mDoDigits = True, mDoLumi = True, mNTFToIntegrate = 90, mVerbose = False, mTVXMask = 0x1000, log_debug = False\<rparr>"]
  by (simp add: run_init_def)

text \<open>
  C26 (error). A page of an unexpected CRU link is not skipped. It is decoded with the
  \<open>payloadCTP\<close> left by the page before; after an interaction-record page, its words
  are unpacked and its minimum-bias triggers counted exactly as if it came from the
  interaction-record link: the reassembly state, the count, the luminosity points and
  \<open>orbit0\<close> come out the same. Only its digits are dropped (each non-empty payload
  logs an error). The spec skips such a page, with no counts.
\<close>

theorem unknown_link_decoded_as_intrec:
  fixes cfg :: decoder_cfg and st :: run_state and fr :: frame
  assumes "link_of (rdhFeeID fr) \<noteq> GBTLinkIDIntRec" "link_of (rdhFeeID fr) \<noteq> GBTLinkIDClassRec"
    and "payloadCTP st = NIntRecPayload"
  defines "obs \<equiv> \<lambda>s :: run_state. (reass s, countsMB (agg s), lumiPointsHBF1 s, orbit0 s)"
  shows "map_option obs (frame_step cfg st fr) = map_option obs (frame_step cfg st (fr\<lparr>rdhFeeID := 0\<rparr>)) \<and>
    map_option (digits \<circ> agg) (frame_step cfg st fr) = map_option (\<lambda>_. digits (agg st)) (frame_step cfg st fr)"
proof -
  define l where "l = link_of (rdhFeeID fr)"
  define orb where "orb = rdhTriggerOrbit fr"
  define st1 where "st1 = (if first st then st\<lparr>orbit0 := orb, first := False\<rparr> else st)"
  define su where "su = orbit_change cfg orb (st1\<lparr>agg := (agg st1)\<lparr>diags := diags (agg st1) @ [UnexpectedLink l]\<rparr>\<rparr>)"
  define si where "si = orbit_change cfg orb (st1\<lparr>payloadCTP := NIntRecPayload\<rparr>)"
  have u: "frame_step cfg st fr =
      (case bytes_loop cfg l NIntRecPayload (mk_pldmask NIntRecPayload) orb 0 0 (reass su) (agg su) (fpayload fr) of
         None \<Rightarrow> None
       | Some (rs, ag) \<Rightarrow> Some (su\<lparr>reass := rs, agg := ag\<rparr>))"
    using assms(1-3) unfolding frame_step_def Let_def l_def orb_def su_def st1_def
    by (cases "first st") (simp_all del: orbit_change_fields add: orbit_change_fields(4))
  have i: "frame_step cfg st (fr\<lparr>rdhFeeID := 0\<rparr>) =
      (case bytes_loop cfg GBTLinkIDIntRec NIntRecPayload (mk_pldmask NIntRecPayload) orb 0 0 (reass si) (agg si) (fpayload fr) of
         None \<Rightarrow> None
       | Some (rs, ag) \<Rightarrow> Some (si\<lparr>reass := rs, agg := ag\<rparr>))"
    unfolding si_def st1_def orb_def
    using frame_step_decoded [where cfg = cfg and st = st and fr = "fr\<lparr>rdhFeeID := 0\<rparr>" and l = GBTLinkIDIntRec]
    by (simp add: link_of_def ctp_consts cong: option.case_cong)
  have same: "reass su = reass si" "lumiPointsHBF1 su = lumiPointsHBF1 si" "orbit0 su = orbit0 si"
      "countsMB (agg su) = countsMB (agg si)"
    using assms(3) by (simp_all add: su_def si_def st1_def orbit_change_lumi)
  have cnt: "countsMB (process_diglets cfg l NIntRecPayload (mk_pldmask NIntRecPayload) orb (agg su) ds) =
      countsMB (process_diglets cfg GBTLinkIDIntRec NIntRecPayload (mk_pldmask NIntRecPayload) orb (agg si) ds)" for ds
    by (rule process_diglets_countsMB) (rule same(4))
  have dig: "digits (process_diglets cfg l NIntRecPayload (mk_pldmask NIntRecPayload) orb (agg su) ds) = digits (agg st)" for ds
    using assms(1,2) by (simp add: process_diglets_unknown_digits l_def su_def st1_def)
  show ?thesis
    unfolding u i using same cnt dig
    by (simp add: obs_def bytes_loop_compose split: option.split)
qed

theorem unknown_link_decoded_as_intrec_witness:
  "map_option (\<lambda>s. (reass s, countsMB (agg s), lumiPointsHBF1 s, orbit0 s)) (frame_step \<lparr>mDoDigits = True, mDoLumi = True, mNTFToIntegrate = 90, mVerbose = False, mTVXMask = 0x1000, log_debug = False\<rparr> (run_init NIntRecPayload\<lparr>first := False, orbit0 := 5\<rparr>) \<lparr>rdhTriggerOrbit = 5, rdhFeeID = 0x200, fpayload = envelope 0x1005 [0, 0, 0, 0, 0, 0]\<rparr>) =
     map_option (\<lambda>s. (reass s, countsMB (agg s), lumiPointsHBF1 s, orbit0 s)) (frame_step \<lparr>mDoDigits = True, mDoLumi = True, mNTFToIntegrate = 90, mVerbose = False, mTVXMask = 0x1000, log_debug = False\<rparr> (run_init NIntRecPayload\<lparr>first := False, orbit0 := 5\<rparr>) (\<lparr>rdhTriggerOrbit = 5, rdhFeeID = 0x200, fpayload = envelope 0x1005 [0, 0, 0, 0, 0, 0]\<rparr>\<lparr>rdhFeeID := 0\<rparr>)) \<and>
   map_option (digits \<circ> agg) (frame_step \<lparr>mDoDigits = True, mDoLumi = True, mNTFToIntegrate = 90, mVerbose = False, mTVXMask = 0x1000, log_debug = False\<rparr> (run_init NIntRecPayload\<lparr>first := False, orbit0 := 5\<rparr>) \<lparr>rdhTriggerOrbit = 5, rdhFeeID = 0x200, fpayload = envelope 0x1005 [0, 0, 0, 0, 0, 0]\<rparr>) = map_option (\<lambda>_. Map.empty) (frame_step \<lparr>mDoDigits = True, mDoLumi = True, mNTFToIntegrate = 90, mVerbose = False, mTVXMask = 0x1000, log_debug = False\<rparr> (run_init NIntRecPayload\<lparr>first := False, orbit0 := 5\<rparr>) \<lparr>rdhTriggerOrbit = 5, rdhFeeID = 0x200, fpayload = envelope 0x1005 [0, 0, 0, 0, 0, 0]\<rparr>) \<and>
   map_option (countsMB \<circ> agg) (frame_step \<lparr>mDoDigits = True, mDoLumi = True, mNTFToIntegrate = 90, mVerbose = False, mTVXMask = 0x1000, log_debug = False\<rparr> (run_init NIntRecPayload\<lparr>first := False, orbit0 := 5\<rparr>) \<lparr>rdhTriggerOrbit = 5, rdhFeeID = 0x200, fpayload = envelope 0x1005 [0, 0, 0, 0, 0, 0]\<rparr>) = Some 1"
proof -
  have w: "assemble 0 0 (envelope 0x1005 [0, 0, 0, 0, 0, 0]) = [0x1005]"
    using assemble_envelope [of "[0, 0, 0, 0, 0, 0]" "0x1005" "[]"] by simp
  have c: "map_option (countsMB \<circ> agg) (frame_step \<lparr>mDoDigits = True, mDoLumi = True, mNTFToIntegrate = 90, mVerbose = False, mTVXMask = 0x1000, log_debug = False\<rparr> (run_init NIntRecPayload\<lparr>first := False, orbit0 := 5\<rparr>) \<lparr>rdhTriggerOrbit = 5, rdhFeeID = 0x200, fpayload = envelope 0x1005 [0, 0, 0, 0, 0, 0]\<rparr>) = Some 1"
    by (simp add: frame_step_def Let_def link_of_def run_init_def orbit_change_def bytes_loop_compose w
        unpack_eval process_diglets_def process_diglet_cases count_mb_def ctp_consts)
  show ?thesis
    using unknown_link_decoded_as_intrec [of "\<lparr>rdhTriggerOrbit = 5, rdhFeeID = 0x200, fpayload = envelope 0x1005 [0, 0, 0, 0, 0, 0]\<rparr>" "(run_init NIntRecPayload\<lparr>first := False, orbit0 := 5\<rparr>)" "\<lparr>mDoDigits = True, mDoLumi = True, mNTFToIntegrate = 90, mVerbose = False, mTVXMask = 0x1000, log_debug = False\<rparr>"] c
    by (simp add: link_of_def run_init_def ctp_consts)
qed

text \<open>
  C27 (functional). A time frame with an empty 0xDEADBEEF input is not decoded: the
  streak counter is increased, the digit output (if on) is the empty list, the
  luminosity output (if on) repeats the previous record, and the luminosity window is
  unchanged.
\<close>

theorem dead_tf_outputs:
  assumes "0 \<in> set (dummySizes tf)"
  shows "\<exists>as. run d payload0 tf = Some (d\<lparr>contDeadBeef := contDeadBeef d + 1\<rparr>, dead_outputs d, as) \<and>
     dead_outputs d = (if mDoDigits (dcfg d) then [DigitsOut []] else []) @
                      (if mDoLumi (dcfg d) then [LumiOut (mOutputLumiInfo (dlumi d))] else [])"
  using assms by (simp add: run_def deadbeef_guard_def dead_outputs_def Let_def)

theorem dead_tf_outputs_witness:
  "\<exists>as. run \<lparr>dcfg = \<lparr>mDoDigits = True, mDoLumi = True, mNTFToIntegrate = 90, mVerbose = False,
                   mTVXMask = 0x1000, log_debug = False\<rparr>,
           dlumi = lumi_state_init, contDeadBeef = 3, maxWarnDeadBeef = 10\<rparr> 0
       \<lparr>dummySizes = [0], frames = []\<rparr> =
     Some (\<lparr>dcfg = \<lparr>mDoDigits = True, mDoLumi = True, mNTFToIntegrate = 90, mVerbose = False,
                   mTVXMask = 0x1000, log_debug = False\<rparr>,
           dlumi = lumi_state_init, contDeadBeef = 4, maxWarnDeadBeef = 10\<rparr>,
           [DigitsOut [], LumiOut lumi_info_default], as)"
  using dead_tf_outputs [of "\<lparr>dummySizes = [0], frames = []\<rparr>"
      "\<lparr>dcfg = \<lparr>mDoDigits = True, mDoLumi = True, mNTFToIntegrate = 90, mVerbose = False,
                   mTVXMask = 0x1000, log_debug = False\<rparr>,
           dlumi = lumi_state_init, contDeadBeef = 3, maxWarnDeadBeef = 10\<rparr>" 0]
  by (simp add: lumi_state_init_def dead_outputs_def)

text \<open>
  C28 (functional). With digits off, a class page is skipped entirely: the reassembly
  state, the aggregator (digits and minimum-bias count) and the luminosity points are
  unchanged; only \<open>payloadCTP\<close> and, on the first page, \<open>orbit0\<close> are set.
\<close>

theorem class_page_skipped_without_digits:
  assumes "link_of (rdhFeeID fr) = GBTLinkIDClassRec" "\<not> mDoDigits cfg"
  shows "frame_step cfg st fr =
    Some ((if first st then st\<lparr>orbit0 := rdhTriggerOrbit fr, first := False\<rparr> else st)\<lparr>payloadCTP := NClassPayload\<rparr>)"
  using assms by (simp add: frame_step_def Let_def)

theorem class_page_skipped_without_digits_witness:
  "frame_step \<lparr>mDoDigits = False, mDoLumi = True, mNTFToIntegrate = 90, mVerbose = False,
                mTVXMask = 0x1000, log_debug = False\<rparr> (run_init NIntRecPayload\<lparr>first := False, orbit0 := 5\<rparr>)
     \<lparr>rdhTriggerOrbit = 6, rdhFeeID = 0x100, fpayload = replicate 16 255\<rparr> =
   Some (run_init NClassPayload\<lparr>first := False, orbit0 := 5\<rparr>)"
  using class_page_skipped_without_digits [of "\<lparr>rdhTriggerOrbit = 6, rdhFeeID = 0x100, fpayload = replicate 16 255\<rparr>"
      "\<lparr>mDoDigits = False, mDoLumi = True, mNTFToIntegrate = 90, mVerbose = False, mTVXMask = 0x1000, log_debug = False\<rparr>"
      "run_init NIntRecPayload\<lparr>first := False, orbit0 := 5\<rparr>"]
  by (simp add: link_of_def run_init_def ctp_consts)

text \<open>
  C29 (error). \<open>getRawDecoderSpec\<close> fails exactly when both outputs are disabled;
  otherwise it declares one output per enabled kind, the raw-data input and, if asked,
  the sub-time-frame input, and options whose defaults, once read by \<open>init\<close>, give a
  window of 90 time frames and no verbose logging.
\<close>

theorem getRawDecoderSpec_contract:
  "(getRawDecoderSpec askDISTSTF dgts lumi = Inl AllOutputsDisabled \<longleftrightarrow> \<not> dgts \<and> \<not> lumi) \<and>
   (dgts \<or> lumi \<longrightarrow>
     (\<exists>ps. getRawDecoderSpec askDISTSTF dgts lumi = Inr ps \<and>
        map (\<lambda>(_, dsc, _). dsc) (ps_outputs ps) = (if dgts then [''DIGITS''] else []) @ (if lumi then [''LUMI''] else []) \<and>
        length (ps_inputs ps) = (if askDISTSTF then 2 else 1) \<and> ps_task ps = (dgts, lumi) \<and>
        mNTFToIntegrate (dcfg (init (ps_options ps) d)) = 90 \<and> \<not> mVerbose (dcfg (init (ps_options ps) d))))"
  by (simp add: getRawDecoderSpec_def init_def default_options_def)

theorem getRawDecoderSpec_contract_witness:
  "getRawDecoderSpec False False False = Inl AllOutputsDisabled \<and>
   (\<exists>ps. getRawDecoderSpec True True False = Inr ps \<and> map (\<lambda>(_, dsc, _). dsc) (ps_outputs ps) = [''DIGITS''] \<and>
      length (ps_inputs ps) = 2)"
  using getRawDecoderSpec_contract [of False False False] getRawDecoderSpec_contract [of True True False]
  by fastforce

text \<open>
  C37 (equivalence). Decoding a page of either link, as the code interleaves it (each
  word unpacked and its diglets aggregated as soon as its tenth byte arrives), is the
  staged pipeline: reassemble all words of the page, unpack them in order from the
  reassembly state left after the orbit change, then aggregate all the diglets.
\<close>

theorem frame_step_pipeline:
  fixes cfg :: decoder_cfg and st :: run_state and fr :: frame
  assumes "link_of (rdhFeeID fr) = l" "l = GBTLinkIDIntRec \<or> (l = GBTLinkIDClassRec \<and> mDoDigits cfg)"
  defines "p \<equiv> (if l = GBTLinkIDIntRec then NIntRecPayload else NClassPayload)"
  defines "st3 \<equiv> orbit_change cfg (rdhTriggerOrbit fr)
             ((if first st then st\<lparr>orbit0 := rdhTriggerOrbit fr, first := False\<rparr> else st)\<lparr>payloadCTP := p\<rparr>)"
  shows "frame_step cfg st fr =
    map_option (\<lambda>(ds, rs). st3\<lparr>reass := rs, agg := process_diglets cfg l p (mk_pldmask p) (rdhTriggerOrbit fr) (agg st3) ds\<rparr>)
      (unpack_words p (reass st3) (assemble 0 0 (fpayload fr)))"
proof -
  have "frame_step cfg st fr =
      (case bytes_loop cfg l p (mk_pldmask p) (rdhTriggerOrbit fr) 0 0 (reass st3) (agg st3) (fpayload fr) of
         None \<Rightarrow> None
       | Some (rs, ag) \<Rightarrow> Some (st3\<lparr>reass := rs, agg := ag\<rparr>))"
    unfolding p_def st3_def by (rule frame_step_decoded [OF assms(1,2)])
  then show ?thesis
    by (simp add: bytes_loop_compose split: option.split)
qed

theorem frame_step_pipeline_witness:
  "frame_step \<lparr>mDoDigits = True, mDoLumi = True, mNTFToIntegrate = 90, mVerbose = False, mTVXMask = 0x1000,
                log_debug = False\<rparr> (run_init 0) \<lparr>rdhTriggerOrbit = 5, rdhFeeID = 0x100, fpayload = []\<rparr> =
    map_option (\<lambda>(ds, rs). (orbit_change \<lparr>mDoDigits = True, mDoLumi = True, mNTFToIntegrate = 90, mVerbose = False,
          mTVXMask = 0x1000, log_debug = False\<rparr> 5 ((run_init 0)\<lparr>orbit0 := 5, first := False, payloadCTP := NClassPayload\<rparr>))
        \<lparr>reass := rs, agg := process_diglets \<lparr>mDoDigits = True, mDoLumi = True, mNTFToIntegrate = 90, mVerbose = False,
          mTVXMask = 0x1000, log_debug = False\<rparr> GBTLinkIDClassRec NClassPayload (mk_pldmask NClassPayload) 5
          (agg (orbit_change \<lparr>mDoDigits = True, mDoLumi = True, mNTFToIntegrate = 90, mVerbose = False,
          mTVXMask = 0x1000, log_debug = False\<rparr> 5 ((run_init 0)\<lparr>orbit0 := 5, first := False, payloadCTP := NClassPayload\<rparr>))) ds\<rparr>)
      (unpack_words NClassPayload (reass (orbit_change \<lparr>mDoDigits = True, mDoLumi = True, mNTFToIntegrate = 90, mVerbose = False,
          mTVXMask = 0x1000, log_debug = False\<rparr> 5 ((run_init 0)\<lparr>orbit0 := 5, first := False, payloadCTP := NClassPayload\<rparr>)))
        (assemble 0 0 []))"
  using frame_step_pipeline [of "\<lparr>rdhTriggerOrbit = 5, rdhFeeID = 0x100, fpayload = []\<rparr>" GBTLinkIDClassRec
      "\<lparr>mDoDigits = True, mDoLumi = True, mNTFToIntegrate = 90, mVerbose = False, mTVXMask = 0x1000, log_debug = False\<rparr>"
      "run_init 0"]
  by (simp add: link_of_def run_init_def ctp_consts)

end
