(* ===== verification/Generator.thy ===== *)
theory Generator
  imports Prelude
begin

text \<open>
  The hybrid event generator \<open>o2::eventgen::GeneratorHybrid\<close>
  (\<open>src/Generators/src/GeneratorHybrid.cxx\<close>, \<open>GeneratorHybrid.h\<close>): a generator that
  owns a list of sub-generators built from their names, initialises them with the
  Pythia8 configuration their name selects, and for each event picks one at random,
  lets it generate, and copies its particles with their status re-encoded. The
  sub-generators' physics, the random number generator and the status encoding of
  \<open>MCGenStatusEncoding\<close> are outside the sources: they are parameters here (the drawn
  index, a function from generator and event number to particles, an encoding
  function). The base class \<open>Generator\<close> is kept to the state the hybrid touches: the
  sub-generator names (\<open>addSubGenerator\<close>), the notified index
  (\<open>notifySubGenerator\<close>), its particle container \<open>mParticles\<close>. Undefined behaviour
  (an index out of range of a \<open>std::vector\<close>, \<open>std::string\<close> built from a null
  \<open>getenv\<close>) is the value \<open>None\<close>.
\<close>

section \<open>Data\<close>

text \<open>The names the constructor recognises (header, line 49).\<close>

definition generatorNames :: "string list" where
  "generatorNames = [''extkinO2'', ''boxgen'', ''external'', ''pythia8'', ''pythia8pp'', ''pythia8hi'',
                     ''pythia8hf'', ''pythia8powheg'']"

text \<open>The sub-generators the constructor can build, with their constructor arguments.\<close>

datatype gen_kind =
    BoxGenerator "int list"
  | GeneratorPythia8
  | GeneratorFromO2Kine string

text \<open>A particle: PDG code, status code and the \<open>kToBeDone\<close> bit.\<close>

record particle =
  p_pdg :: int
  p_status :: int
  p_toBeDone :: bool

text \<open>A sub-generator: its kind, its Pythia8 configuration, and its event state.\<close>

record subgen =
  sg_kind :: gen_kind
  sg_config :: "string option"
  sg_initialised :: bool
  sg_particles :: "particle list"
  sg_events :: nat

definition subgen_new :: "gen_kind \<Rightarrow> subgen" where
  "subgen_new k = \<lparr>sg_kind = k, sg_config = None, sg_initialised = False, sg_particles = [], sg_events = 0\<rparr>"

text \<open>The members of the hybrid (header, lines 47--51) and the base-class state it uses.\<close>

record hybrid =
  gens :: "subgen list"
  mGens :: "string list"
  mIndex :: int
  mParticles :: "particle list"
  subGenerators :: "nat \<Rightarrow> string option"
  notified :: "nat option"

section \<open>Construction\<close>

text \<open>\<open>gen.compare(0, 7, "pythia8") == 0\<close>: the first seven characters are \<open>pythia8\<close>.\<close>

definition is_pythia8 :: "string \<Rightarrow> bool" where
  "is_pythia8 gen \<longleftrightarrow> take 7 gen = ''pythia8''"

text \<open>The body of the constructor's loop over the requested names (lines 23--43).\<close>

definition add_gen :: "string \<Rightarrow> hybrid \<Rightarrow> string \<Rightarrow> hybrid" where
  "add_gen extname st gen =
    (if gen \<in> set generatorNames then
       (if gen = ''boxgen'' then
          st\<lparr>gens := gens st @ [subgen_new (BoxGenerator [22, 10, -5, 5, 0, 10, 0, 360])], mGens := mGens st @ [gen]\<rparr>
        else if is_pythia8 gen then
          st\<lparr>gens := gens st @ [subgen_new GeneratorPythia8], mGens := mGens st @ [gen]\<rparr>
        else if gen = ''extkinO2'' then
          st\<lparr>gens := gens st @ [subgen_new (GeneratorFromO2Kine extname)], mGens := mGens st @ [gen]\<rparr>
        else st)
     else st)"

definition hybrid_empty :: hybrid where
  "hybrid_empty = \<lparr>gens = [], mGens = [], mIndex = -1, mParticles = [], subGenerators = Map.empty, notified = None\<rparr>"

text \<open>\<open>GeneratorHybrid(inputgens)\<close> (lines 20--44); \<open>extname\<close> is the O2Kine file name parameter.\<close>

definition GeneratorHybrid :: "string \<Rightarrow> string list \<Rightarrow> hybrid" where
  "GeneratorHybrid extname inputgens = foldl (add_gen extname) hybrid_empty inputgens"

section \<open>Initialisation\<close>

text \<open>
  The configuration \<open>Init\<close> gives a sub-generator from its name (lines 52--72), given
  the value of \<open>O2_ROOT\<close>: \<open>Some None\<close> leaves the configuration alone, \<open>None\<close> is the
  undefined \<open>std::string(nullptr)\<close> of an unset variable.
\<close>

definition pythia_config :: "string option \<Rightarrow> string \<Rightarrow> string option option" where
  "pythia_config o2root name =
    (if name = ''pythia8'' then Some (Some '''')
     else if name = ''pythia8pp'' then map_option (\<lambda>r. Some (r @ ''/share/Generators/egconfig/pythia8_inel.cfg'')) o2root
     else if name = ''pythia8hf'' then map_option (\<lambda>r. Some (r @ ''/share/Generators/egconfig/pythia8_hf.cfg'')) o2root
     else if name = ''pythia8hi'' then map_option (\<lambda>r. Some (r @ ''/share/Generators/egconfig/pythia8_hi.cfg'')) o2root
     else if name = ''pythia8powheg'' then map_option (\<lambda>r. Some (r @ ''/share/Generators/egconfig/pythia8_powheg.cfg'')) o2root
     else Some None)"

text \<open>\<open>setConfig\<close> when a configuration is chosen, then \<open>gen->Init()\<close> (lines 55--73).\<close>

definition init_sub :: "string option \<Rightarrow> subgen \<Rightarrow> subgen" where
  "init_sub cfg g = g\<lparr>sg_config := (case cfg of None \<Rightarrow> sg_config g | Some c \<Rightarrow> Some c), sg_initialised := True\<rparr>"

text \<open>
  One pass of the loop (lines 52--75): configure and initialise \<open>gens[count]\<close>, then
  \<open>addSubGenerator(count, mGens[count])\<close>; \<open>mGens[count]\<close> out of range is undefined.
\<close>

definition init_one :: "string option \<Rightarrow> hybrid \<Rightarrow> nat \<Rightarrow> hybrid option" where
  "init_one o2root st count =
    (if count < length (mGens st) \<and> count < length (gens st) then
       (case pythia_config o2root (mGens st ! count) of
          None \<Rightarrow> None
        | Some cfg \<Rightarrow>
            Some (st\<lparr>gens := (gens st)[count := init_sub cfg (gens st ! count)],
                     subGenerators := (subGenerators st)(count \<mapsto> mGens st ! count)\<rparr>))
     else None)"

fun init_loop :: "string option \<Rightarrow> hybrid \<Rightarrow> nat list \<Rightarrow> hybrid option" where
  "init_loop o2root st [] = Some st"
| "init_loop o2root st (c # cs) = (case init_one o2root st c of None \<Rightarrow> None | Some st' \<Rightarrow> init_loop o2root st' cs)"

text \<open>\<open>Init\<close> (lines 46--78): the loop over \<open>gens\<close> with its counter.\<close>

definition Init :: "string option \<Rightarrow> hybrid \<Rightarrow> hybrid option" where
  "Init o2root st = init_loop o2root st [0..<length (gens st)]"

section \<open>Events\<close>

text \<open>
  \<open>generateEvent\<close> (lines 80--91); \<open>k\<close> is the value of \<open>gRandom->Integer(gens.size())\<close>,
  which is 0 for an empty list. The chosen sub-generator clears its particles and
  generates its next event.
\<close>

definition generateEvent :: "hybrid \<Rightarrow> nat \<Rightarrow> hybrid option" where
  "generateEvent st k =
    (if k < length (gens st) then
       (let g = gens st ! k
        in Some (st\<lparr>mIndex := int k,
                    gens := (gens st)[k := g\<lparr>sg_particles := [], sg_events := sg_events g + 1\<rparr>],
                    notified := Some k\<rparr>))
     else None)"

text \<open>The status fix of lines 100--105, for an encoding \<open>enc hepmc gen\<close>.\<close>

definition fix_status :: "(int \<Rightarrow> int \<Rightarrow> int) \<Rightarrow> particle \<Rightarrow> particle" where
  "fix_status enc p = p\<lparr>p_status := enc (p_status p) (p_status p), p_toBeDone := True\<rparr>"

text \<open>
  \<open>importParticles\<close> (lines 93--108): the chosen sub-generator imports the particles of
  its current event, \<open>ev kind n\<close>, and they are copied with their status fixed.
\<close>

definition importParticles ::
  "(gen_kind \<Rightarrow> nat \<Rightarrow> particle list) \<Rightarrow> (int \<Rightarrow> int \<Rightarrow> int) \<Rightarrow> hybrid \<Rightarrow> hybrid option" where
  "importParticles ev enc st =
    (if 0 \<le> mIndex st \<and> nat (mIndex st) < length (gens st) then
       (let k = nat (mIndex st); g = gens st ! k; ps = ev (sg_kind g) (sg_events g)
        in Some (st\<lparr>gens := (gens st)[k := g\<lparr>sg_particles := ps\<rparr>], mParticles := map (fix_status enc) ps\<rparr>))
     else None)"


section \<open>Lemmas\<close>

text \<open>The names the constructor keeps, and the sub-generator it builds for each.\<close>

definition kept_name :: "string \<Rightarrow> bool" where
  "kept_name g \<longleftrightarrow> g \<in> set generatorNames \<and> g \<noteq> ''external''"

definition kind_of :: "string \<Rightarrow> string \<Rightarrow> gen_kind" where
  "kind_of extname g =
    (if g = ''boxgen'' then BoxGenerator [22, 10, -5, 5, 0, 10, 0, 360]
     else if is_pythia8 g then GeneratorPythia8 else GeneratorFromO2Kine extname)"

lemma add_gen_eq:
  "add_gen extname st g =
    (if kept_name g then st\<lparr>gens := gens st @ [subgen_new (kind_of extname g)], mGens := mGens st @ [g]\<rparr> else st)"
  by (auto simp: add_gen_def kept_name_def kind_of_def generatorNames_def is_pythia8_def)

lemma foldl_add_gen:
  "foldl (add_gen extname) st ins =
    st\<lparr>gens := gens st @ map (subgen_new \<circ> kind_of extname) (filter kept_name ins),
       mGens := mGens st @ filter kept_name ins\<rparr>"
  by (induction ins arbitrary: st) (simp_all add: add_gen_eq)

lemma GeneratorHybrid_eq:
  "GeneratorHybrid extname ins =
    hybrid_empty\<lparr>gens := map (subgen_new \<circ> kind_of extname) (filter kept_name ins), mGens := filter kept_name ins\<rparr>"
  by (simp add: GeneratorHybrid_def foldl_add_gen hybrid_empty_def)

lemma init_one_some:
  assumes "c < length (gens st)" "length (gens st) = length (mGens st)" "pythia_config r (mGens st ! c) = Some cfg"
  shows "init_one r st c = Some (st\<lparr>gens := (gens st)[c := init_sub cfg (gens st ! c)],
                                   subGenerators := (subGenerators st)(c \<mapsto> mGens st ! c)\<rparr>)"
  using assms by (simp add: init_one_def)

text \<open>The loop over distinct indices in range, when every configuration is defined.\<close>

lemma init_loop_some:
  assumes "length (gens st) = length (mGens st)" "\<forall>n. pythia_config r n \<noteq> None"
    and "distinct cs" "\<forall>c \<in> set cs. c < length (gens st)"
  shows "init_loop r st cs =
    Some (st\<lparr>gens := map (\<lambda>i. if i \<in> set cs then init_sub (the (pythia_config r (mGens st ! i))) (gens st ! i)
                              else gens st ! i) [0..<length (gens st)],
             subGenerators := subGenerators st ++ map_of (map (\<lambda>c. (c, mGens st ! c)) cs)\<rparr>)"
  using assms(1,3,4)
proof (induction cs arbitrary: st)
  case Nil
  show ?case by (simp add: map_nth)
next
  case (Cons c cs)
  obtain cfg where cfg: "pythia_config r (mGens st ! c) = Some cfg"
    using assms(2) by blast
  define st1 where "st1 = st\<lparr>gens := (gens st)[c := init_sub cfg (gens st ! c)],
                                subGenerators := (subGenerators st)(c \<mapsto> mGens st ! c)\<rparr>"
  have one: "init_one r st c = Some st1"
    using init_one_some [OF _ Cons.prems(1) cfg] Cons.prems(3) by (simp add: st1_def)
  have IH: "init_loop r st1 cs =
    Some (st1\<lparr>gens := map (\<lambda>i. if i \<in> set cs then init_sub (the (pythia_config r (mGens st1 ! i))) (gens st1 ! i)
                              else gens st1 ! i) [0..<length (gens st1)],
             subGenerators := subGenerators st1 ++ map_of (map (\<lambda>c. (c, mGens st1 ! c)) cs)\<rparr>)"
    by (rule Cons.IH) (use Cons.prems in \<open>simp_all add: st1_def\<close>)
  have c_notin: "c \<notin> dom (map_of (map (\<lambda>c. (c, mGens st ! c)) cs))"
    using Cons.prems(2) by (auto simp: dom_map_of_conv_image_fst)
  have m1: "mGens st1 = mGens st" "length (gens st1) = length (gens st)"
    by (simp_all add: st1_def)
  have g: "map (\<lambda>i. if i \<in> set cs then init_sub (the (pythia_config r (mGens st1 ! i))) (gens st1 ! i)
                     else gens st1 ! i) [0..<length (gens st1)] =
      map (\<lambda>i. if i \<in> set (c # cs) then init_sub (the (pythia_config r (mGens st ! i))) (gens st ! i)
                     else gens st ! i) [0..<length (gens st)]"
    using Cons.prems(2) cfg by (auto simp: st1_def intro!: map_cong) (metis nth_list_update_neq)
  have sg: "subGenerators st1 ++ map_of (map (\<lambda>c. (c, mGens st1 ! c)) cs) =
      subGenerators st ++ map_of (map (\<lambda>c. (c, mGens st ! c)) (c # cs))"
    using c_notin by (simp add: st1_def map_add_upd_left)
  have "init_loop r st (c # cs) = init_loop r st1 cs"
    using one by simp
  also have "\<dots> = Some (st1\<lparr>gens := map (\<lambda>i. if i \<in> set (c # cs) then init_sub (the (pythia_config r (mGens st ! i))) (gens st ! i)
                     else gens st ! i) [0..<length (gens st)],
             subGenerators := subGenerators st ++ map_of (map (\<lambda>c. (c, mGens st ! c)) (c # cs))\<rparr>)"
    unfolding IH g sg ..
  also have "\<dots> = Some (st\<lparr>gens := map (\<lambda>i. if i \<in> set (c # cs) then init_sub (the (pythia_config r (mGens st ! i))) (gens st ! i)
                     else gens st ! i) [0..<length (gens st)],
             subGenerators := subGenerators st ++ map_of (map (\<lambda>c. (c, mGens st ! c)) (c # cs))\<rparr>)"
    by (simp add: st1_def)
  finally show ?case .
qed

lemma init_loop_none:
  assumes "c \<in> set cs" "pythia_config r (mGens st ! c) = None"
  shows "init_loop r st cs = None"
  using assms
proof (induction cs arbitrary: st)
  case Nil
  then show ?case by simp
next
  case (Cons c' cs)
  show ?case
  proof (cases "init_one r st c'")
    case None
    then show ?thesis by simp
  next
    case (Some st1)
    then have "mGens st1 = mGens st" "c' \<noteq> c"
      using Cons.prems(2) by (auto simp: init_one_def split: if_splits option.splits)
    then show ?thesis
      using Some Cons.IH [of st1] Cons.prems by simp
  qed
qed

lemma init_loop_mIndex:
  "init_loop r st cs = Some st' \<Longrightarrow> mIndex st' = mIndex st"
proof (induction cs arbitrary: st)
  case Nil
  then show ?case by simp
next
  case (Cons c cs)
  then show ?case
    by (auto simp: init_one_def split: option.splits if_splits)
qed

section \<open>Claims on the hybrid generator\<close>

text \<open>
  C31 (functional). The constructor keeps, in order, the requested names that are in
  \<open>generatorNames\<close> except \<open>external\<close>, builds for each the sub-generator its name
  selects (the box gun, Pythia8 for every name starting with \<open>pythia8\<close>, or the O2
  kinematics reader), and starts with no chosen generator (\<open>mIndex = -1\<close>).
\<close>

theorem GeneratorHybrid_builds:
  "mGens (GeneratorHybrid extname ins) = filter kept_name ins \<and>
   gens (GeneratorHybrid extname ins) = map (subgen_new \<circ> kind_of extname) (filter kept_name ins) \<and>
   mIndex (GeneratorHybrid extname ins) = -1"
  by (simp add: GeneratorHybrid_eq hybrid_empty_def)

text \<open>
  C32 (error). \<open>external\<close> is listed among the available generators but no branch
  builds it: a hybrid requested with no other recognised name initialises, yet its
  \<open>generateEvent\<close> reads \<open>mGens[0]\<close> of an empty vector, whatever the random draw.
\<close>

theorem external_only_no_event:
  assumes "filter kept_name ins = []"
  shows "''external'' \<in> set generatorNames \<and> Init r (GeneratorHybrid extname ins) = Some (GeneratorHybrid extname ins) \<and>
    generateEvent (GeneratorHybrid extname ins) k = None"
  using assms by (simp add: GeneratorHybrid_eq hybrid_empty_def Init_def generateEvent_def generatorNames_def)

theorem external_only_no_event_witness:
  "''external'' \<in> set generatorNames \<and>
   Init None (GeneratorHybrid ''kine.root'' [''external'', ''herwig7'']) = Some (GeneratorHybrid ''kine.root'' [''external'', ''herwig7'']) \<and>
   generateEvent (GeneratorHybrid ''kine.root'' [''external'', ''herwig7'']) 0 = None"
  using external_only_no_event [of "[''external'', ''herwig7'']" None "''kine.root''" 0]
  by (simp add: kept_name_def generatorNames_def)

text \<open>
  C33 (functional). With \<open>O2_ROOT\<close> set, \<open>Init\<close> returns, configures each sub-generator
  with the Pythia8 configuration its own name selects (and no other), initialises every
  one, and registers each under its index with its name.
\<close>

theorem Init_configures:
  assumes "o2root \<noteq> None"
  shows "\<exists>st'. Init o2root (GeneratorHybrid extname ins) = Some st' \<and>
    mGens st' = filter kept_name ins \<and>
    gens st' = map (\<lambda>(n, g). init_sub (the (pythia_config o2root n)) g)
                 (zip (mGens st') (gens (GeneratorHybrid extname ins))) \<and>
    (\<forall>i. subGenerators st' i = (if i < length (mGens st') then Some (mGens st' ! i) else None))"
proof -
  define st where "st = GeneratorHybrid extname ins"
  have len: "length (gens st) = length (mGens st)"
    by (simp add: st_def GeneratorHybrid_eq hybrid_empty_def)
  have cfg: "\<forall>n. pythia_config o2root n \<noteq> None"
    using assms by (auto simp: pythia_config_def)
  have run: "Init o2root st =
    Some (st\<lparr>gens := map (\<lambda>i. init_sub (the (pythia_config o2root (mGens st ! i))) (gens st ! i)) [0..<length (gens st)],
             subGenerators := subGenerators st ++ map_of (map (\<lambda>c. (c, mGens st ! c)) [0..<length (gens st)])\<rparr>)"
    using init_loop_some [OF len cfg, of "[0..<length (gens st)]"] by (simp add: Init_def)
  have sub0: "subGenerators st = Map.empty"
    by (simp add: st_def GeneratorHybrid_eq hybrid_empty_def)
  have "map (\<lambda>i. init_sub (the (pythia_config o2root (mGens st ! i))) (gens st ! i)) [0..<length (gens st)] =
      map (\<lambda>(n, g). init_sub (the (pythia_config o2root n)) g) (zip (mGens st) (gens st))"
    using len by (intro nth_equalityI) simp_all
  moreover have "\<forall>i. (map_of (map (\<lambda>c. (c, mGens st ! c)) [0..<length (gens st)])) i =
      (if i < length (mGens st) then Some (mGens st ! i) else None)"
    using len by (auto simp: map_of_map_restrict restrict_map_def)
  ultimately show ?thesis
    using run sub0 by (simp add: st_def GeneratorHybrid_eq hybrid_empty_def)
qed

theorem Init_configures_witness:
  "\<exists>st'. Init (Some ''/o2'') (GeneratorHybrid ''kine.root'' [''pythia8pp'', ''boxgen'']) = Some st' \<and>
    mGens st' = [''pythia8pp'', ''boxgen''] \<and>
    gens st' = map (\<lambda>(n, g). init_sub (the (pythia_config (Some ''/o2'') n)) g)
                 (zip (mGens st') (gens (GeneratorHybrid ''kine.root'' [''pythia8pp'', ''boxgen'']))) \<and>
    (\<forall>i. subGenerators st' i = (if i < length (mGens st') then Some (mGens st' ! i) else None))"
  using Init_configures [of "Some ''/o2''" "''kine.root''" "[''pythia8pp'', ''boxgen'']"]
  by (simp add: kept_name_def generatorNames_def)

text \<open>
  C34 (error). With \<open>O2_ROOT\<close> unset, \<open>Init\<close> of a hybrid holding one of the Pythia8
  generators whose configuration file lives under \<open>O2_ROOT\<close> builds a
  \<open>std::string\<close> from a null pointer: it has no defined result.
\<close>

theorem Init_unset_root_fails:
  assumes "n \<in> set (filter kept_name ins)"
    and "n = ''pythia8pp'' \<or> n = ''pythia8hf'' \<or> n = ''pythia8hi'' \<or> n = ''pythia8powheg''"
  shows "Init None (GeneratorHybrid extname ins) = None"
proof -
  define st where "st = GeneratorHybrid extname ins"
  have "n \<in> set (mGens st)"
    using assms(1) by (simp add: st_def GeneratorHybrid_eq hybrid_empty_def)
  then obtain c where c: "c < length (mGens st)" "mGens st ! c = n"
    by (auto simp: in_set_conv_nth)
  have "c \<in> set [0..<length (gens st)]"
    using c(1) by (simp add: st_def GeneratorHybrid_eq hybrid_empty_def)
  moreover have "pythia_config None (mGens st ! c) = None"
    using assms(2) c(2) by (auto simp: pythia_config_def)
  ultimately show ?thesis
    unfolding st_def [symmetric] Init_def by (rule init_loop_none)
qed

theorem Init_unset_root_fails_witness:
  "Init None (GeneratorHybrid ''kine.root'' [''boxgen'', ''pythia8hi'']) = None"
  using Init_unset_root_fails [of "''pythia8hi''" "[''boxgen'', ''pythia8hi'']" "''kine.root''"]
  by (simp add: kept_name_def generatorNames_def)

text \<open>
  C35 (functional). For a draw \<open>k\<close> in range, \<open>generateEvent\<close> selects sub-generator
  \<open>k\<close>, which generates its next event, and notifies it; \<open>importParticles\<close> then
  returns exactly the particles of that event, in order, each with its status
  re-encoded and marked to be done.
\<close>

theorem generate_then_import:
  assumes "k < length (gens st)"
  shows "\<exists>st1 st2. generateEvent st k = Some st1 \<and> importParticles ev enc st1 = Some st2 \<and>
    mParticles st2 = map (fix_status enc) (ev (sg_kind (gens st ! k)) (Suc (sg_events (gens st ! k)))) \<and>
    list_all p_toBeDone (mParticles st2) \<and> notified st2 = Some k \<and> mIndex st2 = int k"
  using assms by (simp add: generateEvent_def importParticles_def fix_status_def list_all_iff Let_def)

theorem generate_then_import_witness:
  "\<exists>st1 st2. generateEvent (GeneratorHybrid ''kine.root'' [''boxgen'', ''pythia8'']) 1 = Some st1 \<and>
     importParticles (\<lambda>_ n. [\<lparr>p_pdg = 211, p_status = int n, p_toBeDone = False\<rparr>]) (\<lambda>a b. a + 100 * b) st1 = Some st2 \<and>
     mParticles st2 = [\<lparr>p_pdg = 211, p_status = 101, p_toBeDone = True\<rparr>] \<and>
     list_all p_toBeDone (mParticles st2) \<and> notified st2 = Some 1 \<and> mIndex st2 = 1"
  using generate_then_import [of 1 "GeneratorHybrid ''kine.root'' [''boxgen'', ''pythia8'']"
      "\<lambda>_ n. [\<lparr>p_pdg = 211, p_status = int n, p_toBeDone = False\<rparr>]" "\<lambda>a b. a + 100 * b"]
  by (simp add: GeneratorHybrid_eq hybrid_empty_def kept_name_def generatorNames_def subgen_new_def fix_status_def)

text \<open>
  C36 (error). \<open>importParticles\<close> before any \<open>generateEvent\<close> indexes \<open>gens[-1]\<close>:
  on a freshly built hybrid, initialised or not, it has no defined result.
\<close>

theorem import_before_generate:
  "importParticles ev enc (GeneratorHybrid extname ins) = None \<and>
   Option.bind (Init r (GeneratorHybrid extname ins)) (importParticles ev enc) = None"
proof -
  have m: "mIndex (GeneratorHybrid extname ins) = -1"
    by (simp add: GeneratorHybrid_eq hybrid_empty_def)
  have "Init r (GeneratorHybrid extname ins) = Some st \<Longrightarrow> mIndex st = -1" for st
    using m init_loop_mIndex by (fastforce simp: Init_def)
  then show ?thesis
    using m by (cases "Init r (GeneratorHybrid extname ins)") (auto simp: importParticles_def)
qed

end
