(* ===== verification/Spec2Isabelle.thy ===== *)
theory Spec2Isabelle
  imports Decoder Generator
begin

text \<open>
  A verification development of the CTP raw-to-digit decoder of ALICE O2
  (\<open>src/Detectors/CTP/workflow/src/RawDecoderSpec.cxx\<close>) and of the hybrid event
  generator (\<open>src/Generators/src/GeneratorHybrid.cxx\<close>).

  \<^bold>\<open>Parts of the program.\<close> \<open>RawDecoderSpec::run\<close> is called once per time frame. It
  first looks for an empty 0xDEADBEEF placeholder input (the dead-input guard) and, if
  there is one, sends empty outputs and returns. Otherwise it walks the raw-data pages,
  classifies each by the CRU link in its FEE id (interaction records, 60-bit payloads,
  or trigger-class records, 76-bit payloads), resets the reassembly state and flushes a
  luminosity point when the orbit changes, reassembles the 80-bit GBT words from the
  page bytes (10 live bytes in every 16), cuts each word into payloads with
  \<open>makeGBTWordInverse\<close> (the unpacker), and feeds each payload to the digit map and to
  the minimum-bias counter. At the end it emits the digits in timestamp order and
  pushes the frame's count into a sliding window of past frames.
  \<open>getRawDecoderSpec\<close> and \<open>init\<close> configure the task.

  \<^bold>\<open>Theories.\<close>
  \<^item> \<open>Prelude\<close>: machine types (\<open>gbtword80 = 80 word\<close> for \<open>std::bitset<80>\<close>,
    \<open>u8\<close> to \<open>u64\<close>), rule collections, lemmas on bit streams read as natural numbers.
  \<^item> \<open>CTPFormat\<close>: the data-format constants declared outside the sources
    (\<open>NGBT = 80\<close>, payload widths 60 and 76, link ids 0 and 1).
  \<^item> \<open>Unpacker\<close>: \<open>makeGBTWordInverse\<close> (lines 234--252) as a
    \<^theory_text>\<open>partial_function (option)\<close> over its \<open>while\<close> loop, the reassembly
    state \<open>remnant\<close>/\<open>size_gbt\<close>, an abstract chunker of the bit stream, and the
    firmware's packing. C1--C5: round trip, refinement of one call to the chunker,
    the invariant \<open>size_gbt \<le> Npld\<close>, the withheld last payload, termination.
  \<^item> \<open>Lumi\<close>: \<open>LumiInfo\<close>, the members \<open>mHistory\<close>, \<open>mCounts\<close>,
    \<open>mNHBIntegrated\<close>, \<open>mOutputLumiInfo\<close> and the end-of-frame update (lines 207--230).
    C6--C10: the window invariant, its contents, the frozen orbit counter, the
    unbounded window of a negative size, the zero window.
  \<^item> \<open>Digits\<close>: \<open>InteractionRecord\<close> (ordered by orbit, then bunch crossing),
    \<open>CTPDigit\<close>, \<open>pldmask\<close>, and the loop body over diglets (lines 135--190) with the
    \<open>std::map\<close> as a map. C11--C16: keys, first writer wins, empty payloads, the
    \<open>LOG(debug)\<close> insertion, the mask extraction, one digit for an input and a
    class payload of one timestamp in either order.
  \<^item> \<open>Reassembler\<close>: the \<open>wordCount\<close> loop that writes bytes into \<open>gbtWord\<close>.
    C17--C19: round trip of the 16-byte envelope, the word count, the byte write.
  \<^item> \<open>Guard\<close>: the 0xDEADBEEF check with the function-static streak counter.
    C20--C21: alarm bound over a dead streak, reset on data.
  \<^item> \<open>Decoder\<close>: the page loop (\<open>bytes_loop\<close>, \<open>orbit_change\<close>,
    \<open>frame_step\<close>, \<open>frames_loop\<close>), \<open>run\<close>, \<open>init\<close> and \<open>getRawDecoderSpec\<close>.
    The byte loop is shown equal to the reassembler, then the unpacker, then the
    aggregator. C22--C29: termination of \<open>run\<close> on well-formed page sequences, the
    undefined result after a class page and an interaction-record page of one orbit,
    the end-to-end page round trip, the orbit flush label, unknown-link pages decoded
    as interaction-record pages, dead time
    frames, skipped class pages, the task specification; C37: a decoded page is the
    staged pipeline reassemble, unpack, aggregate.
  \<^item> \<open>Generator\<close>: the hybrid event generator
    (\<open>src/Generators/src/GeneratorHybrid.cxx\<close>), independent of the decoder: the
    constructor's filtering of generator names, \<open>Init\<close> with the Pythia8 configuration
    chosen by name, \<open>generateEvent\<close> on a drawn index and \<open>importParticles\<close>. The random
    draw, the sub-generators' events and the status encoding are parameters.
    C31--C36: construction, the dropped \<open>external\<close> generator, configuration, unset
    \<open>O2_ROOT\<close>, the event round trip, import before any event.
  \<^item> This theory: C30, the ordered digit output of a whole run; C38, the
    consistency of the luminosity members and output across runs.

  \<^bold>\<open>Modelling choices.\<close> The \<open>uint32_t\<close> counters of the unpacker are \<open>nat\<close>:
  their subtractions never wrap when \<open>size_gbt \<le> Npld \<le> NGBT\<close>. When the loop
  runs with \<open>size_gbt > Npld\<close>, or when \<open>Npld > NGBT\<close>, the C++ arithmetic wraps and
  the bitset is written out of range, which is undefined behaviour;
  \<open>makeGBTWordInverse\<close> returns \<open>None\<close> there, and a run that reaches it is \<open>None\<close>
  (C23). The out-of-range writes of the \<open>pldmask\<close> loop for 76-bit class payloads
  (bits 80--87) are dropped instead, since no value the decoder reads depends on them
  (\<open>Digits\<close>). \<open>mNHBIntegrated\<close>, whose declaration is in a header outside the
  sources, is a 32-bit word; a wider type would differ only after \<open>2 ^ 32\<close> orbits.
  Bit vectors are words: \<open>&\<close>, \<open>|\<close>, \<open><<\<close>, \<open>>>\<close>
  of \<open>std::bitset\<close> are \<open>AND\<close>, \<open>OR\<close>, \<open>push_bit\<close> and \<open>drop_bit\<close>. The 64-bit
  and 32-bit luminosity counters are \<open>u64\<close>/\<open>u32\<close> words and wrap as in C++; the
  \<open>size_t\<close> comparisons with \<open>int\<close> options convert the option as C++ does. The
  uninitialised \<open>payloadCTP\<close> is a parameter of \<open>run\<close>. Logging is kept only where it
  changes state (the \<open>LOG(debug)\<close> of line 158, a flag) or as values (error
  diagnostics, alarms). No fuel is used: the only loop that may not end is the
  unpacker's, and it is proved to return (C5, C22).

  \<^bold>\<open>Not modelled.\<close> The text of the log messages; the DPL framework calls that
  deliver pages and take snapshots (modelled as the values they carry); the
  floating-point \<open>getLumi\<close> rate; the physics of the event generators the hybrid
  delegates to, the base class \<open>Generator\<close> beyond the state the hybrid touches, and the
  \<open>Bool_t\<close> results of \<open>Init\<close>, \<open>generateEvent\<close> and \<open>importParticles\<close>.
\<close>


section \<open>Properties across components\<close>

text \<open>
  The luminosity members of the task are consistent: the window holds at most
  \<open>ntf-to-average\<close> frames with \<open>mCounts\<close> their sum, and the output record carries
  \<open>mCounts\<close>.
\<close>

definition lumi_ok :: "decoder \<Rightarrow> bool" where
  "lumi_ok d \<longleftrightarrow>
    window_inv (nat (mNTFToIntegrate (dcfg d))) (dlumi d) \<and> counts (mOutputLumiInfo (dlumi d)) = mCounts (dlumi d)"

text \<open>
  C30 (safety). With debug logging off, the digit output of every time frame that is
  decoded is strictly ordered by interaction record, hence holds one digit per
  timestamp: the page loop, the unpacker and the aggregator keep every digit of the map
  under its own record, and the output walks the map in key order.
\<close>

theorem run_digits_sorted:
  assumes "\<not> log_debug (dcfg d)" "mDoDigits (dcfg d)" "0 \<notin> set (dummySizes tf)"
    and "run d payload0 tf = Some (d', outs, as)"
  shows "\<exists>ds rest. outs = DigitsOut ds # rest \<and> sorted_wrt (<) (map intRecord ds)"
proof -
  obtain st where st: "frames_loop (dcfg d) (run_init payload0) (frames tf) = Some st"
    and outs: "outs = DigitsOut (digits_out (digits (agg st))) #
                 (if mDoLumi (dcfg d) then [LumiOut (mOutputLumiInfo
                    (lumi_finish (mNTFToIntegrate (dcfg d)) (lumiPointsHBF1 st) (orbit0 st)
                       (countsMB (agg st)) (dlumi d)))] else [])"
    using assms(2-4) by (auto simp: run_def deadbeef_guard_def Let_def split: option.splits)
  have ok0: "digits_ok (digits (agg (run_init payload0)))"
    by (simp add: run_init_def digits_ok_def digits_keyed_def)
  have ok: "digits_ok (digits (agg st))"
    using frames_loop_digits_ok [OF assms(1) ok0 st] .
  then have "map intRecord (digits_out (digits (agg st))) = sorted_list_of_set (dom (digits (agg st)))"
    by (rule digits_out_keys)
  then show ?thesis
    using outs by simp
qed

theorem run_digits_sorted_witness:
  "run \<lparr>dcfg = \<lparr>mDoDigits = True, mDoLumi = False, mNTFToIntegrate = 90, mVerbose = False,
                 mTVXMask = 0x1000, log_debug = False\<rparr>,
         dlumi = lumi_state_init, contDeadBeef = 0, maxWarnDeadBeef = 10\<rparr> 0
     \<lparr>dummySizes = [16], frames = [\<lparr>rdhTriggerOrbit = 5, rdhFeeID = 0, fpayload = []\<rparr>]\<rparr> =
     Some (\<lparr>dcfg = \<lparr>mDoDigits = True, mDoLumi = False, mNTFToIntegrate = 90, mVerbose = False,
                 mTVXMask = 0x1000, log_debug = False\<rparr>,
         dlumi = lumi_state_init, contDeadBeef = 0, maxWarnDeadBeef = 10\<rparr>, [DigitsOut []], []) \<and>
   (\<exists>ds rest. [DigitsOut []] = DigitsOut ds # rest \<and> sorted_wrt (<) (map intRecord ds))"
proof -
  have r: "run \<lparr>dcfg = \<lparr>mDoDigits = True, mDoLumi = False, mNTFToIntegrate = 90, mVerbose = False,
                 mTVXMask = 0x1000, log_debug = False\<rparr>,
         dlumi = lumi_state_init, contDeadBeef = 0, maxWarnDeadBeef = 10\<rparr> 0
     \<lparr>dummySizes = [16], frames = [\<lparr>rdhTriggerOrbit = 5, rdhFeeID = 0, fpayload = []\<rparr>]\<rparr> =
     Some (\<lparr>dcfg = \<lparr>mDoDigits = True, mDoLumi = False, mNTFToIntegrate = 90, mVerbose = False,
                 mTVXMask = 0x1000, log_debug = False\<rparr>,
         dlumi = lumi_state_init, contDeadBeef = 0, maxWarnDeadBeef = 10\<rparr>, [DigitsOut []], [])"
    by (simp add: run_def deadbeef_guard_def frame_step_def link_of_def run_init_def orbit_change_def
        digits_out_def ctp_consts)
  show ?thesis
    using r run_digits_sorted [OF _ _ _ r] by simp
qed

text \<open>
  C38 (invariant). For a window size \<open>0 \<le> ntf-to-average < 2 ^ 31\<close>, every call of
  \<open>run\<close> that returns, dead time frames included, keeps the luminosity members
  consistent, and the luminosity record it emits (last) carries the sum of the window.
\<close>

theorem run_lumi_consistent:
  assumes "0 \<le> mNTFToIntegrate (dcfg d)" "mNTFToIntegrate (dcfg d) < 2 ^ 31" "lumi_ok d"
    and "run d payload0 tf = Some (d', outs, as)" "mDoLumi (dcfg d)"
  shows "lumi_ok d' \<and> last outs = LumiOut (mOutputLumiInfo (dlumi d')) \<and>
    counts (mOutputLumiInfo (dlumi d')) = sum_list (map ucast (mHistory (dlumi d')))"
proof (cases "0 \<in> set (dummySizes tf)")
  case True
  then have "d' = d\<lparr>contDeadBeef := contDeadBeef d + 1\<rparr>" "outs = dead_outputs d"
    using assms(4) by (simp_all add: run_def deadbeef_guard_def Let_def)
  then show ?thesis
    using assms(3,5) by (simp add: lumi_ok_def dead_outputs_def window_inv_def)
next
  case False
  then obtain st where st: "frames_loop (dcfg d) (run_init payload0) (frames tf) = Some st"
    using assms(4) by (auto simp: run_def deadbeef_guard_def split: option.splits)
  define NTF where "NTF = mNTFToIntegrate (dcfg d)"
  define lum where "lum = lumi_finish NTF (lumiPointsHBF1 st) (orbit0 st) (countsMB (agg st)) (dlumi d)"
  have d': "d' = d\<lparr>contDeadBeef := 0, dlumi := lum\<rparr>" "last outs = LumiOut (mOutputLumiInfo lum)"
    using assms(4,5) False st by (auto simp: run_def deadbeef_guard_def Let_def lum_def NTF_def)
  have "window_inv (nat NTF) (window_push NTF (tf_counts (lumiPointsHBF1 st @
      [\<lparr>orbit = orbit0 st, nHBFCounted = 0, counts = countsMB (agg st)\<rparr>])) (Suc (length (lumiPointsHBF1 st))) (dlumi d))"
    using window_push_preserves assms(1-3) by (simp add: NTF_def lumi_ok_def)
  then have "window_inv (nat NTF) lum"
    by (simp add: lum_def window_inv_def lumi_finish_fields)
  then show ?thesis
    using d' by (simp add: lumi_ok_def NTF_def lum_def lumi_finish_fields window_inv_def)
qed

theorem run_lumi_consistent_witness:
  "run \<lparr>dcfg = \<lparr>mDoDigits = False, mDoLumi = True, mNTFToIntegrate = 90, mVerbose = False,
                 mTVXMask = 0x1000, log_debug = False\<rparr>,
         dlumi = lumi_state_init, contDeadBeef = 0, maxWarnDeadBeef = 10\<rparr> 0
     \<lparr>dummySizes = [], frames = []\<rparr> =
     Some (\<lparr>dcfg = \<lparr>mDoDigits = False, mDoLumi = True, mNTFToIntegrate = 90, mVerbose = False,
                 mTVXMask = 0x1000, log_debug = False\<rparr>,
         dlumi = \<lparr>mHistory = [0], mCounts = 0, mNHBIntegrated = 1,
                  mOutputLumiInfo = \<lparr>orbit = 0, nHBFCounted = 1, counts = 0\<rparr>\<rparr>,
         contDeadBeef = 0, maxWarnDeadBeef = 10\<rparr>,
       [LumiOut \<lparr>orbit = 0, nHBFCounted = 1, counts = 0\<rparr>], []) \<and>
   lumi_ok \<lparr>dcfg = \<lparr>mDoDigits = False, mDoLumi = True, mNTFToIntegrate = 90, mVerbose = False,
                 mTVXMask = 0x1000, log_debug = False\<rparr>,
         dlumi = \<lparr>mHistory = [0], mCounts = 0, mNHBIntegrated = 1,
                  mOutputLumiInfo = \<lparr>orbit = 0, nHBFCounted = 1, counts = 0\<rparr>\<rparr>,
         contDeadBeef = 0, maxWarnDeadBeef = 10\<rparr>"
proof -
  have r: "run \<lparr>dcfg = \<lparr>mDoDigits = False, mDoLumi = True, mNTFToIntegrate = 90, mVerbose = False,
                 mTVXMask = 0x1000, log_debug = False\<rparr>,
         dlumi = lumi_state_init, contDeadBeef = 0, maxWarnDeadBeef = 10\<rparr> 0
     \<lparr>dummySizes = [], frames = []\<rparr> =
     Some (\<lparr>dcfg = \<lparr>mDoDigits = False, mDoLumi = True, mNTFToIntegrate = 90, mVerbose = False,
                 mTVXMask = 0x1000, log_debug = False\<rparr>,
         dlumi = \<lparr>mHistory = [0], mCounts = 0, mNHBIntegrated = 1,
                  mOutputLumiInfo = \<lparr>orbit = 0, nHBFCounted = 1, counts = 0\<rparr>\<rparr>,
         contDeadBeef = 0, maxWarnDeadBeef = 10\<rparr>,
       [LumiOut \<lparr>orbit = 0, nHBFCounted = 1, counts = 0\<rparr>], [])"
    by (simp add: run_def deadbeef_guard_def run_init_def lumi_finish_def window_push_def tf_counts_def
        lumi_state_init_def lumi_info_default_def Let_def)
  have ok0: "lumi_ok \<lparr>dcfg = \<lparr>mDoDigits = False, mDoLumi = True, mNTFToIntegrate = 90, mVerbose = False,
                 mTVXMask = 0x1000, log_debug = False\<rparr>,
         dlumi = lumi_state_init, contDeadBeef = 0, maxWarnDeadBeef = 10\<rparr>"
    by (simp add: lumi_ok_def window_inv_def lumi_state_init_def lumi_info_default_def)
  show ?thesis
    using r run_lumi_consistent [OF _ _ ok0 r] by simp
qed

end
